(* ===== verification/Ovs_Prelude.thy ===== *)
theory Ovs_Prelude imports Main begin

text \<open>
  The common ground of the development: Python's exceptions as values, the state-and-exception
  computations every effectful method is written in, the loops over them, and the rules that carry
  invariants and frame conditions through a computation.  A computation of type
  \<open>('s, 'a) em\<close> takes a state and returns either the exception it raised or its result, together
  with the state it left behind: as in Python, an exception does not roll the state back.
\<close>

section \<open>Exceptions and results\<close>

datatype err =
    TypeError
  | ValueError
  | IndexError
  | KeyError string
  | AttributeError
  | RuntimeError string
  | IOError string
  | SSHTimeout
  | SSHException
  | OtherError string
  | SystemExit

type_synonym 'a res = "err + 'a"
type_synonym ('s, 'a) em = "'s \<Rightarrow> 'a res \<times> 's"

named_theorems em_simps "equations that run a computation on a state"
named_theorems keeps "rules that carry an invariant through a computation"
named_theorems frame "rules that show a computation leaves part of the state alone"

definition retE :: "'a \<Rightarrow> ('s, 'a) em" where
  "retE x = (\<lambda>s. (Inr x, s))"

definition raiseE :: "err \<Rightarrow> ('s, 'a) em" where
  "raiseE e = (\<lambda>s. (Inl e, s))"

definition bindE :: "('s, 'a) em \<Rightarrow> ('a \<Rightarrow> ('s, 'b) em) \<Rightarrow> ('s, 'b) em" where
  "bindE m f = (\<lambda>s. case m s of (Inl e, s') \<Rightarrow> (Inl e, s') | (Inr x, s') \<Rightarrow> f x s')"

definition thenE :: "('s, 'a) em \<Rightarrow> ('s, 'b) em \<Rightarrow> ('s, 'b) em" where
  "thenE m n = bindE m (\<lambda>_. n)"

text \<open>A pure step that may raise, reading a component, writing the state.\<close>

definition liftE :: "'a res \<Rightarrow> ('s, 'a) em" where
  "liftE r = (\<lambda>s. (r, s))"

definition getE :: "('s \<Rightarrow> 'a) \<Rightarrow> ('s, 'a) em" where
  "getE f = (\<lambda>s. (Inr (f s), s))"

definition readE :: "('s \<Rightarrow> 'a res) \<Rightarrow> ('s, 'a) em" where
  "readE f = (\<lambda>s. (f s, s))"

definition modifyE :: "('s \<Rightarrow> 's) \<Rightarrow> ('s, unit) em" where
  "modifyE f = (\<lambda>s. (Inr (), f s))"

text \<open>\<open>try: m except e: h e\<close> (the handler re-raises what it does not handle).\<close>

definition tryE :: "('s, 'a) em \<Rightarrow> (err \<Rightarrow> ('s, 'a) em) \<Rightarrow> ('s, 'a) em" where
  "tryE m h = (\<lambda>s. case m s of (Inl e, s') \<Rightarrow> h e s' | (Inr x, s') \<Rightarrow> (Inr x, s'))"

definition whenE :: "bool \<Rightarrow> ('s, unit) em \<Rightarrow> ('s, unit) em" where
  "whenE b m = (if b then m else retE ())"

text \<open>\<open>for x in xs: body x\<close>, and the loop that collects a list of results.\<close>

primrec forE :: "'a list \<Rightarrow> ('a \<Rightarrow> ('s, unit) em) \<Rightarrow> ('s, unit) em" where
  "forE [] b = retE ()"
| "forE (x # xs) b = thenE (b x) (forE xs b)"

primrec collectE :: "'a list \<Rightarrow> ('a \<Rightarrow> ('s, 'b list) em) \<Rightarrow> ('s, 'b list) em" where
  "collectE [] b = retE []"
| "collectE (x # xs) b = bindE (b x) (\<lambda>ys. bindE (collectE xs b) (\<lambda>zs. retE (ys @ zs)))"

text \<open>The same for pure code that may raise: sequencing, and a loop that appends to a list.\<close>

definition bindR :: "'a res \<Rightarrow> ('a \<Rightarrow> 'b res) \<Rightarrow> 'b res" where
  "bindR r f = (case r of Inl e \<Rightarrow> Inl e | Inr x \<Rightarrow> f x)"

primrec collectR :: "('a \<Rightarrow> 'b list res) \<Rightarrow> 'a list \<Rightarrow> 'b list res" where
  "collectR f [] = Inr []"
| "collectR f (x # xs) = bindR (f x) (\<lambda>ys. bindR (collectR f xs) (\<lambda>zs. Inr (ys @ zs)))"

text \<open>Running a computation on one component of a paired state.\<close>

definition on_fst :: "('a, 'r) em \<Rightarrow> ('a \<times> 'b, 'r) em" where
  "on_fst m = (\<lambda>(a, b). case m a of (r, a') \<Rightarrow> (r, (a', b)))"

definition on_snd :: "('b, 'r) em \<Rightarrow> ('a \<times> 'b, 'r) em" where
  "on_snd m = (\<lambda>(a, b). case m b of (r, b') \<Rightarrow> (r, (a, b')))"

lemma em_ret [em_simps]: "retE x s = (Inr x, s)"
  by (simp add: retE_def)

lemma em_raise [em_simps]: "raiseE e s = (Inl e, s)"
  by (simp add: raiseE_def)

lemma em_lift [em_simps]: "liftE r s = (r, s)"
  by (simp add: liftE_def)

lemma em_get [em_simps]: "getE f s = (Inr (f s), s)"
  by (simp add: getE_def)

lemma em_read [em_simps]: "readE f s = (f s, s)"
  by (simp add: readE_def)

lemma em_modify [em_simps]: "modifyE f s = (Inr (), f s)"
  by (simp add: modifyE_def)

lemma em_bind [em_simps]:
  "bindE m f s = (case m s of (Inl e, s') \<Rightarrow> (Inl e, s') | (Inr x, s') \<Rightarrow> f x s')"
  by (simp add: bindE_def)

lemma em_then [em_simps]:
  "thenE m n s = (case m s of (Inl e, s') \<Rightarrow> (Inl e, s') | (Inr _, s') \<Rightarrow> n s')"
  by (simp add: thenE_def bindE_def)

lemma em_try [em_simps]:
  "tryE m h s = (case m s of (Inl e, s') \<Rightarrow> h e s' | (Inr x, s') \<Rightarrow> (Inr x, s'))"
  by (simp add: tryE_def)

lemma em_when [em_simps]: "whenE b m s = (if b then m s else (Inr (), s))"
  by (simp add: whenE_def retE_def)

lemma em_on_fst [em_simps]: "on_fst m (a, b) = (case m a of (r, a') \<Rightarrow> (r, (a', b)))"
  by (simp add: on_fst_def)

lemma em_on_snd [em_simps]: "on_snd m (a, b) = (case m b of (r, b') \<Rightarrow> (r, (a, b')))"
  by (simp add: on_snd_def)

lemma em_for_Nil [em_simps]: "forE [] b s = (Inr (), s)"
  by (simp add: retE_def)

lemma em_for_Cons [em_simps]:
  "forE (x # xs) b s = (case b x s of (Inl e, s') \<Rightarrow> (Inl e, s') | (Inr _, s') \<Rightarrow> forE xs b s')"
  by (simp add: em_then)

section \<open>The laws of the computations\<close>

lemma bindE_retE [simp]: "bindE (retE x) f = f x"
  by (simp add: bindE_def retE_def)

lemma bindE_raiseE [simp]: "bindE (raiseE e) f = raiseE e"
  by (simp add: bindE_def raiseE_def)

lemma bindE_assoc: "bindE (bindE m f) g = bindE m (\<lambda>x. bindE (f x) g)"
  by (auto simp: bindE_def fun_eq_iff split: prod.splits sum.splits)

lemma thenE_retE [simp]: "thenE (retE x) n = n"
  by (simp add: thenE_def)

lemma thenE_assoc: "thenE (thenE m n) k = thenE m (thenE n k)"
  by (simp add: thenE_def bindE_assoc)

lemma forE_append: "forE (xs @ ys) b = thenE (forE xs b) (forE ys b)"
  by (induction xs) (simp_all add: thenE_assoc)

lemma bindR_simps [simp]: "bindR (Inl e) f = Inl e" "bindR (Inr x) f = f x"
  by (simp_all add: bindR_def)

lemma bindR_Inr_iff: "bindR r f = Inr y \<longleftrightarrow> (\<exists>x. r = Inr x \<and> f x = Inr y)"
  by (cases r) auto

lemma bindR_cong [cong]: "r = r' \<Longrightarrow> (\<And>x. r' = Inr x \<Longrightarrow> f x = g x) \<Longrightarrow> bindR r f = bindR r' g"
  by (cases r') auto

lemma collectR_total: "(\<And>x. x \<in> set xs \<Longrightarrow> f x = Inr (g x)) \<Longrightarrow> collectR f xs = Inr (concat (map g xs))"
  by (induction xs) auto

lemma collectR_cong [fundef_cong]:
  "xs = ys \<Longrightarrow> (\<And>x. x \<in> set ys \<Longrightarrow> f x = g x) \<Longrightarrow> collectR f xs = collectR g ys"
  by (induction ys arbitrary: xs) auto

lemma collectR_Inr_set:
  "collectR f xs = Inr ys \<Longrightarrow> y \<in> set ys \<Longrightarrow> \<exists>x zs. x \<in> set xs \<and> f x = Inr zs \<and> y \<in> set zs"
  by (induction xs arbitrary: ys) (fastforce simp: bindR_Inr_iff)+

text \<open>How a computation that returned came to its result.\<close>

named_theorems returns "the ways a computation can return"

lemma returns_bind [returns]:
  "bindE m f s = (Inr y, s') \<longleftrightarrow> (\<exists>x s1. m s = (Inr x, s1) \<and> f x s1 = (Inr y, s'))"
  by (auto simp: em_simps split: prod.splits sum.splits)

lemma returns_then [returns]:
  "thenE m n s = (Inr y, s') \<longleftrightarrow> (\<exists>x s1. m s = (Inr x, s1) \<and> n s1 = (Inr y, s'))"
  by (simp add: thenE_def returns_bind)

lemma returns_ret [returns]: "retE x s = (Inr y, s') \<longleftrightarrow> x = y \<and> s = s'"
  by (auto simp: em_simps)

lemma returns_raise [returns]: "raiseE e s = (Inr y, s') \<longleftrightarrow> False"
  by (simp add: em_simps)

lemma returns_get [returns]: "getE g s = (Inr y, s') \<longleftrightarrow> g s = y \<and> s = s'"
  by (auto simp: em_simps)

lemma returns_read [returns]: "readE g s = (Inr y, s') \<longleftrightarrow> g s = Inr y \<and> s = s'"
  by (auto simp: em_simps)

lemma returns_lift [returns]: "liftE v s = (Inr y, s') \<longleftrightarrow> v = Inr y \<and> s = s'"
  by (auto simp: em_simps)

lemma returns_modify [returns]: "modifyE g s = (Inr y, s') \<longleftrightarrow> s' = g s"
  by (auto simp: em_simps)

lemma returns_on_fst [returns]:
  "on_fst m s = (Inr y, s') \<longleftrightarrow> (\<exists>a'. m (fst s) = (Inr y, a') \<and> s' = (a', snd s))"
  by (cases s) (auto simp: em_simps split: prod.splits)

lemma returns_on_snd [returns]:
  "on_snd m s = (Inr y, s') \<longleftrightarrow> (\<exists>b'. m (snd s) = (Inr y, b') \<and> s' = (fst s, b'))"
  by (cases s) (auto simp: em_simps split: prod.splits)

lemma returnsE:
  assumes "bindE m f s = (Inr y, s')"
  obtains x s1 where "m s = (Inr x, s1)" "f x s1 = (Inr y, s')"
  using assms by (auto simp: returns_bind)

lemma returns_thenE:
  assumes "thenE m n s = (Inr y, s')"
  obtains x s1 where "m s = (Inr x, s1)" "n s1 = (Inr y, s')"
  using assms by (auto simp: returns_then)

section \<open>Invariants and frames\<close>

text \<open>
  \<open>keepsE P m\<close>: whatever \<open>m\<close> does, return or raise, \<open>P\<close> still holds afterwards.
  \<open>frameE f m\<close>: \<open>m\<close> leaves \<open>f\<close> of the state as it was.
\<close>

definition keepsE :: "('s \<Rightarrow> bool) \<Rightarrow> ('s, 'a) em \<Rightarrow> bool" where
  "keepsE P m \<longleftrightarrow> (\<forall>s. P s \<longrightarrow> P (snd (m s)))"

definition frameE :: "('s \<Rightarrow> 'v) \<Rightarrow> ('s, 'a) em \<Rightarrow> bool" where
  "frameE f m \<longleftrightarrow> (\<forall>s. f (snd (m s)) = f s)"

lemma keepsE_D: "keepsE P m \<Longrightarrow> P s \<Longrightarrow> m s = (r, s') \<Longrightarrow> P s'"
  by (metis keepsE_def snd_conv)

lemma frameE_D: "frameE f m \<Longrightarrow> m s = (r, s') \<Longrightarrow> f s' = f s"
  by (metis frameE_def snd_conv)

lemma frameE_keeps: "frameE f m \<Longrightarrow> keepsE (\<lambda>s. Q (f s)) m"
  by (simp add: frameE_def keepsE_def)

lemma keeps_ret [keeps]: "keepsE P (retE x)"
  by (simp add: keepsE_def retE_def)

lemma keeps_raise [keeps]: "keepsE P (raiseE e)"
  by (simp add: keepsE_def raiseE_def)

lemma keeps_lift [keeps]: "keepsE P (liftE r)"
  by (simp add: keepsE_def liftE_def)

lemma keeps_get [keeps]: "keepsE P (getE f)"
  by (simp add: keepsE_def getE_def)

lemma keeps_read [keeps]: "keepsE P (readE f)"
  by (simp add: keepsE_def readE_def)

lemma keeps_bind [keeps]: "keepsE P m \<Longrightarrow> (\<And>x. keepsE P (f x)) \<Longrightarrow> keepsE P (bindE m f)"
  by (fastforce simp: keepsE_def bindE_def split: prod.splits sum.splits)

lemma keeps_then [keeps]: "keepsE P m \<Longrightarrow> keepsE P n \<Longrightarrow> keepsE P (thenE m n)"
  by (simp add: thenE_def keeps_bind)

lemma keeps_try [keeps]: "keepsE P m \<Longrightarrow> (\<And>e. keepsE P (h e)) \<Longrightarrow> keepsE P (tryE m h)"
  by (fastforce simp: keepsE_def tryE_def split: prod.splits sum.splits)

lemma keeps_when [keeps]: "keepsE P m \<Longrightarrow> keepsE P (whenE b m)"
  by (simp add: whenE_def keeps_ret)

lemma keeps_for [keeps]: "(\<And>x. x \<in> set xs \<Longrightarrow> keepsE P (b x)) \<Longrightarrow> keepsE P (forE xs b)"
  by (induction xs) (simp_all add: keeps_ret keeps_then)

lemma keeps_collect [keeps]:
  "(\<And>x. x \<in> set xs \<Longrightarrow> keepsE P (b x)) \<Longrightarrow> keepsE P (collectE xs b)"
  by (induction xs) (simp_all add: keeps_ret keeps_bind)

lemma keeps_modify: "(\<And>s. P s \<Longrightarrow> P (f s)) \<Longrightarrow> keepsE P (modifyE f)"
  by (simp add: keepsE_def modifyE_def)

lemma keeps_if [keeps]: "(b \<Longrightarrow> keepsE P m) \<Longrightarrow> (\<not> b \<Longrightarrow> keepsE P n) \<Longrightarrow> keepsE P (if b then m else n)"
  by simp

text \<open>A frame is an invariant for each value of the component, so the rules follow.\<close>

lemma frameE_iff: "frameE f m \<longleftrightarrow> (\<forall>v. keepsE (\<lambda>s. f s = v) m)"
  by (auto simp: frameE_def keepsE_def)

lemma frame_ret [frame]: "frameE f (retE x)"
  by (simp add: frameE_def retE_def)

lemma frame_raise [frame]: "frameE f (raiseE e)"
  by (simp add: frameE_def raiseE_def)

lemma frame_lift [frame]: "frameE f (liftE r)"
  by (simp add: frameE_def liftE_def)

lemma frame_get [frame]: "frameE f (getE g)"
  by (simp add: frameE_def getE_def)

lemma frame_read [frame]: "frameE f (readE g)"
  by (simp add: frameE_def readE_def)

lemma frame_modify [frame]: "(\<And>s. f (g s) = f s) \<Longrightarrow> frameE f (modifyE g)"
  by (simp add: frameE_def modifyE_def)

lemma frame_bind [frame]: "frameE f m \<Longrightarrow> (\<And>x. frameE f (g x)) \<Longrightarrow> frameE f (bindE m g)"
  by (simp add: frameE_iff keeps_bind)

lemma frame_then [frame]: "frameE f m \<Longrightarrow> frameE f n \<Longrightarrow> frameE f (thenE m n)"
  by (simp add: thenE_def frame_bind)

lemma frame_try [frame]: "frameE f m \<Longrightarrow> (\<And>e. frameE f (h e)) \<Longrightarrow> frameE f (tryE m h)"
  by (simp add: frameE_iff keeps_try)

lemma frame_when [frame]: "frameE f m \<Longrightarrow> frameE f (whenE b m)"
  by (simp add: whenE_def frame_ret)

lemma frame_for [frame]: "(\<And>x. x \<in> set xs \<Longrightarrow> frameE f (b x)) \<Longrightarrow> frameE f (forE xs b)"
  by (induction xs) (simp_all add: frame_ret frame_then)

lemma frame_collect [frame]:
  "(\<And>x. x \<in> set xs \<Longrightarrow> frameE f (b x)) \<Longrightarrow> frameE f (collectE xs b)"
  by (induction xs) (simp_all add: frame_ret frame_bind)

lemma frame_if [frame]: "(b \<Longrightarrow> frameE f m) \<Longrightarrow> (\<not> b \<Longrightarrow> frameE f n) \<Longrightarrow> frameE f (if b then m else n)"
  by simp

lemma frame_on_fst: "(\<And>b. frameE (\<lambda>a. f (a, b)) m) \<Longrightarrow> frameE f (on_fst m)"
  by (auto simp: frameE_def on_fst_def split: prod.splits) (metis snd_conv)

lemma frame_on_snd: "(\<And>a. frameE (\<lambda>b. f (a, b)) m) \<Longrightarrow> frameE f (on_snd m)"
  by (auto simp: frameE_def on_snd_def split: prod.splits) (metis snd_conv)

lemma frame_fst [frame]: "frameE fst (on_snd m)"
  by (auto simp: frameE_def on_snd_def split: prod.splits)

lemma frame_snd [frame]: "frameE snd (on_fst m)"
  by (auto simp: frameE_def on_fst_def split: prod.splits)

lemma frame_fst_on_snd [frame]: "frameE (\<lambda>s. f (fst s)) (on_snd m)"
  by (auto simp: frameE_def on_snd_def split: prod.splits)

lemma frame_snd_on_fst [frame]: "frameE (\<lambda>s. f (snd s)) (on_fst m)"
  by (auto simp: frameE_def on_fst_def split: prod.splits)

section \<open>Runners of commands\<close>

text \<open>
  Every class of the program that drives a machine has a method that sends one command and a batch
  method that sends a list of them.  The interface both sides rely on: one call appends at most its
  own command to what has been sent, and for the strict runners a call that returns has sent it.
  A batch is the loop \<open>for cmd in cmds: run cmd\<close>.
\<close>

locale cmd_runner =
  fixes run :: "'c \<Rightarrow> ('s, 'r) em"
    and sent :: "'s \<Rightarrow> 'e list"
    and ev :: "'c \<Rightarrow> 'e"
  assumes run_sends: "sent (snd (run c s)) = sent s \<or> sent (snd (run c s)) = sent s @ [ev c]"
begin

lemma batch_sends_sublist:
  "\<exists>cs'. set cs' \<subseteq> set cs \<and> length cs' \<le> length cs
      \<and> sent (snd (forE cs (\<lambda>c. thenE (run c) (retE ())) s)) = sent s @ map ev cs'"
proof (induction cs arbitrary: s)
  case Nil
  then show ?case by (simp add: em_simps)
next
  case (Cons c cs)
  obtain r s' where rs: "run c s = (r, s')" by fastforce
  have here: "sent s' = sent s \<or> sent s' = sent s @ [ev c]"
    using run_sends [of c s] rs by simp
  show ?case
  proof (cases r)
    case (Inl e)
    then have "snd (forE (c # cs) (\<lambda>c. thenE (run c) (retE ())) s) = s'"
      using rs by (simp add: em_simps)
    with here show ?thesis
      by (elim disjE) (auto intro: exI [of _ "[]"] exI [of _ "[c]"])
  next
    case (Inr x)
    then have run: "snd (forE (c # cs) (\<lambda>c. thenE (run c) (retE ())) s)
        = snd (forE cs (\<lambda>c. thenE (run c) (retE ())) s')"
      using rs by (simp add: em_simps)
    obtain cs' where cs': "set cs' \<subseteq> set cs" "length cs' \<le> length cs"
      "sent (snd (forE cs (\<lambda>c. thenE (run c) (retE ())) s')) = sent s' @ map ev cs'"
      using Cons.IH [of s'] by blast
    from here show ?thesis
    proof
      assume "sent s' = sent s"
      with cs' run show ?thesis by (intro exI [of _ cs']) auto
    next
      assume "sent s' = sent s @ [ev c]"
      with cs' run show ?thesis by (intro exI [of _ "c # cs'"]) auto
    qed
  qed
qed

end

locale strict_runner = cmd_runner +
  assumes run_strict: "fst (run c s) = Inr r \<Longrightarrow> sent (snd (run c s)) = sent s @ [ev c]"
begin

text \<open>A batch sends a prefix of its commands, in order, and all of them when it returns.\<close>

lemma batch_sends_prefix:
  "\<exists>k. sent (snd (forE cs (\<lambda>c. thenE (run c) (retE ())) s)) = sent s @ map ev (take k cs)
     \<and> (fst (forE cs (\<lambda>c. thenE (run c) (retE ())) s) = Inr () \<longrightarrow> k = length cs)"
proof (induction cs arbitrary: s)
  case Nil
  then show ?case by (simp add: em_simps)
next
  case (Cons c cs)
  obtain r s' where rs: "run c s = (r, s')" by fastforce
  show ?case
  proof (cases r)
    case (Inl e)
    then have "forE (c # cs) (\<lambda>c. thenE (run c) (retE ())) s = (Inl e, s')"
      using rs by (simp add: em_simps)
    moreover have "sent s' = sent s \<or> sent s' = sent s @ [ev c]"
      using run_sends [of c s] rs by simp
    ultimately show ?thesis
      by (auto intro: exI [of _ 0] exI [of _ "Suc 0"])
  next
    case (Inr x)
    then have "forE (c # cs) (\<lambda>c. thenE (run c) (retE ())) s
        = forE cs (\<lambda>c. thenE (run c) (retE ())) s'"
      using rs by (simp add: em_simps)
    moreover have "sent s' = sent s @ [ev c]"
      using run_strict [of c s x] rs Inr by simp
    moreover obtain k where "sent (snd (forE cs (\<lambda>c. thenE (run c) (retE ())) s'))
        = sent s' @ map ev (take k cs)"
      "fst (forE cs (\<lambda>c. thenE (run c) (retE ())) s') = Inr () \<longrightarrow> k = length cs"
      using Cons.IH by blast
    ultimately show ?thesis
      by (intro exI [of _ "Suc k"]) simp
  qed
qed

lemma batch_returns_all:
  assumes "fst (forE cs (\<lambda>c. thenE (run c) (retE ())) s) = Inr ()"
  shows "sent (snd (forE cs (\<lambda>c. thenE (run c) (retE ())) s)) = sent s @ map ev cs"
  using batch_sends_prefix [of cs s] assms by auto

end

end
