(* ===== verification/Py_Text.thy ===== *)
theory Py_Text imports Ovs_Prelude "HOL-Library.Char_ord" "HOL-Library.List_Lexorder" begin

text \<open>
  The part of Python's strings, integers, \<open>os.path\<close>, \<open>io.StringIO\<close> and \<open>re\<close> that the program
  uses.  A \<open>string\<close> is a list of characters with code points below 256.  Dynamic values that end up
  in dictionaries keys or in formatted text (an \<open>ofp\<close> that is sometimes an int and sometimes a
  string, a VNI, a YAML option) are \<open>pyval\<close>s, with Python's equality: an int never equals a string.
\<close>

section \<open>Values\<close>

datatype pyval = PNone | PInt int | PStr string | PBool bool

section \<open>Numbers as text\<close>

definition digit_char :: "nat \<Rightarrow> char" where
  "digit_char n = (if n < 10 then char_of (48 + n) else char_of (87 + n))"

fun nat_str :: "nat \<Rightarrow> string" where
  "nat_str n = (if n < 10 then [digit_char n] else nat_str (n div 10) @ [digit_char (n mod 10)])"

declare nat_str.simps [simp del]

definition int_str :: "int \<Rightarrow> string" where
  "int_str i = (if i < 0 then CHR ''-'' # nat_str (nat (- i)) else nat_str (nat i))"

fun hex_str :: "nat \<Rightarrow> string" where
  "hex_str n = (if n < 16 then [digit_char n] else hex_str (n div 16) @ [digit_char (n mod 16)])"

declare hex_str.simps [simp del]

text \<open>\<open>hex(n)\<close> of a natural number, and the zero padding of \<open>{:02d}\<close>, \<open>{:03d}\<close>, \<open>{:02x}\<close>.\<close>

definition py_hex :: "nat \<Rightarrow> string" where
  "py_hex n = ''0x'' @ hex_str n"

definition pad0 :: "nat \<Rightarrow> string \<Rightarrow> string" where
  "pad0 k s = replicate (k - length s) (CHR ''0'') @ s"

fun py_str :: "pyval \<Rightarrow> string" where
  "py_str PNone = ''None''"
| "py_str (PInt i) = int_str i"
| "py_str (PStr s) = s"
| "py_str (PBool b) = (if b then ''True'' else ''False'')"

text \<open>Python's truth of a value in a condition.\<close>

fun truthy :: "pyval \<Rightarrow> bool" where
  "truthy PNone = False"
| "truthy (PInt i) = (i \<noteq> 0)"
| "truthy (PStr s) = (s \<noteq> [])"
| "truthy (PBool b) = b"

text \<open>An f-string or a \<open>format\<close> call is the concatenation of its pieces.\<close>

definition fmt :: "string list \<Rightarrow> string" where
  "fmt ps = concat ps"

text \<open>
  The flow text is quoted for the remote shell, so \<open>>\<close> and parentheses follow a backslash in it.
\<close>

definition arrow :: string where
  "arrow = [CHR ''-'', CHR 0x5C, CHR ''>'']"

definition lpar :: string where
  "lpar = [CHR 0x5C, CHR ''('']"

definition rpar :: string where
  "rpar = [CHR 0x5C, CHR '')'']"

definition nl :: char where
  "nl = CHR 0x0A"

definition dquote :: string where
  "dquote = [CHR 0x22]"

definition squote :: string where
  "squote = [CHR 0x27]"

section \<open>Reading numbers\<close>

definition py_space :: "char \<Rightarrow> bool" where
  "py_space c = (let n = (of_char c :: nat) in
     9 \<le> n \<and> n \<le> 13 \<or> 28 \<le> n \<and> n \<le> 32 \<or> n = 133 \<or> n = 160)"

definition is_digit :: "char \<Rightarrow> bool" where
  "is_digit c = (let n = (of_char c :: nat) in 48 \<le> n \<and> n \<le> 57)"

definition digit_val :: "char \<Rightarrow> nat" where
  "digit_val c = of_char c - 48"

definition lstrip :: "string \<Rightarrow> string" where
  "lstrip s = dropWhile py_space s"

definition strip :: "string \<Rightarrow> string" where
  "strip s = rev (lstrip (rev (lstrip s)))"

text \<open>The digits of \<open>int(s)\<close>: single underscores are allowed between digits.\<close>

fun int_digits :: "nat \<Rightarrow> bool \<Rightarrow> string \<Rightarrow> nat option" where
  "int_digits acc d [] = (if d then Some acc else None)"
| "int_digits acc d (c # cs) =
     (if is_digit c then int_digits (10 * acc + digit_val c) True cs
      else if c = CHR ''_'' \<and> d then int_digits acc False cs
      else None)"

definition py_int :: "string \<Rightarrow> int res" where
  "py_int s = (let t = strip s in
     case (case t of
             [] \<Rightarrow> None
           | c # cs \<Rightarrow>
               if c = CHR ''-'' then map_option (\<lambda>n. - int n) (int_digits 0 False cs)
               else if c = CHR ''+'' then map_option int (int_digits 0 False cs)
               else map_option int (int_digits 0 False t)) of
       None \<Rightarrow> Inl ValueError
     | Some i \<Rightarrow> Inr i)"

text \<open>\<open>int(x)\<close> of a dynamic value.\<close>

fun py_int_of :: "pyval \<Rightarrow> int res" where
  "py_int_of PNone = Inl TypeError"
| "py_int_of (PInt i) = Inr i"
| "py_int_of (PStr s) = py_int s"
| "py_int_of (PBool b) = Inr (if b then 1 else 0)"

section \<open>Searching and splitting\<close>

fun starts_with :: "string \<Rightarrow> string \<Rightarrow> bool" where
  "starts_with [] s = True"
| "starts_with (p # ps) [] = False"
| "starts_with (p # ps) (c # cs) = (p = c \<and> starts_with ps cs)"

text \<open>\<open>sub in s\<close>\<close>

fun str_in :: "string \<Rightarrow> string \<Rightarrow> bool" where
  "str_in p [] = starts_with p []"
| "str_in p (c # cs) = (starts_with p (c # cs) \<or> str_in p cs)"

text \<open>\<open>s.find(c, start)\<close> for a single character; \<open>None\<close> is Python's \<open>-1\<close>.\<close>

fun find_char :: "char \<Rightarrow> string \<Rightarrow> nat option" where
  "find_char c [] = None"
| "find_char c (x # xs) = (if x = c then Some 0 else map_option Suc (find_char c xs))"

definition find_from :: "char \<Rightarrow> string \<Rightarrow> nat \<Rightarrow> nat option" where
  "find_from c s i = map_option ((+) i) (find_char c (drop i s))"

text \<open>\<open>s.split(d)\<close> for a single character, and \<open>StringIO(s).readlines()\<close>.\<close>

fun split_on :: "char \<Rightarrow> string \<Rightarrow> string list" where
  "split_on d [] = [[]]"
| "split_on d (c # cs) =
     (if c = d then [] # split_on d cs
      else (case split_on d cs of [] \<Rightarrow> [[c]] | l # ls \<Rightarrow> (c # l) # ls))"

fun readlines :: "string \<Rightarrow> string list" where
  "readlines [] = []"
| "readlines (c # cs) =
     (if c = nl then [nl] # readlines cs
      else (case readlines cs of [] \<Rightarrow> [[c]] | l # ls \<Rightarrow> (c # l) # ls))"

text \<open>\<open>s.splitlines()\<close>: \<open>CR LF\<close> is one boundary, and no empty line follows the last one.\<close>

definition line_break :: "char \<Rightarrow> bool" where
  "line_break c = (let n = (of_char c :: nat) in
     10 \<le> n \<and> n \<le> 13 \<or> 28 \<le> n \<and> n \<le> 30 \<or> n = 133)"

fun splitlines :: "string \<Rightarrow> string list" where
  "splitlines [] = []"
| "splitlines (c # cs) =
     (if c = CHR 0x0D \<and> starts_with [CHR 0x0A] cs then
        (case splitlines cs of [] \<Rightarrow> [[]] | l # ls \<Rightarrow> l # ls)
      else if line_break c then [] # splitlines cs
      else (case cs of [] \<Rightarrow> [[c]]
                     | d # ds \<Rightarrow> (case splitlines cs of [] \<Rightarrow> [[c]] | l # ls \<Rightarrow> (c # l) # ls)))"

text \<open>\<open>str(x).lower()\<close> on ASCII letters.\<close>

definition to_lower :: "string \<Rightarrow> string" where
  "to_lower s = map (\<lambda>c. let n = (of_char c :: nat) in
     if 65 \<le> n \<and> n \<le> 90 then char_of (n + 32) else c) s"

definition rstrip_char :: "char \<Rightarrow> string \<Rightarrow> string" where
  "rstrip_char c s = rev (dropWhile ((=) c) (rev s))"

text \<open>\<open>os.path.join(a, b)\<close> and \<open>os.path.split(p)\<close>.\<close>

definition path_join :: "string \<Rightarrow> string \<Rightarrow> string" where
  "path_join a b =
     (if starts_with ''/'' b then b
      else if a = [] \<or> last a = CHR ''/'' then a @ b
      else a @ ''/'' @ b)"

definition path_split :: "string \<Rightarrow> string \<times> string" where
  "path_split p =
     (let tail = rev (takeWhile (\<lambda>c. c \<noteq> CHR ''/'') (rev p));
          head = take (length p - length tail) p;
          stripped = rstrip_char (CHR ''/'') head
      in (if stripped = [] then head else stripped, tail))"

section \<open>Regular expressions\<close>

text \<open>
  The patterns of the program repeat single characters only.  A match is a list of the ways the
  pattern can match a prefix, in the order of Python's backtracking search (greedy repetition
  first, the optional part before its absence); the first of them is the match.
\<close>

datatype rx =
    RCls "char \<Rightarrow> bool"
  | RStar "char \<Rightarrow> bool"
  | RSeq rx rx
  | ROpt rx
  | RGrp rx

fun star_rests :: "(char \<Rightarrow> bool) \<Rightarrow> string \<Rightarrow> string list" where
  "star_rests p [] = [[]]"
| "star_rests p (c # cs) = (if p c then star_rests p cs @ [c # cs] else [c # cs])"

primrec rx_run :: "rx \<Rightarrow> string \<Rightarrow> string list \<Rightarrow> (string \<times> string list) list" where
  "rx_run (RCls p) s gs = (case s of [] \<Rightarrow> [] | c # cs \<Rightarrow> if p c then [(cs, gs)] else [])"
| "rx_run (RStar p) s gs = map (\<lambda>t. (t, gs)) (star_rests p s)"
| "rx_run (RSeq a b) s gs = concat (map (\<lambda>(t, hs). rx_run b t hs) (rx_run a s gs))"
| "rx_run (ROpt a) s gs = rx_run a s gs @ [(s, gs)]"
| "rx_run (RGrp a) s gs =
     map (\<lambda>(t, hs). (t, hs @ [take (length s - length t) s])) (rx_run a s gs)"

text \<open>\<open>re.compile(r).search(s)\<close>: the groups of the leftmost match, in order.\<close>

fun rx_search :: "rx \<Rightarrow> string \<Rightarrow> string list option" where
  "rx_search r [] = (case rx_run r [] [] of [] \<Rightarrow> None | (t, gs) # _ \<Rightarrow> Some gs)"
| "rx_search r (c # cs) =
     (case rx_run r (c # cs) [] of [] \<Rightarrow> rx_search r cs | (t, gs) # _ \<Rightarrow> Some gs)"

definition RPlus :: "(char \<Rightarrow> bool) \<Rightarrow> rx" where
  "RPlus p = RSeq (RCls p) (RStar p)"

definition RChr :: "char \<Rightarrow> rx" where
  "RChr c = RCls ((=) c)"

fun RLit :: "string \<Rightarrow> rx" where
  "RLit [] = RStar (\<lambda>_. False)"
| "RLit [c] = RChr c"
| "RLit (c # cs) = RSeq (RChr c) (RLit cs)"

section \<open>Facts about numbers as text\<close>

lemma digit_char_digit: "n < 10 \<Longrightarrow> is_digit (digit_char n) \<and> digit_val (digit_char n) = n"
  by (simp add: is_digit_def digit_char_def digit_val_def Let_def)

lemma digit_chars [simp]:
  "digit_char 0 = CHR ''0''" "digit_char (Suc 0) = CHR ''1''" "digit_char 1 = CHR ''1''"
  "digit_char 2 = CHR ''2''" "digit_char 3 = CHR ''3''" "digit_char 4 = CHR ''4''"
  "digit_char 5 = CHR ''5''" "digit_char 6 = CHR ''6''" "digit_char 7 = CHR ''7''"
  "digit_char 8 = CHR ''8''" "digit_char 9 = CHR ''9''"
  by (simp_all add: digit_char_def char_of_def bit_0)

text \<open>Evaluating the text of a concrete number.\<close>

lemma nat_str_small: "n < 10 \<Longrightarrow> nat_str n = [digit_char n]"
  by (simp add: nat_str.simps [of n])

lemma nat_str_large: "10 \<le> n \<Longrightarrow> nat_str n = nat_str (n div 10) @ [digit_char (n mod 10)]"
  by (simp add: nat_str.simps [of n])

lemmas nat_str_eval = nat_str_small nat_str_large

lemma is_digit_not_space: "is_digit c \<Longrightarrow> \<not> py_space c"
  by (auto simp: is_digit_def py_space_def Let_def)

lemma nat_str_digits: "list_all is_digit (nat_str n) \<and> nat_str n \<noteq> []"
proof (induction n rule: nat_str.induct)
  case (1 n)
  then show ?case
    by (cases "n < 10") (simp_all add: nat_str.simps [of n] digit_char_digit)
qed

lemma int_digits_append:
  "list_all is_digit xs \<Longrightarrow> xs \<noteq> [] \<Longrightarrow> is_digit c \<Longrightarrow>
   int_digits acc d (xs @ [c]) = map_option (\<lambda>n. 10 * n + digit_val c) (int_digits acc d xs)"
proof (induction xs arbitrary: acc d)
  case (Cons x xs)
  show ?case
  proof (cases xs)
    case Nil
    with Cons.prems show ?thesis by simp
  next
    case (Cons y ys)
    then show ?thesis
      using Cons.prems Cons.IH [of "10 * acc + digit_val x" True] by (simp del: int_digits.simps(1))
  qed
qed simp

lemma int_digits_nat_str: "int_digits 0 d (nat_str n) = Some n"
proof (induction n rule: nat_str.induct)
  case (1 n)
  show ?case
  proof (cases "n < 10")
    case True
    then show ?thesis by (simp add: nat_str.simps [of n] digit_char_digit)
  next
    case False
    then have "int_digits 0 d (nat_str n)
        = int_digits 0 d (nat_str (n div 10) @ [digit_char (n mod 10)])"
      by (simp add: nat_str.simps [of n])
    also have "\<dots> = map_option (\<lambda>m. 10 * m + n mod 10) (int_digits 0 d (nat_str (n div 10)))"
      using nat_str_digits [of "n div 10"] digit_char_digit [of "n mod 10"]
      by (simp add: int_digits_append)
    also have "\<dots> = Some n"
      using "1.IH" False by simp
    finally show ?thesis .
  qed
qed

lemma lstrip_id: "s = [] \<or> \<not> py_space (hd s) \<Longrightarrow> lstrip s = s"
  by (cases s) (auto simp: lstrip_def)

lemma strip_id: "s \<noteq> [] \<Longrightarrow> \<not> py_space (hd s) \<Longrightarrow> \<not> py_space (last s) \<Longrightarrow> strip s = s"
  by (simp add: strip_def lstrip_id hd_rev)

lemma list_all_hd_last: "list_all p xs \<Longrightarrow> xs \<noteq> [] \<Longrightarrow> p (hd xs) \<and> p (last xs)"
  by (cases xs) (auto simp: list_all_iff)

lemma strip_nat_str [simp]: "strip (nat_str n) = nat_str n"
  using nat_str_digits [of n] list_all_hd_last is_digit_not_space strip_id by metis

lemma nat_str_hd: "is_digit (hd (nat_str n))"
  using nat_str_digits [of n] list_all_hd_last by metis

lemma nat_str_not_Nil [simp]: "nat_str n \<noteq> []"
  using nat_str_digits [of n] by simp

lemma py_int_nat_str: "py_int (nat_str n) = Inr (int n)"
proof -
  obtain c cs where ccs: "nat_str n = c # cs" and c: "is_digit c"
    using nat_str_hd [of n] by (cases "nat_str n") simp_all
  have "c \<noteq> CHR ''-''" and "c \<noteq> CHR ''+''"
    using c by (auto simp: is_digit_def)
  moreover have "strip (c # cs) = c # cs"
    using strip_nat_str [of n] ccs by simp
  moreover have "int_digits 0 False (c # cs) = Some n"
    using int_digits_nat_str [of False n] ccs by simp
  ultimately show ?thesis
    unfolding ccs by (simp add: py_int_def del: int_digits.simps)
qed

lemma py_int_int_str: "py_int (int_str i) = Inr i"
proof (cases "i < 0")
  case True
  have "\<not> py_space (CHR ''-'')"
    by (simp add: py_space_def)
  moreover have "\<not> py_space (last (nat_str (nat (- i))))"
    using nat_str_digits list_all_hd_last is_digit_not_space by metis
  ultimately have "strip (CHR ''-'' # nat_str (nat (- i))) = CHR ''-'' # nat_str (nat (- i))"
    by (intro strip_id) simp_all
  with True show ?thesis
    by (simp add: int_str_def py_int_def int_digits_nat_str)
next
  case False
  then show ?thesis by (simp add: int_str_def py_int_nat_str)
qed

lemma int_str_inj [simp]: "int_str i = int_str j \<longleftrightarrow> i = j"
  using py_int_int_str by (metis sum.inject(2))

lemma nat_str_inj [simp]: "nat_str m = nat_str n \<longleftrightarrow> m = n"
  using py_int_nat_str by (metis of_nat_eq_iff sum.inject(2))

lemma int_str_not_Nil [simp]: "int_str i \<noteq> []" "[] \<noteq> int_str i"
  by (simp_all add: int_str_def) (metis nat_str_not_Nil)

text \<open>A decimal number contains none of the separators of the flow language.\<close>

lemma int_str_chars: "c \<in> set (int_str i) \<Longrightarrow> is_digit c \<or> c = CHR ''-''"
  using nat_str_digits by (auto simp: int_str_def list_all_iff split: if_splits)

section \<open>Facts about lines\<close>

lemma readlines_concat: "concat (readlines s) = s"
  by (induction s) (auto split: list.splits)

lemma readlines_shape:
  "l \<in> set (readlines s) \<Longrightarrow> l \<noteq> [] \<and> nl \<notin> set (butlast l)"
proof (induction s arbitrary: l)
  case (Cons c cs)
  show ?case
  proof (cases "c = nl")
    case True
    with Cons show ?thesis by auto
  next
    case False
    show ?thesis
    proof (cases "readlines cs")
      case Nil
      with False Cons.prems show ?thesis by simp
    next
      case (Cons m ms)
      then have "m \<noteq> [] \<and> nl \<notin> set (butlast m)"
        using Cons.IH [of m] by simp
      with Cons False Cons.prems Cons.IH [of l] show ?thesis by auto
    qed
  qed
qed simp

lemma split_on_not_Nil [simp]: "split_on d s \<noteq> []"
  by (cases s) (auto split: list.splits)

lemma split_on_free: "l \<in> set (split_on d s) \<Longrightarrow> d \<notin> set l"
proof (induction s arbitrary: l)
  case (Cons c cs)
  then show ?case
    by (cases "split_on d cs") (auto split: if_splits)
qed simp

lemma split_on_single: "d \<notin> set x \<Longrightarrow> split_on d x = [x]"
  by (induction x) auto

lemma split_on_append: "d \<notin> set x \<Longrightarrow> split_on d (x @ d # ys) = x # split_on d ys"
  by (induction x) auto

lemma find_char_Some:
  "find_char c s = Some i \<Longrightarrow> i < length s \<and> s ! i = c \<and> c \<notin> set (take i s)"
  by (induction s arbitrary: i) (auto split: if_splits)

lemma find_char_None: "find_char c s = None \<longleftrightarrow> c \<notin> set s"
  by (induction s) auto

lemma find_from_Some:
  assumes "find_from c s i = Some j"
  shows "i \<le> j \<and> j < length s \<and> s ! j = c"
proof -
  obtain k where k: "find_char c (drop i s) = Some k" "j = i + k"
    using assms by (auto simp: find_from_def)
  then show ?thesis
    using find_char_Some [OF k(1)] by auto
qed

lemma starts_with_append [simp]: "starts_with p (p @ s)"
  by (induction p) simp_all

lemma starts_with_iff: "starts_with p s \<longleftrightarrow> (\<exists>t. s = p @ t)"
  by (induction p s rule: starts_with.induct) auto

lemma str_in_iff: "str_in p s \<longleftrightarrow> (\<exists>a b. s = a @ p @ b)"
proof (induction s)
  case Nil
  then show ?case by (simp add: starts_with_iff)
next
  case (Cons c cs)
  have "(\<exists>a b. c # cs = a @ p @ b)
      \<longleftrightarrow> (\<exists>b. c # cs = p @ b) \<or> (\<exists>a b. cs = a @ p @ b)" (is "?l \<longleftrightarrow> ?r")
  proof
    assume ?l
    then obtain a b where "c # cs = a @ p @ b" by blast
    then show ?r by (cases a) auto
  next
    assume ?r
    then show ?l by (metis append_Cons append_Nil)
  qed
  with Cons show ?case by (simp add: starts_with_iff)
qed

section \<open>Facts about matching\<close>

lemma star_rests_suffix: "t \<in> set (star_rests p s) \<Longrightarrow> \<exists>u. s = u @ t \<and> list_all p u"
proof (induction s arbitrary: t)
  case (Cons c cs)
  show ?case
  proof (cases "p c \<and> t \<in> set (star_rests p cs)")
    case True
    then obtain u where "cs = u @ t" "list_all p u" using Cons.IH by blast
    with True show ?thesis by (intro exI [of _ "c # u"]) simp
  next
    case False
    with Cons.prems have "t = c # cs" by (auto split: if_splits)
    then show ?thesis by simp
  qed
qed simp

lemma star_rests_greedy:
  "list_all p u \<Longrightarrow> t = [] \<or> \<not> p (hd t) \<Longrightarrow> \<exists>ts. star_rests p (u @ t) = t # ts"
proof (induction u)
  case Nil
  then show ?case by (cases t) auto
next
  case (Cons c u)
  then show ?case by auto
qed

lemma rx_run_suffix: "(t, hs) \<in> set (rx_run r s gs) \<Longrightarrow> \<exists>u. s = u @ t"
proof (induction r arbitrary: s gs t hs)
  case (RCls p)
  then show ?case by (cases s) (auto split: if_splits)
next
  case (RStar p)
  then show ?case using star_rests_suffix by fastforce
next
  case (RSeq a b)
  then obtain t' hs' where "(t', hs') \<in> set (rx_run a s gs)" "(t, hs) \<in> set (rx_run b t' hs')"
    by auto
  then obtain u v where "s = u @ t'" "t' = v @ t"
    using RSeq.IH by blast
  then show ?case by simp
next
  case (ROpt a)
  then show ?case by auto
next
  case (RGrp a)
  then show ?case by auto
qed

lemma fmt_Nil [simp]: "fmt [] = []"
  by (simp add: fmt_def)

lemma fmt_Cons: "fmt (p # ps) = p @ fmt ps"
  by (simp add: fmt_def)

lemma fmt_append: "fmt (ps @ qs) = fmt ps @ fmt qs"
  by (simp add: fmt_def)

end
