(* ===== verification/Net_Addr.thy ===== *)
theory Net_Addr imports Py_Text begin

text \<open>
  What the program uses of Python's \<open>ipaddress\<close> module (addresses, their text, arithmetic that
  raises outside the address range, networks and their indexing), and the \<open>InterfaceAddress\<close>
  class of \<open>vif.py\<close>.  An address is the integer it stands for, tagged with its version.
\<close>

section \<open>Addresses\<close>

datatype ipaddr = IPv4Address int | IPv6Address int

fun ip_int :: "ipaddr \<Rightarrow> int" where
  "ip_int (IPv4Address n) = n"
| "ip_int (IPv6Address n) = n"

fun ip_width :: "ipaddr \<Rightarrow> nat" where
  "ip_width (IPv4Address n) = 32"
| "ip_width (IPv6Address n) = 128"

fun ip_like :: "ipaddr \<Rightarrow> int \<Rightarrow> ipaddr" where
  "ip_like (IPv4Address _) n = IPv4Address n"
| "ip_like (IPv6Address _) n = IPv6Address n"

definition ip_ok :: "ipaddr \<Rightarrow> bool" where
  "ip_ok a \<longleftrightarrow> 0 \<le> ip_int a \<and> ip_int a < 2 ^ ip_width a"

text \<open>\<open>addr + n\<close>: out of range raises \<open>AddressValueError\<close>, a \<open>ValueError\<close>.\<close>

definition ip_add :: "ipaddr \<Rightarrow> int \<Rightarrow> ipaddr res" where
  "ip_add a n =
     (let m = ip_int a + n
      in if 0 \<le> m \<and> m < 2 ^ ip_width a then Inr (ip_like a m) else Inl ValueError)"

instantiation ipaddr :: linorder
begin

definition less_eq_ipaddr :: "ipaddr \<Rightarrow> ipaddr \<Rightarrow> bool" where
  "less_eq_ipaddr a b \<longleftrightarrow>
     ip_width a < ip_width b \<or> ip_width a = ip_width b \<and> ip_int a \<le> ip_int b"

definition less_ipaddr :: "ipaddr \<Rightarrow> ipaddr \<Rightarrow> bool" where
  "less_ipaddr a b \<longleftrightarrow>
     ip_width a < ip_width b \<or> ip_width a = ip_width b \<and> ip_int a < ip_int b"

instance
proof
  fix a b :: ipaddr
  show "a \<le> b \<Longrightarrow> b \<le> a \<Longrightarrow> a = b"
    by (cases a; cases b) (auto simp: less_eq_ipaddr_def)
qed (auto simp: less_eq_ipaddr_def less_ipaddr_def)

end

section \<open>Addresses as text\<close>

definition octets :: "int \<Rightarrow> int list" where
  "octets n = [n div 2 ^ 24 mod 256, n div 2 ^ 16 mod 256, n div 2 ^ 8 mod 256, n mod 256]"

fun join_with :: "string \<Rightarrow> string list \<Rightarrow> string" where
  "join_with sep [] = []"
| "join_with sep [x] = x"
| "join_with sep (x # xs) = x @ sep @ join_with sep xs"

definition hextets :: "int \<Rightarrow> string list" where
  "hextets n = map (\<lambda>i. hex_str (nat (n div 2 ^ (16 * i) mod 65536))) [7, 6, 5, 4, 3, 2, 1, 0]"

text \<open>
  \<open>_compress_hextets\<close> of the library: the first longest run of zero groups, when it has two or
  more groups, is replaced by an empty group.  The scan carries the start and the length of the
  best run and of the current one.
\<close>

fun zero_run :: "nat \<Rightarrow> nat \<times> nat \<Rightarrow> nat \<times> nat \<Rightarrow> string list \<Rightarrow> nat \<times> nat" where
  "zero_run i best cur [] = best"
| "zero_run i (bs, bl) (cs, cl) (h # hs) =
     (if h = ''0'' then
        (let cs' = (if cl = 0 then i else cs); cl' = cl + 1
         in zero_run (i + 1) (if cl' > bl then (cs', cl') else (bs, bl)) (cs', cl') hs)
      else zero_run (i + 1) (bs, bl) (0, 0) hs)"

definition compress_hextets :: "string list \<Rightarrow> string list" where
  "compress_hextets hs =
     (case zero_run 0 (0, 0) (0, 0) hs of (start, len) \<Rightarrow>
        if len > 1 then
          (if start = 0 then [[]] else []) @ take start hs @ [[]]
          @ drop (start + len) hs @ (if start + len = length hs then [[]] else [])
        else hs)"

fun ip_str :: "ipaddr \<Rightarrow> string" where
  "ip_str (IPv4Address n) = join_with ''.'' (map int_str (octets n))"
| "ip_str (IPv6Address n) = join_with '':'' (compress_hextets (hextets n))"

text \<open>The address with the given four octets, as the constructor reads it from its text.\<close>

definition ipv4_of_octets :: "int \<Rightarrow> int \<Rightarrow> int \<Rightarrow> int \<Rightarrow> ipaddr res" where
  "ipv4_of_octets a b c d =
     (if \<forall>x \<in> set [a, b, c, d]. 0 \<le> x \<and> x \<le> 255
      then Inr (IPv4Address (((a * 256 + b) * 256 + c) * 256 + d))
      else Inl ValueError)"

fun of_groups :: "int \<Rightarrow> int list \<Rightarrow> int" where
  "of_groups acc [] = acc"
| "of_groups acc (g # gs) = of_groups (acc * 65536 + g) gs"

definition ipv6_of_groups :: "int list \<Rightarrow> ipaddr" where
  "ipv6_of_groups gs = IPv6Address (of_groups 0 gs)"

section \<open>Networks\<close>

record ipnet =
  network_address :: ipaddr
  prefixlen :: nat

definition net_size :: "ipnet \<Rightarrow> int" where
  "net_size n = 2 ^ (ip_width (network_address n) - prefixlen n)"

definition broadcast_int :: "ipnet \<Rightarrow> int" where
  "broadcast_int n = ip_int (network_address n) + net_size n - 1"

definition net_str :: "ipnet \<Rightarrow> string" where
  "net_str n = ip_str (network_address n) @ ''/'' @ nat_str (prefixlen n)"

text \<open>\<open>IPv4Network(f"{addr}/{plen}", strict=False)\<close>: the host bits are cleared.\<close>

definition net_of :: "ipaddr \<Rightarrow> nat \<Rightarrow> ipnet" where
  "net_of a p =
     (let k = 2 ^ (ip_width a - p) in \<lparr>network_address = ip_like a (ip_int a div k * k), prefixlen = p\<rparr>)"

text \<open>\<open>net[i]\<close>\<close>

definition net_nth :: "ipnet \<Rightarrow> int \<Rightarrow> ipaddr res" where
  "net_nth n i =
     (let lo = ip_int (network_address n); hi = broadcast_int n in
      if 0 \<le> i then
        (if lo + i > hi then Inl IndexError else Inr (ip_like (network_address n) (lo + i)))
      else
        (if hi + (i + 1) < lo then Inl IndexError
         else Inr (ip_like (network_address n) (hi + (i + 1)))))"

text \<open>
  \<open>list(net.hosts())[i]\<close> for a network of more than two addresses: the network address is left
  out, and for IPv4 the broadcast address too.  A negative index counts from the end.
\<close>

definition n_hosts :: "ipnet \<Rightarrow> int" where
  "n_hosts n = (case network_address n of IPv4Address _ \<Rightarrow> net_size n - 2 | IPv6Address _ \<Rightarrow> net_size n - 1)"

definition hosts_nth :: "ipnet \<Rightarrow> int \<Rightarrow> ipaddr res" where
  "hosts_nth n i =
     (let j = (if i < 0 then n_hosts n + i else i)
      in if 0 \<le> j \<and> j < n_hosts n
         then Inr (ip_like (network_address n) (ip_int (network_address n) + 1 + j))
         else Inl IndexError)"

text \<open>\<open>a.compare_networks(b)\<close>\<close>

definition compare_networks :: "ipnet \<Rightarrow> ipnet \<Rightarrow> int res" where
  "compare_networks a b =
     (if ip_width (network_address a) \<noteq> ip_width (network_address b) then Inl TypeError
      else if ip_int (network_address a) < ip_int (network_address b) then Inr (-1)
      else if ip_int (network_address a) > ip_int (network_address b) then Inr 1
      else if prefixlen a < prefixlen b then Inr (-1)
      else if prefixlen a > prefixlen b then Inr 1
      else Inr 0)"

section \<open>InterfaceAddress\<close>

record if_address =
  ia_ipv4 :: ipaddr
  ia_ipv4_network :: ipnet
  ia_ipv6 :: ipaddr
  ia_ipv6_network :: ipnet

definition ipv4_str_with_prefix :: "if_address \<Rightarrow> string" where
  "ipv4_str_with_prefix a = ip_str (ia_ipv4 a) @ ''/'' @ nat_str (prefixlen (ia_ipv4_network a))"

definition ipv6_str_with_prefix :: "if_address \<Rightarrow> string" where
  "ipv6_str_with_prefix a = ip_str (ia_ipv6 a) @ ''/'' @ nat_str (prefixlen (ia_ipv6_network a))"

section \<open>Lemmas\<close>

lemma ip_like_int [simp]: "ip_int (ip_like a n) = n"
  by (cases a) simp_all

lemma ip_like_width [simp]: "ip_width (ip_like a n) = ip_width a"
  by (cases a) simp_all

lemma ip_eq_iff: "a = b \<longleftrightarrow> ip_width a = ip_width b \<and> ip_int a = ip_int b"
  by (cases a; cases b) simp_all

lemma ip_like_inj [simp]: "ip_like a m = ip_like a n \<longleftrightarrow> m = n"
  by (cases a) simp_all

lemma ip_add_ok: "ip_add a n = Inr b \<Longrightarrow> ip_ok b \<and> ip_int b = ip_int a + n \<and> ip_width b = ip_width a"
  by (auto simp: ip_add_def Let_def ip_ok_def split: if_splits)

lemma net_nth_in:
  "net_nth n i = Inr a \<Longrightarrow>
   ip_int (network_address n) \<le> ip_int a \<and> ip_int a \<le> broadcast_int n
   \<and> ip_width a = ip_width (network_address n)"
  by (auto simp: net_nth_def Let_def broadcast_int_def split: if_splits)

lemma net_nth_inj:
  "net_nth n i = Inr a \<Longrightarrow> net_nth n j = Inr a \<Longrightarrow> 0 \<le> i \<Longrightarrow> 0 \<le> j \<Longrightarrow> i = j"
  by (auto simp: net_nth_def Let_def ip_eq_iff split: if_splits)

lemma compare_networks_0:
  "compare_networks a b = Inr 0 \<longleftrightarrow> network_address a = network_address b \<and> prefixlen a = prefixlen b"
  by (auto simp: compare_networks_def ip_eq_iff)

lemma octets_bounds: "x \<in> set (octets n) \<Longrightarrow> 0 \<le> x \<and> x \<le> 255"
  by (auto simp: octets_def)

definition octets_join :: "int list \<Rightarrow> int" where
  "octets_join xs = foldl (\<lambda>acc x. acc * 256 + x) 0 xs"

lemma octets_value:
  assumes "0 \<le> n" "n < 2 ^ 32"
  shows "octets_join (octets n) = n"
proof -
  define q1 where "q1 = n div 256"
  define q2 where "q2 = q1 div 256"
  define q3 where "q3 = q2 div 256"
  have q: "n div 2 ^ 8 = q1" "n div 2 ^ 16 = q2" "n div 2 ^ 24 = q3"
    by (simp_all add: q1_def q2_def q3_def zdiv_zmult2_eq [symmetric])
  have "n div 2 ^ 24 < 256" "0 \<le> n div 2 ^ 24"
    using assms by (simp_all add: pos_imp_zdiv_nonneg_iff)
  then have "q3 mod 256 = q3"
    unfolding q by simp
  moreover have "n = 256 * q1 + n mod 256" "q1 = 256 * q2 + q1 mod 256" "q2 = 256 * q3 + q2 mod 256"
    by (simp_all add: q1_def q2_def q3_def)
  moreover have "octets_join (octets n)
      = ((q3 mod 256 * 256 + q2 mod 256) * 256 + q1 mod 256) * 256 + n mod 256"
    by (simp only: octets_def q octets_join_def foldl_Cons foldl_Nil mult_zero_left add_0_left)
  moreover have "((q3 * 256 + r2) * 256 + r1) * 256 + r0 = n"
    if "n = 256 * q1 + r0" "q1 = 256 * q2 + r1" "q2 = 256 * q3 + r2" for r0 r1 r2
    using that by simp
  ultimately show ?thesis by metis
qed

text \<open>The dotted text determines the IPv4 address.\<close>

lemma no_dot_int_str: "CHR ''.'' \<notin> set (int_str i)"
  using int_str_chars by (fastforce simp: is_digit_def)

lemma split_dotted:
  "split_on (CHR ''.'') (join_with ''.'' (map int_str (x # xs))) = map int_str (x # xs)"
  by (induction xs arbitrary: x) (simp_all add: split_on_single split_on_append no_dot_int_str)

lemma ipv4_str_inj:
  assumes "ip_ok (IPv4Address m)" "ip_ok (IPv4Address n)"
    and eq: "ip_str (IPv4Address m) = ip_str (IPv4Address n)"
  shows "m = n"
proof -
  have "split_on (CHR ''.'') (ip_str (IPv4Address m)) = split_on (CHR ''.'') (ip_str (IPv4Address n))"
    using eq by simp
  then have "map int_str (octets m) = map int_str (octets n)"
    unfolding octets_def ip_str.simps split_dotted .
  then have "octets m = octets n"
    by (simp add: octets_def)
  then show ?thesis
    using octets_value [of m] octets_value [of n] assms unfolding ip_ok_def ip_int.simps ip_width.simps
    by metis
qed

end
