(* ===== verification/Ovs_Objects.thy ===== *)
theory Ovs_Objects imports Net_Addr begin

text \<open>
  The objects of the program: the constants of \<open>constants.py\<close>, the fields of its classes as records
  (\<open>vif.py\<close>, the data classes of \<open>vswitch.py\<close>, \<open>topology.py\<close> and \<open>vm.py\<close>), and the shared world
  that the methods work on.  A virtual interface is referenced from its VM, from the bridges it is
  attached to and from test endpoints, and is mutated through all of them, so interfaces live in a
  store and everything else holds references (store indices) to them.  An uplink is referenced from
  its switch and from a bridge: the bridge holds the position in the switch's list.
\<close>

section \<open>Constants\<close>

definition VNI_NONE :: int where "VNI_NONE = 0"
definition OFP_LOCAL :: int where "OFP_LOCAL = 0"
definition OFP_UPLINK_BASE :: int where "OFP_UPLINK_BASE = 1"
definition OFP_VHOST_BASE :: int where "OFP_VHOST_BASE = 10"
definition OFP_TUNNEL_BASE :: int where "OFP_TUNNEL_BASE = 100"

definition OF_TABLE_ADMISS :: int where "OF_TABLE_ADMISS = 0"
definition OF_TABLE_INPUT :: int where "OF_TABLE_INPUT = 20"
definition OF_TABLE_ACL :: int where "OF_TABLE_ACL = 30"
definition OF_TABLE_CORE :: int where "OF_TABLE_CORE = 40"
definition OF_TABLE_FIB :: int where "OF_TABLE_FIB = 50"
definition OF_TABLE_NAT :: int where "OF_TABLE_NAT = 60"
definition OF_TABLE_L2_MATCH :: int where "OF_TABLE_L2_MATCH = 70"
definition OF_TABLE_OUTPUT :: int where "OF_TABLE_OUTPUT = 80"

lemmas const_defs =
  VNI_NONE_def OFP_LOCAL_def OFP_UPLINK_BASE_def OFP_VHOST_BASE_def OFP_TUNNEL_BASE_def
  OF_TABLE_ADMISS_def OF_TABLE_INPUT_def OF_TABLE_ACL_def OF_TABLE_CORE_def OF_TABLE_FIB_def
  OF_TABLE_NAT_def OF_TABLE_L2_MATCH_def OF_TABLE_OUTPUT_def

section \<open>Machines and commands\<close>

text \<open>The \<open>ssh_info\<close> dictionary of a node, and what \<open>exec_cmd\<close> can be given as its command.\<close>

record node =
  nd_host :: string
  nd_port :: int
  nd_username :: string
  nd_password :: "string option"
  nd_priv_key :: "string option"

datatype cmd_arg = CmdNone | CmdStr string | CmdList "string list"

section \<open>Virtual interfaces\<close>

text \<open>
  \<open>VirtualInterface\<close>, \<open>VhostUserInterface\<close> and \<open>TapInterface\<close> in one record; \<open>vif_tap\<close> says that
  the object is a \<open>TapInterface\<close>, which has none of the fields from \<open>vif_sock\<close> on.
\<close>

record vif =
  vif_name :: string
  vif_idx :: "int option"
  vif_mac :: "string option"
  vif_ofp :: pyval
  vif_addr :: "if_address option"
  vif_restore_addr :: "if_address option"
  vif_vni :: pyval
  vif_offload :: bool
  vif_tap :: bool
  vif_sock :: "string option"
  vif_qemu_option :: string
  vif_qpair :: int
  vif_client_mode :: bool
  vif_ifup :: "string option"
  vif_ifdown :: "string option"

definition VhostUserInterface :: "string \<Rightarrow> int \<Rightarrow> string \<Rightarrow> pyval \<Rightarrow> vif" where
  "VhostUserInterface name idx mac ofp =
     \<lparr>vif_name = name, vif_idx = Some idx, vif_mac = Some mac, vif_ofp = ofp,
      vif_addr = None, vif_restore_addr = None, vif_vni = PInt VNI_NONE, vif_offload = True,
      vif_tap = False, vif_sock = None, vif_qemu_option = [], vif_qpair = 1,
      vif_client_mode = True, vif_ifup = None, vif_ifdown = None\<rparr>"

definition TapInterface :: "string \<Rightarrow> pyval \<Rightarrow> vif" where
  "TapInterface name ofp =
     \<lparr>vif_name = name, vif_idx = None, vif_mac = None, vif_ofp = ofp,
      vif_addr = None, vif_restore_addr = None, vif_vni = PInt VNI_NONE, vif_offload = True,
      vif_tap = True, vif_sock = None, vif_qemu_option = [], vif_qpair = 1,
      vif_client_mode = True, vif_ifup = None, vif_ifdown = None\<rparr>"

text \<open>An attribute that is still \<open>None\<close> has no attributes of its own.\<close>

definition attr_of :: "'a option \<Rightarrow> 'a res" where
  "attr_of x = (case x of None \<Rightarrow> Inl AttributeError | Some a \<Rightarrow> Inr a)"

definition has_same_subnet :: "vif \<Rightarrow> vif \<Rightarrow> bool res" where
  "has_same_subnet self v =
     bindR (attr_of (vif_addr self)) (\<lambda>a.
     bindR (attr_of (vif_addr v)) (\<lambda>b.
     bindR (compare_networks (ia_ipv4_network a) (ia_ipv4_network b)) (\<lambda>c.
     Inr (\<not> c \<noteq> 0))))"

section \<open>Switch objects\<close>

record uplink =
  up_pci_addr :: pyval
  up_name :: pyval
  up_ofp :: pyval
  up_n_queue_pair :: pyval
  up_n_rxq_desc :: pyval
  up_n_txq_desc :: pyval

definition Uplink :: "pyval \<Rightarrow> uplink" where
  "Uplink pci = \<lparr>up_pci_addr = pci, up_name = PNone, up_ofp = PNone,
     up_n_queue_pair = PNone, up_n_rxq_desc = PNone, up_n_txq_desc = PNone\<rparr>"

record tunnel_port =
  tp_name :: string
  tp_rip :: pyval
  tp_vni :: pyval
  tp_ofp :: int

record id_allocator =
  ida_name :: string
  ida_ids :: "int list"

text \<open>A bridge's uplink: a position in the switch's list, or the pseudo uplink made for a bond.\<close>

datatype uplink_ref = Phys nat | Bond uplink

record bridge =
  br_name :: string
  br_vifs :: "nat list"
  br_vnis :: "(pyval \<times> nat list) list"
  br_uplinks :: "uplink_ref list"
  br_tnl_ports :: "tunnel_port list"
  br_with_md :: bool
  br_ids_uplink :: id_allocator
  br_ids_vif :: id_allocator
  br_ids_tunnel :: id_allocator

record dpdk_params =
  dp_driver :: string
  dp_socket_mem :: string
  dp_huge_mnt :: string
  dp_cpu_mask :: string
  dp_userspace_tso :: pyval

datatype vs_kind = OvsDpdk dpdk_params | OvsNative

record vswitch =
  vs_kind :: vs_kind
  vs_bridges :: "bridge list"
  vs_ssh_info :: node
  vs_tep_addr :: if_address
  vs_uplinks :: "uplink list"
  vs_ovs_bin_dir :: string
  vs_devbind_cmd :: string

section \<open>Virtual machines, NUMA nodes and systems under test\<close>

text \<open>
  The memory of a machine in MB: a quotient by 1024, which is a \<open>float\<close>, or an integer that was set.
\<close>

datatype mem_size = MemKb int | MemMb int

record vm =
  vm_name :: string
  vm_vifs :: "nat list"
  vm_ssh_info :: node
  vm_host_ssh_info :: node
  vm_qmp_sock :: string
  vm_qga_sock :: string
  vm_host_cpus :: "int list"
  vm_smp :: string
  vm_options :: string
  vm_ssh_fwd_port :: int
  vm_serial_port :: int
  vm_vnc_port :: int
  vm_mem_size :: mem_size
  vm_huge_mnt :: string
  vm_disk_image :: string
  vm_numa_id :: int
  vm_is_ovs_native :: bool
  vm_qemu_bin :: string
  vm_img_base :: string

record numa =
  nu_id :: int
  nu_avail_cpus :: "int list"
  nu_avail_mem :: int
  nu_vms :: "vm list"

record sut =
  su_name :: string
  su_ssh_info :: node
  su_numas :: "numa list"
  su_pnic_numa_id :: "int option"
  su_vswitch :: vswitch
  su_vms :: "vm list"
  su_cpuinfo :: "int list list"

definition get_vms :: "sut \<Rightarrow> vm list" where
  "get_vms s = concat (map nu_vms (su_numas s))"

section \<open>The world\<close>

text \<open>
  What all methods share: the class-level cache of SSH connections, the events on the network so
  far (which the environment's answers may depend on), the messages of \<open>logger.error\<close> and
  \<open>logger.warn\<close>, the clock in tenths of a second, and the store of virtual interfaces.
\<close>

datatype ssh_event =
    EvOpen nat node
  | EvOpenFail node
  | EvClose nat
  | EvSend nat node cmd_arg
  | EvScp nat string string bool

datatype log_level = LError | LWarn

record world =
  w_conns :: "int \<Rightarrow> nat option"
  w_next_client :: nat
  w_events :: "ssh_event list"
  w_log :: "(log_level \<times> string) list"
  w_clock :: nat
  w_vifs :: "nat \<Rightarrow> vif"
  w_next_vif :: nat

definition logE :: "log_level \<Rightarrow> string \<Rightarrow> (world, unit) em" where
  "logE l msg = modifyE (\<lambda>w. w\<lparr>w_log := w_log w @ [(l, msg)]\<rparr>)"

text \<open>\<open>sleep(n)\<close>, \<open>n\<close> in tenths of a second.\<close>

definition sleepE :: "nat \<Rightarrow> (world, unit) em" where
  "sleepE n = modifyE (\<lambda>w. w\<lparr>w_clock := w_clock w + n\<rparr>)"

definition new_vif :: "vif \<Rightarrow> (world, nat) em" where
  "new_vif v = (\<lambda>w. (Inr (w_next_vif w),
     w\<lparr>w_vifs := (w_vifs w)(w_next_vif w := v), w_next_vif := Suc (w_next_vif w)\<rparr>))"

definition upd_vif :: "nat \<Rightarrow> (vif \<Rightarrow> vif) \<Rightarrow> (world, unit) em" where
  "upd_vif r f = modifyE (\<lambda>w. w\<lparr>w_vifs := (w_vifs w)(r := f (w_vifs w r))\<rparr>)"

text \<open>The commands that have been sent, with the machine each was meant for.\<close>

fun sent_of :: "ssh_event \<Rightarrow> (node \<times> cmd_arg) list" where
  "sent_of (EvSend c n cmd) = [(n, cmd)]"
| "sent_of _ = []"

definition w_sent :: "world \<Rightarrow> (node \<times> cmd_arg) list" where
  "w_sent w = concat (map sent_of (w_events w))"

lemma has_same_subnet_iff:
  "has_same_subnet u v = Inr b \<longleftrightarrow>
     (\<exists>a c. vif_addr u = Some a \<and> vif_addr v = Some c
        \<and> ip_width (network_address (ia_ipv4_network a)) = ip_width (network_address (ia_ipv4_network c))
        \<and> b = (network_address (ia_ipv4_network a) = network_address (ia_ipv4_network c)
               \<and> prefixlen (ia_ipv4_network a) = prefixlen (ia_ipv4_network c)))"
proof -
  have 0: "compare_networks x y = Inr c \<Longrightarrow>
      (c = 0) = (network_address x = network_address y \<and> prefixlen x = prefixlen y)" for x y c
    using compare_networks_0 [of x y] by auto
  have 1: "(\<exists>c. compare_networks x y = Inr c) \<longleftrightarrow>
      ip_width (network_address x) = ip_width (network_address y)" for x y
    by (simp add: compare_networks_def)
  show ?thesis
    by (auto simp: has_same_subnet_def bindR_Inr_iff attr_of_def 0 split: option.splits)
      (metis 0 1)+
qed

lemma frame_logE [frame]: "(\<And>w l. f (w\<lparr>w_log := l\<rparr>) = f w) \<Longrightarrow> frameE f (logE lvl msg)"
  by (simp add: logE_def frame_modify)

lemma frame_sleepE [frame]: "(\<And>w c. f (w\<lparr>w_clock := c\<rparr>) = f w) \<Longrightarrow> frameE f (sleepE n)"
  by (simp add: sleepE_def frame_modify)

lemma frame_upd_vif [frame]: "(\<And>w v. f (w\<lparr>w_vifs := v\<rparr>) = f w) \<Longrightarrow> frameE f (upd_vif r g)"
  by (simp add: upd_vif_def frame_modify)

lemma w_sent_simps [simp]:
  "w_sent (w\<lparr>w_log := l\<rparr>) = w_sent w"
  "w_sent (w\<lparr>w_clock := c\<rparr>) = w_sent w"
  "w_sent (w\<lparr>w_conns := k\<rparr>) = w_sent w"
  "w_sent (w\<lparr>w_next_client := n\<rparr>) = w_sent w"
  "w_sent (w\<lparr>w_vifs := v\<rparr>) = w_sent w"
  "w_sent (w\<lparr>w_next_vif := m\<rparr>) = w_sent w"
  "w_sent (w\<lparr>w_events := es @ [e]\<rparr>) = concat (map sent_of es) @ sent_of e"
  by (simp_all add: w_sent_def)

end
