(* ===== verification/Ssh.thy ===== *)
theory Ssh imports Ovs_Objects begin

text \<open>
  \<open>ssh.py\<close>: the cache of SSH connections that all objects share, connecting with reconnection of a
  stale connection, running one command on a new channel with a timeout, and \<open>exec_cmd\<close>, through
  which every other module reaches a machine.  \<open>paramiko\<close>, \<open>scp\<close> and the remote machines are a
  parameter, the record \<open>ssh_env\<close>: each answer is a function of what has happened on the network so
  far.  A channel is described by the exception with which it refuses the command, if it does, by what each
  poll of it sees until it is ready, its exit status and what reading it to the end returns; reading to the end does end (the list is finite), as paramiko
  documents for a closed channel.
\<close>

section \<open>The environment\<close>

datatype open_result = Opened | OpenSSHException | OpenNoValidConnections | OpenOther err

datatype session_result = SessOk | SessAttributeError | SessSSHException | SessOther err

record poll =
  po_ready :: bool
  po_out :: "string option"
  po_err :: "string option"
  po_delay :: nat

datatype drain_item = Chunk string | SockTimeout

record chan =
  ch_refused :: "err option"
  ch_polls :: "nat \<Rightarrow> poll"
  ch_exit :: int
  ch_drain :: "drain_item list"
  ch_err_drain :: "string list"

datatype scp_result = ScpOk | ScpException | ScpOther err

record ssh_env =
  e_hash :: "pyval set \<Rightarrow> int"
  e_open :: "ssh_event list \<Rightarrow> node \<Rightarrow> open_result"
  e_active :: "ssh_event list \<Rightarrow> nat \<Rightarrow> bool"
  e_session :: "ssh_event list \<Rightarrow> nat \<Rightarrow> session_result"
  e_chan :: "ssh_event list \<Rightarrow> nat \<Rightarrow> cmd_arg \<Rightarrow> chan"
  e_scp :: "ssh_event list \<Rightarrow> nat \<Rightarrow> string \<Rightarrow> string \<Rightarrow> bool \<Rightarrow> scp_result"

section \<open>Connections\<close>

text \<open>The fields of an \<open>SSH\<close> object; its methods work on the object and the world.\<close>

record ssh_obj =
  so_client :: "nat option"
  so_node :: "node option"

type_synonym 'a sshm = "(ssh_obj \<times> world, 'a) em"

definition node_hash :: "ssh_env \<Rightarrow> node \<Rightarrow> int" where
  "node_hash env n = e_hash env {PStr (nd_host n), PInt (nd_port n)}"

definition add_event :: "ssh_event \<Rightarrow> world \<Rightarrow> world" where
  "add_event e w = w\<lparr>w_events := w_events w @ [e]\<rparr>"

text \<open>The branch of \<open>connect\<close> that opens a new connection and caches it.\<close>

definition ssh_open_new :: "ssh_env \<Rightarrow> node \<Rightarrow> unit sshm" where
  "ssh_open_new env n = (\<lambda>(ob, w).
     case e_open env (w_events w) n of
       Opened \<Rightarrow>
         (let c = w_next_client w in
          (Inr (), (ob\<lparr>so_client := Some c\<rparr>,
             add_event (EvOpen c n)
               (w\<lparr>w_conns := (w_conns w)(node_hash env n := Some c), w_next_client := Suc c\<rparr>))))
     | OpenSSHException \<Rightarrow>
         (Inl (IOError (fmt [''Cannot connect to '', nd_host n])), (ob, add_event (EvOpenFail n) w))
     | OpenNoValidConnections \<Rightarrow>
         (Inl (IOError (fmt [''Unable to connect to port '', int_str (nd_port n), '' on '', nd_host n])),
          (ob, add_event (EvOpenFail n) w))
     | OpenOther e \<Rightarrow> (Inl e, (ob, add_event (EvOpenFail n) w)))"

text \<open>\<open>disconnect(node=None)\<close>\<close>

definition ssh_disconnect :: "ssh_env \<Rightarrow> node option \<Rightarrow> unit sshm" where
  "ssh_disconnect env nd = (\<lambda>(ob, w).
     case (case nd of None \<Rightarrow> so_node ob | Some n \<Rightarrow> Some n) of
       None \<Rightarrow> (Inr (), (ob, w))
     | Some n \<Rightarrow>
         (case w_conns w (node_hash env n) of
            None \<Rightarrow> (Inr (), (ob, w))
          | Some c \<Rightarrow>
              (Inr (), (ob, add_event (EvClose c) (w\<lparr>w_conns := (w_conns w)(node_hash env n := None)\<rparr>)))))"

text \<open>\<open>connect(node, attempts)\<close> and \<open>_reconnect(attempts)\<close>, which call each other.\<close>

function ssh_connect :: "ssh_env \<Rightarrow> node \<Rightarrow> nat \<Rightarrow> unit sshm"
  and ssh_reconnect :: "ssh_env \<Rightarrow> nat \<Rightarrow> unit sshm" where
  "ssh_connect env n attempts = (\<lambda>(ob0, w).
     let ob = ob0\<lparr>so_node := Some n\<rparr> in
     case w_conns w (node_hash env n) of
       Some c \<Rightarrow>
         if e_active env (w_events w) c then (Inr (), (ob\<lparr>so_client := Some c\<rparr>, w))
         else if 0 < attempts then ssh_reconnect env (attempts - 1) (ob\<lparr>so_client := Some c\<rparr>, w)
         else (Inl (IOError (fmt [''Cannot connect to '', nd_host n])), (ob\<lparr>so_client := Some c\<rparr>, w))
     | None \<Rightarrow> ssh_open_new env n (ob, w))"
| "ssh_reconnect env attempts = (\<lambda>(ob, w).
     case so_node ob of
       None \<Rightarrow> (Inl TypeError, (ob, w))
     | Some n \<Rightarrow> thenE (ssh_disconnect env (Some n)) (ssh_connect env n attempts) (ob, w))"
  by pat_completeness auto
termination
  by (relation "measure (case_sum (\<lambda>(env, n, a). 2 * a) (\<lambda>(env, a). 2 * a + 1))") auto

declare ssh_connect.simps [simp del] ssh_reconnect.simps [simp del]

section \<open>Running a command\<close>

text \<open>
  The polling loop of \<open>exec_command\<close>: read what is there, raise when more than \<open>timeout\<close> seconds
  have passed, sleep a tenth of a second.  \<open>el\<close> is the time since the start in tenths of a second.
\<close>

function poll_loop ::
  "(nat \<Rightarrow> poll) \<Rightarrow> nat \<Rightarrow> nat \<Rightarrow> nat \<Rightarrow> string \<Rightarrow> string \<Rightarrow> (string \<times> string) res \<times> nat" where
  "poll_loop ps timeout k el out er =
     (if po_ready (ps k) then (Inr (out, er), el)
      else
        (let out' = out @ (case po_out (ps k) of None \<Rightarrow> [] | Some s \<Rightarrow> s);
             er' = er @ (case po_err (ps k) of None \<Rightarrow> [] | Some s \<Rightarrow> s);
             el' = el + po_delay (ps k)
         in if el' > 10 * timeout then (Inl SSHTimeout, el')
            else poll_loop ps timeout (Suc k) (el' + 1) out' er'))"
  by pat_completeness auto
termination
  by (relation "measure (\<lambda>(ps, timeout, k, el, out, er). 10 * timeout + 1 - el)") auto

declare poll_loop.simps [simp del]

fun drain_out :: "drain_item list \<Rightarrow> string" where
  "drain_out [] = []"
| "drain_out (Chunk s # ds) = s @ drain_out ds"
| "drain_out (SockTimeout # ds) = drain_out ds"

text \<open>The channel after \<open>chan.exec_command(cmd)\<close>: without a timeout the polling loop is not entered.\<close>

definition run_chan :: "chan \<Rightarrow> nat option \<Rightarrow> (int \<times> string \<times> string) res \<times> nat" where
  "run_chan ch timeout =
     (case (case timeout of None \<Rightarrow> (Inr ([], []), 0) | Some t \<Rightarrow> poll_loop (ch_polls ch) t 0 0 [] []) of
        (Inl e, el) \<Rightarrow> (Inl e, el)
      | (Inr (out, er), el) \<Rightarrow>
          (Inr (ch_exit ch, out @ drain_out (ch_drain ch), er @ concat (ch_err_drain ch)), el))"

text \<open>\<open>self._ssh.get_transport().open_session(timeout=5)\<close>\<close>

definition open_session :: "ssh_env \<Rightarrow> nat sshm" where
  "open_session env = (\<lambda>(ob, w).
     case so_client ob of
       None \<Rightarrow> (Inl AttributeError, (ob, w))
     | Some c \<Rightarrow>
         (case e_session env (w_events w) c of
            SessOk \<Rightarrow> (Inr c, (ob, w))
          | SessAttributeError \<Rightarrow> (Inl AttributeError, (ob, w))
          | SessSSHException \<Rightarrow> (Inl SSHException, (ob, w))
          | SessOther e \<Rightarrow> (Inl e, (ob, w))))"

text \<open>
  Sending the command on a session of client \<open>c\<close> and collecting its result; \<open>chan.exec_command\<close> itself
  raises when the channel refuses the command.
\<close>

definition chan_result :: "chan \<Rightarrow> nat option \<Rightarrow> (int \<times> string \<times> string) res \<times> nat" where
  "chan_result ch timeout = (case ch_refused ch of Some e \<Rightarrow> (Inl e, 0) | None \<Rightarrow> run_chan ch timeout)"

definition send_cmd :: "ssh_env \<Rightarrow> nat \<Rightarrow> cmd_arg \<Rightarrow> nat option \<Rightarrow> (int \<times> string \<times> string) sshm" where
  "send_cmd env c cmd timeout = (\<lambda>(ob, w).
     case so_node ob of
       None \<Rightarrow> (Inl TypeError, (ob, w))
     | Some n \<Rightarrow>
         (case chan_result (e_chan env (w_events w) c cmd) timeout of
            (r, el) \<Rightarrow> (r, (ob, (add_event (EvSend c n cmd) w)\<lparr>w_clock := w_clock w + el\<rparr>))))"

definition obtain_session :: "ssh_env \<Rightarrow> nat sshm" where
  "obtain_session env =
     tryE (open_session env)
       (\<lambda>e. if e = AttributeError \<or> e = SSHException
            then thenE (ssh_reconnect env 0) (open_session env)
            else raiseE e)"

definition exec_command :: "ssh_env \<Rightarrow> cmd_arg \<Rightarrow> nat option \<Rightarrow> (int \<times> string \<times> string) sshm" where
  "exec_command env cmd timeout = bindE (obtain_session env) (\<lambda>c. send_cmd env c cmd timeout)"

text \<open>The text of a command in an f-string: a list is shown as its \<open>repr\<close>.\<close>

definition list_repr :: "string list \<Rightarrow> string" where
  "list_repr xs = ''['' @ join_with '', '' (map (\<lambda>x. squote @ x @ squote) xs) @ '']''"

fun cmd_text :: "cmd_arg \<Rightarrow> string" where
  "cmd_text CmdNone = ''None''"
| "cmd_text (CmdStr s) = s"
| "cmd_text (CmdList xs) = list_repr xs"

definition sudo_cmd :: "cmd_arg \<Rightarrow> string option \<Rightarrow> cmd_arg" where
  "sudo_cmd cmd inp =
     (case inp of
        None \<Rightarrow> CmdStr (fmt [''sudo -E -S '', cmd_text cmd])
      | Some i \<Rightarrow> CmdStr (fmt [''sudo -E -S '', cmd_text cmd, '' <<< '', dquote, i, dquote]))"

definition exec_command_sudo ::
  "ssh_env \<Rightarrow> cmd_arg \<Rightarrow> string option \<Rightarrow> nat option \<Rightarrow> (int \<times> string \<times> string) sshm" where
  "exec_command_sudo env cmd inp timeout = exec_command env (sudo_cmd cmd inp) timeout"

definition exec_command_lxc ::
  "ssh_env \<Rightarrow> string \<Rightarrow> string \<Rightarrow> string \<Rightarrow> bool \<Rightarrow> nat option \<Rightarrow> (int \<times> string \<times> string) sshm" where
  "exec_command_lxc env lxc_cmd lxc_name lxc_params sudo timeout =
     (let command = fmt [''lxc-attach '', lxc_params, '' --name '', lxc_name, '' -- /bin/sh '',
                         ''-c '', dquote, lxc_cmd, dquote];
          command' = (if sudo then fmt [''sudo -E -S '', command] else command)
      in exec_command env (CmdStr command') timeout)"

text \<open>A method of a fresh \<open>SSH\<close> object, which the caller drops afterwards.\<close>

definition with_ssh :: "'a sshm \<Rightarrow> (world, 'a) em" where
  "with_ssh m = (\<lambda>w. case m (\<lparr>so_client = None, so_node = None\<rparr>, w) of (r, (ob, w')) \<Rightarrow> (r, w'))"

text \<open>\<open>try: m finally: f\<close>; the final part never raises here.\<close>

definition finallyE :: "('s, 'a) em \<Rightarrow> ('s, unit) em \<Rightarrow> ('s, 'a) em" where
  "finallyE m f = (\<lambda>s. case m s of (r, s') \<Rightarrow> (case f s' of (Inl e, s'') \<Rightarrow> (Inl e, s'') | (Inr _, s'') \<Rightarrow> (r, s'')))"

fun cmd_empty :: "cmd_arg \<Rightarrow> bool" where
  "cmd_empty CmdNone = True"
| "cmd_empty (CmdStr s) = (s = [])"
| "cmd_empty (CmdList xs) = (xs = [])"

text \<open>\<open>exec_cmd(node, cmd, timeout, sudo, disconnect)\<close>; \<open>None\<close> stands for \<open>(None, None, None)\<close>.\<close>

definition exec_cmd_on :: "ssh_env \<Rightarrow> node \<Rightarrow> cmd_arg \<Rightarrow> nat option \<Rightarrow> bool \<Rightarrow> bool \<Rightarrow>
    (int \<times> string \<times> string) option sshm" where
  "exec_cmd_on env n cmd timeout sudo disc =
     bindE
       (tryE (thenE (ssh_connect env n 5) (retE True))
         (\<lambda>e. if e = SSHException
              then thenE (on_snd (logE LError (fmt [''Failed to connect to node '', nd_host n]))) (retE False)
              else raiseE e))
       (\<lambda>connected.
          if \<not> connected then retE None
          else finallyE
            (tryE
              (bindE (if \<not> sudo then exec_command env cmd timeout else exec_command_sudo env cmd None timeout)
                (\<lambda>r. retE (Some r)))
              (\<lambda>e. if e = SSHException then thenE (on_snd (logE LError ''SSHException'')) (retE None)
                   else raiseE e))
            (whenE disc (ssh_disconnect env None)))"

definition exec_cmd :: "ssh_env \<Rightarrow> node option \<Rightarrow> cmd_arg \<Rightarrow> nat option \<Rightarrow> bool \<Rightarrow> bool \<Rightarrow>
    (world, (int \<times> string \<times> string) option) em" where
  "exec_cmd env nd cmd timeout sudo disc =
     (case nd of
        None \<Rightarrow> raiseE TypeError
      | Some n \<Rightarrow>
          if cmd = CmdNone then raiseE TypeError
          else if cmd_empty cmd then raiseE ValueError
          else with_ssh (exec_cmd_on env n cmd timeout sudo disc))"

definition kill_cmd :: "string \<Rightarrow> string" where
  "kill_cmd proc_name =
     fmt [''ps -eo user,pid,args|grep '', proc_name, ''|grep -v grep| awk '', squote, ''{print $2}'',
          squote, '' |xargs -r sudo kill -9'']"

definition kill_process :: "ssh_env \<Rightarrow> node \<Rightarrow> string \<Rightarrow> (world, unit) em" where
  "kill_process env n proc_name =
     thenE (exec_cmd env (Some n) (CmdStr (kill_cmd proc_name)) (Some 600) True False) (retE ())"

definition ssh_scp :: "ssh_env \<Rightarrow> string \<Rightarrow> string \<Rightarrow> bool \<Rightarrow> scp_result sshm" where
  "ssh_scp env local_path remote_path get = (\<lambda>(ob, w).
     case so_client ob of
       None \<Rightarrow> (Inl AttributeError, (ob, w))
     | Some c \<Rightarrow> (Inr (e_scp env (w_events w) c local_path remote_path get),
                  (ob, add_event (EvScp c local_path remote_path get) w)))"

definition scp_node :: "ssh_env \<Rightarrow> node \<Rightarrow> string \<Rightarrow> string \<Rightarrow> bool \<Rightarrow> bool \<Rightarrow> (world, unit) em" where
  "scp_node env n local_path remote_path get disc =
     with_ssh
       (thenE
         (tryE (ssh_connect env n 5)
           (\<lambda>e. if e = SSHException
                then raiseE (RuntimeError (fmt [''Failed to connect to '', nd_host n, ''!'']))
                else raiseE e))
         (finallyE
           (bindE (ssh_scp env local_path remote_path get)
             (\<lambda>r. case r of
                ScpOk \<Rightarrow> retE ()
              | ScpException \<Rightarrow> raiseE (RuntimeError (fmt [''SCP execution failed on '', nd_host n, ''!'']))
              | ScpOther e \<Rightarrow> raiseE e))
           (whenE disc (ssh_disconnect env None))))"

end
