(* ===== verification/Ssh_Facts.thy ===== *)
theory Ssh_Facts imports Ssh begin

text \<open>
  What the SSH layer promises its callers: one call of \<open>exec_cmd\<close> sends its command at most once and
  to the right machine, and has sent it when it returns a result; it touches nothing but connections,
  events, clock and log; every command goes over a connection that was opened to that machine and has
  not been closed; a stale connection is closed and replaced before the command is sent; and the
  polling loop returns all that was read, or raises once the time is over.
\<close>

section \<open>Events\<close>

lemma w_sent_add_event [simp]: "w_sent (add_event e w) = w_sent w @ sent_of e"
  by (simp add: add_event_def w_sent_def)

lemma add_event_fields [simp]:
  "w_conns (add_event e w) = w_conns w"
  "w_next_client (add_event e w) = w_next_client w"
  "w_events (add_event e w) = w_events w @ [e]"
  "w_log (add_event e w) = w_log w"
  "w_clock (add_event e w) = w_clock w"
  "w_vifs (add_event e w) = w_vifs w"
  "w_next_vif (add_event e w) = w_next_vif w"
  by (simp_all add: add_event_def)

section \<open>Connecting in closed form\<close>

text \<open>Dropping a cached connection: the connection is closed and leaves the cache.\<close>

definition drop_conn :: "ssh_env \<Rightarrow> node \<Rightarrow> world \<Rightarrow> world" where
  "drop_conn env n w =
     (case w_conns w (node_hash env n) of
        None \<Rightarrow> w
      | Some c \<Rightarrow> add_event (EvClose c) (w\<lparr>w_conns := (w_conns w)(node_hash env n := None)\<rparr>))"

lemma drop_conn_cache [simp]: "w_conns (drop_conn env n w) (node_hash env n) = None"
  by (simp add: drop_conn_def split: option.splits)

lemma ssh_disconnect_eq: "ssh_disconnect env (Some n) (ob, w) = (Inr (), (ob, drop_conn env n w))"
  by (simp add: ssh_disconnect_def drop_conn_def split: option.splits)

text \<open>
  \<open>connect\<close> and \<open>_reconnect\<close> call each other, but the second attempt always finds the cache empty,
  so at most one connection is closed and at most one is opened.
\<close>

lemma connect_uncached:
  "w_conns w (node_hash env n) = None \<Longrightarrow>
   ssh_connect env n a (ob, w) = ssh_open_new env n (ob\<lparr>so_node := Some n\<rparr>, w)"
  by (simp add: ssh_connect.simps [of env n a] Let_def)

lemma ssh_obj_upd [simp]:
  "so_node ob = Some n \<Longrightarrow> ob\<lparr>so_node := Some n\<rparr> = ob"
  by (cases ob) simp

lemma reconnect_eq:
  "so_node ob = Some n \<Longrightarrow> ssh_reconnect env a (ob, w) = ssh_open_new env n (ob, drop_conn env n w)"
  by (simp add: ssh_reconnect.simps [of env a] em_simps ssh_disconnect_eq connect_uncached)

lemma connect_eq:
  "ssh_connect env n a (ob, w) =
     (case w_conns w (node_hash env n) of
        None \<Rightarrow> ssh_open_new env n (ob\<lparr>so_node := Some n\<rparr>, w)
      | Some c \<Rightarrow>
          if e_active env (w_events w) c
          then (Inr (), (ob\<lparr>so_node := Some n, so_client := Some c\<rparr>, w))
          else if 0 < a
          then ssh_open_new env n (ob\<lparr>so_node := Some n, so_client := Some c\<rparr>, drop_conn env n w)
          else (Inl (IOError (fmt [''Cannot connect to '', nd_host n])),
                (ob\<lparr>so_node := Some n, so_client := Some c\<rparr>, w)))"
  by (simp add: ssh_connect.simps [of env n a] Let_def reconnect_eq split: option.splits)

section \<open>An invariant of the connection layer\<close>

text \<open>
  The cache holds open connections only: each was opened to a node of that hash and has not been
  closed; and every command so far was sent over such a connection.
\<close>

definition opened_for :: "ssh_env \<Rightarrow> ssh_event list \<Rightarrow> nat \<Rightarrow> int \<Rightarrow> bool" where
  "opened_for env es c h \<longleftrightarrow>
     (\<exists>n. EvOpen c n \<in> set es \<and> node_hash env n = h) \<and> EvClose c \<notin> set es"

definition sends_ok :: "ssh_env \<Rightarrow> ssh_event list \<Rightarrow> bool" where
  "sends_ok env es \<longleftrightarrow>
     (\<forall>pre c n cmd post. es = pre @ EvSend c n cmd # post \<longrightarrow> opened_for env pre c (node_hash env n))"

definition conn_ok :: "ssh_env \<Rightarrow> world \<Rightarrow> bool" where
  "conn_ok env w \<longleftrightarrow>
     (\<forall>h c. w_conns w h = Some c \<longrightarrow> opened_for env (w_events w) c h)
     \<and> (\<forall>c n. EvOpen c n \<in> set (w_events w) \<longrightarrow> c < w_next_client w)
     \<and> (\<forall>c. EvClose c \<in> set (w_events w) \<longrightarrow> c < w_next_client w)
     \<and> (\<forall>h k c. w_conns w h = Some c \<longrightarrow> w_conns w k = Some c \<longrightarrow> h = k)
     \<and> sends_ok env (w_events w)"

lemma sends_ok_snoc:
  "sends_ok env (es @ [e]) \<longleftrightarrow>
     sends_ok env es \<and> (\<forall>c n cmd. e = EvSend c n cmd \<longrightarrow> opened_for env es c (node_hash env n))"
  (is "?l \<longleftrightarrow> ?r")
proof
  assume l: ?l
  have "opened_for env pre c (node_hash env n)" if "es = pre @ EvSend c n cmd # post" for pre c n cmd post
  proof -
    from that have "es @ [e] = pre @ EvSend c n cmd # (post @ [e])" by simp
    with l show ?thesis unfolding sends_ok_def by blast
  qed
  moreover have "opened_for env es c (node_hash env n)" if "e = EvSend c n cmd" for c n cmd
  proof -
    from that have "es @ [e] = es @ EvSend c n cmd # []" by simp
    with l show ?thesis unfolding sends_ok_def by blast
  qed
  ultimately show ?r unfolding sends_ok_def by blast
next
  assume r: ?r
  have "opened_for env pre c (node_hash env n)"
    if eq: "es @ [e] = pre @ EvSend c n cmd # post" for pre c n cmd post
  proof (cases post rule: rev_cases)
    case Nil
    with eq r show ?thesis by simp
  next
    case (snoc post' e')
    with eq have "es = pre @ EvSend c n cmd # post'" by simp
    with r show ?thesis unfolding sends_ok_def by blast
  qed
  then show ?l unfolding sends_ok_def by blast
qed

lemma opened_for_snoc:
  "opened_for env (es @ [e]) c h \<longleftrightarrow>
     (opened_for env es c h \<and> e \<noteq> EvClose c)
     \<or> (\<exists>n. e = EvOpen c n \<and> node_hash env n = h) \<and> EvClose c \<notin> set es"
  by (auto simp: opened_for_def)

lemma conn_okD:
  assumes "conn_ok env w"
  shows "w_conns w h = Some c \<Longrightarrow> opened_for env (w_events w) c h"
    and "EvOpen c n \<in> set (w_events w) \<Longrightarrow> c < w_next_client w"
    and "EvClose c \<in> set (w_events w) \<Longrightarrow> c < w_next_client w"
    and "w_conns w h = Some c \<Longrightarrow> w_conns w k = Some c \<Longrightarrow> h = k"
    and "sends_ok env (w_events w)"
  using assms unfolding conn_ok_def by blast+

lemma conn_ok_bound: "conn_ok env w \<Longrightarrow> w_conns w h = Some c \<Longrightarrow> c < w_next_client w"
  using conn_okD(1,2) unfolding opened_for_def by blast

lemma conn_ok_drop:
  assumes ok: "conn_ok env w"
  shows "conn_ok env (drop_conn env n w)"
proof (cases "w_conns w (node_hash env n)")
  case None
  with ok show ?thesis by (simp add: drop_conn_def)
next
  case (Some c)
  let ?w = "drop_conn env n w"
  have ev: "w_events ?w = w_events w @ [EvClose c]" "w_next_client ?w = w_next_client w"
    and co: "w_conns ?w = (w_conns w)(node_hash env n := None)"
    using Some by (simp_all add: drop_conn_def)
  have "opened_for env (w_events ?w) c' h" if "w_conns ?w h = Some c'" for h c'
  proof -
    from that co have h: "h \<noteq> node_hash env n" "w_conns w h = Some c'" by (auto split: if_splits)
    then have "c' \<noteq> c" using conn_okD(4) [OF ok _ Some] by blast
    with conn_okD(1) [OF ok h(2)] show ?thesis by (simp add: ev opened_for_snoc)
  qed
  moreover have "h = k" if "w_conns ?w h = Some c'" "w_conns ?w k = Some c'" for h k c'
    using that conn_okD(4) [OF ok] by (simp add: co split: if_splits)
  ultimately show ?thesis
    using conn_okD [OF ok] conn_ok_bound [OF ok Some]
    unfolding conn_ok_def ev sends_ok_snoc by auto
qed

lemma conn_ok_open_new:
  assumes ok: "conn_ok env w" and run: "ssh_open_new env n (ob, w) = (r, (ob', w'))"
  shows "conn_ok env w'"
proof (cases "e_open env (w_events w) n = Opened")
  case False
  with run have "w' = add_event (EvOpenFail n) w"
    by (auto simp: ssh_open_new_def split: open_result.splits)
  with conn_okD [OF ok] show ?thesis
    by (auto simp: conn_ok_def sends_ok_snoc opened_for_snoc)
next
  case True
  let ?c = "w_next_client w"
  have ev: "w_events w' = w_events w @ [EvOpen ?c n]" "w_next_client w' = Suc ?c"
    and co: "w_conns w' = (w_conns w)(node_hash env n := Some ?c)"
    using True run by (auto simp: ssh_open_new_def Let_def)
  have old: "c < ?c" if "w_conns w h = Some c" for h c
    using conn_ok_bound [OF ok that] .
  have "EvClose ?c \<notin> set (w_events w)"
    using conn_okD(3) [OF ok, of ?c] by blast
  then have "opened_for env (w_events w') c h" if "w_conns w' h = Some c" for h c
    using that conn_okD(1) [OF ok, of h c] by (auto simp: co ev opened_for_snoc split: if_splits)
  moreover have "h = k" if "w_conns w' h = Some c" "w_conns w' k = Some c" for h k c
    using that conn_okD(4) [OF ok, of h c k] old [of h c] old [of k c]
    by (auto simp: co split: if_splits)
  moreover have "c < w_next_client w'" if "EvOpen c m \<in> set (w_events w')" for c m
    using that conn_okD(2) [OF ok, of c m] by (auto simp: ev)
  moreover have "c < w_next_client w'" if "EvClose c \<in> set (w_events w')" for c
    using that conn_okD(3) [OF ok, of c] by (auto simp: ev)
  moreover have "sends_ok env (w_events w')"
    using conn_okD(5) [OF ok] by (simp add: ev sends_ok_snoc)
  ultimately show ?thesis unfolding conn_ok_def by blast
qed

lemma open_new_result:
  "ssh_open_new env n (ob, w) = (Inr u, (ob', w')) \<Longrightarrow> so_node ob = Some n \<Longrightarrow>
   so_node ob' = Some n \<and> (\<exists>c. so_client ob' = Some c \<and> w_conns w' (node_hash env n) = Some c)"
  by (auto simp: ssh_open_new_def Let_def split: open_result.splits)

text \<open>After \<open>connect\<close> the object holds the connection that the cache has for the node.\<close>

definition connected_to :: "ssh_env \<Rightarrow> node \<Rightarrow> ssh_obj \<Rightarrow> world \<Rightarrow> bool" where
  "connected_to env n ob w \<longleftrightarrow>
     so_node ob = Some n \<and> (\<exists>c. so_client ob = Some c \<and> w_conns w (node_hash env n) = Some c)"

lemma connect_ok:
  assumes "ssh_connect env n a (ob, w) = (r, (ob', w'))" "conn_ok env w"
  shows "conn_ok env w' \<and> (r = Inr () \<longrightarrow> connected_to env n ob' w')"
proof (cases "w_conns w (node_hash env n)")
  case None
  with assms have "ssh_open_new env n (ob\<lparr>so_node := Some n\<rparr>, w) = (r, (ob', w'))"
    by (simp add: connect_eq)
  with None assms(2) show ?thesis
    using conn_ok_open_new [OF assms(2)] open_new_result [of env n _ w "()" ob' w']
    by (force simp: connected_to_def)
next
  case (Some c)
  show ?thesis
  proof (cases "\<not> e_active env (w_events w) c \<and> 0 < a")
    case True
    with Some assms(1) have "ssh_open_new env n (ob\<lparr>so_node := Some n, so_client := Some c\<rparr>, drop_conn env n w)
        = (r, (ob', w'))"
      by (simp add: connect_eq)
    then show ?thesis
      using conn_ok_open_new [OF conn_ok_drop [OF assms(2)]]
        open_new_result [of env n _ "drop_conn env n w" "()" ob' w']
      by (force simp: connected_to_def)
  next
    case False
    with Some assms show ?thesis
      by (auto simp: connect_eq connected_to_def split: if_splits)
  qed
qed

lemma conn_ok_fields [simp]:
  "conn_ok env (w\<lparr>w_clock := k\<rparr>) = conn_ok env w"
  "conn_ok env (w\<lparr>w_log := l\<rparr>) = conn_ok env w"
  "conn_ok env (w\<lparr>w_vifs := v\<rparr>) = conn_ok env w"
  "conn_ok env (w\<lparr>w_next_vif := m\<rparr>) = conn_ok env w"
  by (simp_all add: conn_ok_def)

lemma send_cmd_eq:
  "so_node ob = Some n \<Longrightarrow> send_cmd env c cmd t (ob, w) =
     (case chan_result (e_chan env (w_events w) c cmd) t of
        (r, el) \<Rightarrow> (r, (ob, (add_event (EvSend c n cmd) w)\<lparr>w_clock := w_clock w + el\<rparr>)))"
  by (simp add: send_cmd_def)

lemma conn_ok_send:
  assumes ok: "conn_ok env w" and con: "connected_to env n ob w" "so_client ob = Some c"
  shows "conn_ok env (add_event (EvSend c n cmd) w)"
proof -
  have "opened_for env (w_events w) c (node_hash env n)"
    using con conn_okD(1) [OF ok] by (auto simp: connected_to_def)
  then show ?thesis
    using conn_okD [OF ok] by (auto simp: conn_ok_def sends_ok_snoc opened_for_snoc)
qed

lemma open_session_eq:
  "open_session env (ob, w) = (r, (ob', w')) \<Longrightarrow> ob' = ob \<and> w' = w \<and> (\<forall>c. r = Inr c \<longrightarrow> so_client ob = Some c)"
  by (auto simp: open_session_def split: option.splits session_result.splits)

lemma sent_drop_conn [simp]: "w_sent (drop_conn env n w) = w_sent w"
  by (simp add: drop_conn_def split: option.splits)

lemma open_new_same:
  "ssh_open_new env n (ob, w) = (r, (ob', w')) \<Longrightarrow> w_sent w' = w_sent w \<and> so_node ob' = so_node ob"
  by (auto simp: ssh_open_new_def Let_def split: open_result.splits)

lemma connect_same:
  "ssh_connect env n a (ob, w) = (r, (ob', w')) \<Longrightarrow> w_sent w' = w_sent w \<and> so_node ob' = Some n"
  by (auto simp: connect_eq split: option.splits if_splits dest!: open_new_same)

text \<open>A session, opened again on a new connection when the first attempt fails.\<close>

lemma session_same:
  assumes "obtain_session env (ob, w) = (r, (ob', w'))" "so_node ob = Some n"
  shows "w_sent w' = w_sent w \<and> so_node ob' = Some n"
proof -
  obtain r1 ob1 w1 where 1: "open_session env (ob, w) = (r1, (ob1, w1))" by (rule prod_cases3)
  obtain r2 ob2 w2 where 2: "ssh_open_new env n (ob, drop_conn env n w) = (r2, (ob2, w2))"
    by (rule prod_cases3)
  obtain r3 ob3 w3 where 3: "open_session env (ob2, w2) = (r3, (ob3, w3))" by (rule prod_cases3)
  show ?thesis
    using assms 1 open_session_eq [OF 1] 2 open_new_same [OF 2] 3 open_session_eq [OF 3]
    by (auto simp: obtain_session_def em_simps reconnect_eq split: sum.splits if_splits)
qed

lemma session_ok:
  assumes run: "obtain_session env (ob, w) = (r, (ob', w'))"
    and ok: "conn_ok env w" and con: "connected_to env n ob w"
  shows "conn_ok env w' \<and> (\<forall>c. r = Inr c \<longrightarrow> connected_to env n ob' w' \<and> so_client ob' = Some c)"
proof -
  have n: "so_node ob = Some n" using con by (simp add: connected_to_def)
  obtain r1 ob1 w1 where 1: "open_session env (ob, w) = (r1, (ob1, w1))" by (rule prod_cases3)
  obtain r2 ob2 w2 where 2: "ssh_open_new env n (ob, drop_conn env n w) = (r2, (ob2, w2))"
    by (rule prod_cases3)
  obtain r3 ob3 w3 where 3: "open_session env (ob2, w2) = (r3, (ob3, w3))" by (rule prod_cases3)
  have ok2: "conn_ok env w2"
    using conn_ok_open_new [OF conn_ok_drop [OF ok] 2] .
  have con2: "connected_to env n ob2 w2" if "r2 = Inr ()"
    using open_new_result [of env n ob "drop_conn env n w" "()" ob2 w2] 2 n that
    by (simp add: connected_to_def)
  show ?thesis
    using run 1 open_session_eq [OF 1] 2 3 open_session_eq [OF 3] ok con n ok2 con2
    by (auto simp: obtain_session_def em_simps reconnect_eq split: sum.splits if_splits)
qed

lemma exec_command_sent:
  assumes "exec_command env cmd t (ob, w) = (r, (ob', w'))" "so_node ob = Some n"
  shows "w_sent w' = w_sent w @ [(n, cmd)] \<or> w_sent w' = w_sent w \<and> (\<exists>e. r = Inl e)"
proof -
  obtain r1 ob1 w1 where 1: "obtain_session env (ob, w) = (r1, (ob1, w1))" by (rule prod_cases3)
  with session_same [OF 1 assms(2)] assms(1) show ?thesis
    by (auto simp: exec_command_def em_simps send_cmd_eq split: sum.splits prod.splits)
qed

lemma exec_command_ok:
  assumes "exec_command env cmd t (ob, w) = (r, (ob', w'))" "conn_ok env w" "connected_to env n ob w"
  shows "conn_ok env w'"
proof -
  obtain r1 ob1 w1 where 1: "obtain_session env (ob, w) = (r1, (ob1, w1))" by (rule prod_cases3)
  note s = session_ok [OF 1 assms(2,3)]
  show ?thesis
  proof (cases r1)
    case (Inl e)
    with 1 s assms(1) show ?thesis by (simp add: exec_command_def em_simps)
  next
    case (Inr c)
    then have "conn_ok env (add_event (EvSend c n cmd) w1)" "so_node ob1 = Some n"
      using s conn_ok_send by (auto simp: connected_to_def)
    with 1 Inr assms(1) show ?thesis
      by (auto simp: exec_command_def em_simps send_cmd_eq split: prod.splits)
  qed
qed

section \<open>One call of exec\_cmd\<close>

text \<open>What \<open>exec_cmd\<close> puts on the wire.\<close>

definition wire :: "bool \<Rightarrow> cmd_arg \<Rightarrow> cmd_arg" where
  "wire sudo cmd = (if sudo then sudo_cmd cmd None else cmd)"

lemma exec_command_wire:
  "(if \<not> sudo then exec_command env cmd t else exec_command_sudo env cmd None t)
     = exec_command env (wire sudo cmd) t"
  by (simp add: wire_def exec_command_sudo_def)

lemma finally_disconnect:
  "finallyE m (whenE d (ssh_disconnect env None)) s = (r, s') \<Longrightarrow>
   \<exists>s1. m s = (r, s1) \<and> w_sent (snd s') = w_sent (snd s1)
      \<and> (conn_ok env (snd s1) \<longrightarrow> conn_ok env (snd s'))"
proof -
  assume *: "finallyE m (whenE d (ssh_disconnect env None)) s = (r, s')"
  obtain r1 ob1 w1 where 1: "m s = (r1, (ob1, w1))" by (rule prod_cases3)
  have dis: "\<exists>w2. ssh_disconnect env None (ob1, w1) = (Inr (), (ob1, w2)) \<and> w_sent w2 = w_sent w1
      \<and> (conn_ok env w1 \<longrightarrow> conn_ok env w2)"
  proof (cases "so_node ob1")
    case None
    then show ?thesis by (simp add: ssh_disconnect_def)
  next
    case (Some n)
    then have "ssh_disconnect env None (ob1, w1) = (Inr (), (ob1, drop_conn env n w1))"
      by (simp add: ssh_disconnect_def drop_conn_def split: option.splits)
    then show ?thesis by (simp add: conn_ok_drop)
  qed
  with * 1 show ?thesis
    by (auto simp: finallyE_def em_simps split: if_splits)
qed

lemma exec_cmd_cases:
  assumes "exec_cmd env (Some n) cmd t sudo d w = (r, w')" "\<not> cmd_empty cmd"
  obtains (fail) r1 ob1 w1 where "ssh_connect env n 5 (\<lparr>so_client = None, so_node = None\<rparr>, w) = (r1, (ob1, w1))"
      "r1 \<noteq> Inr ()" "\<exists>l. w' = w1\<lparr>w_log := l\<rparr>" "\<forall>x. r \<noteq> Inr (Some x)"
    | (run) ob1 w1 r2 ob2 w2 where
      "ssh_connect env n 5 (\<lparr>so_client = None, so_node = None\<rparr>, w) = (Inr (), (ob1, w1))"
      "exec_command env (wire sudo cmd) t (ob1, w1) = (r2, (ob2, w2))"
      "w_sent w' = w_sent w2" "conn_ok env w2 \<longrightarrow> conn_ok env w'"
      "\<forall>x. r = Inr (Some x) \<longleftrightarrow> r2 = Inr x"
proof -
  let ?ob = "\<lparr>so_client = None, so_node = None\<rparr>"
  obtain r1 ob1 w1 where 1: "ssh_connect env n 5 (?ob, w) = (r1, (ob1, w1))" by (rule prod_cases3)
  have notnone: "cmd \<noteq> CmdNone" using assms(2) by auto
  show thesis
  proof (cases r1)
    case (Inl e)
    with 1 assms notnone have "(\<exists>l. w' = w1\<lparr>w_log := l\<rparr>) \<and> (\<forall>x. r \<noteq> Inr (Some x))"
      by (cases "e = SSHException")
        (auto simp: exec_cmd_def with_ssh_def exec_cmd_on_def em_simps logE_def intro: exI [of _ "w_log w1"])
    then show thesis using fail [OF 1] Inl by blast
  next
    case (Inr u)
    let ?body = "tryE (bindE (exec_command env (wire sudo cmd) t) (\<lambda>r. retE (Some r)))
      (\<lambda>e. if e = SSHException then thenE (on_snd (logE LError ''SSHException'')) (retE None) else raiseE e)"
    obtain r2 ob2 w2 where 2: "exec_command env (wire sudo cmd) t (ob1, w1) = (r2, (ob2, w2))"
      by (rule prod_cases3)
    obtain r3 ob3 w3 where 3: "finallyE ?body (whenE d (ssh_disconnect env None)) (ob1, w1) = (r3, (ob3, w3))"
      by (rule prod_cases3)
    have rw: "r = r3" "w' = w3"
      using assms 1 Inr 3 notnone
      by (simp_all add: exec_cmd_def with_ssh_def exec_cmd_on_def em_simps exec_command_wire)
    from finally_disconnect [OF 3] obtain ob4 w4 where
      4: "?body (ob1, w1) = (r3, (ob4, w4))" "w_sent w3 = w_sent w4" "conn_ok env w4 \<longrightarrow> conn_ok env w3"
      by auto
    have 5: "w_sent w4 = w_sent w2" "conn_ok env w4 = conn_ok env w2" "\<forall>x. r3 = Inr (Some x) \<longleftrightarrow> r2 = Inr x"
      using 4(1) 2 by (auto simp: em_simps logE_def split: sum.splits if_splits)
    show thesis
      using run [OF _ 2] 1 Inr rw 4 5 by simp
  qed
qed

lemma exec_cmd_sends:
  assumes "exec_cmd env (Some n) cmd t sudo d w = (r, w')"
  shows "(w_sent w' = w_sent w \<or> w_sent w' = w_sent w @ [(n, wire sudo cmd)])
     \<and> (\<forall>x. r = Inr (Some x) \<longrightarrow> w_sent w' = w_sent w @ [(n, wire sudo cmd)])"
proof (cases "cmd_empty cmd")
  case True
  with assms show ?thesis
    by (cases "cmd = CmdNone") (auto simp: exec_cmd_def em_simps)
next
  case False
  with assms show ?thesis
  proof (cases rule: exec_cmd_cases)
    case (fail r1 ob1 w1)
    then show ?thesis using connect_same [OF fail(1)] by auto
  next
    case (run ob1 w1 r2 ob2 w2)
    then show ?thesis
      using connect_same [OF run(1)] exec_command_sent [OF run(2)] by auto
  qed
qed

lemma exec_cmd_conn_ok:
  assumes "exec_cmd env (Some n) cmd t sudo d w = (r, w')" "conn_ok env w"
  shows "conn_ok env w'"
proof (cases "cmd_empty cmd")
  case True
  with assms show ?thesis
    by (cases "cmd = CmdNone") (auto simp: exec_cmd_def em_simps)
next
  case False
  with assms(1) show ?thesis
  proof (cases rule: exec_cmd_cases)
    case (fail r1 ob1 w1)
    then show ?thesis using connect_ok [OF fail(1) assms(2)] by auto
  next
    case (run ob1 w1 r2 ob2 w2)
    then show ?thesis
      using connect_ok [OF run(1) assms(2)] exec_command_ok [OF run(2)] by auto
  qed
qed

section \<open>What the layer leaves alone\<close>

text \<open>
  An invariant of the world that survives every elementary effect of the layer survives its
  operations.
\<close>

locale ssh_stable =
  fixes P :: "world \<Rightarrow> bool"
  assumes stable_event: "P w \<Longrightarrow> P (add_event e w)"
    and stable_conns: "P w \<Longrightarrow> P (w\<lparr>w_conns := k\<rparr>)"
    and stable_client: "P w \<Longrightarrow> P (w\<lparr>w_next_client := Suc (w_next_client w)\<rparr>)"
    and stable_clock: "P w \<Longrightarrow> P (w\<lparr>w_clock := w_clock w + n\<rparr>)"
    and stable_log: "P w \<Longrightarrow> P (w\<lparr>w_log := w_log w @ [l]\<rparr>)"
begin

lemma keeps_disconnect: "keepsE (\<lambda>s. P (snd s)) (ssh_disconnect env nd)"
  by (auto simp: keepsE_def ssh_disconnect_def stable_event stable_conns split: option.splits)

lemma keeps_drop: "P w \<Longrightarrow> P (drop_conn env n w)"
  by (auto simp: drop_conn_def stable_event stable_conns split: option.splits)

lemma keeps_open_new: "keepsE (\<lambda>s. P (snd s)) (ssh_open_new env n)"
proof -
  have "P (w\<lparr>w_conns := k, w_next_client := Suc (w_next_client w)\<rparr>)" if "P w" for w k
    using stable_client [OF stable_conns [OF that, of k]] by simp
  then show ?thesis
    by (auto simp: keepsE_def ssh_open_new_def Let_def stable_event split: open_result.splits)
qed

lemma keeps_connect: "keepsE (\<lambda>s. P (snd s)) (ssh_connect env n a)"
  using keeps_open_new [of env n] keeps_drop
  by (auto simp: keepsE_def connect_eq split: option.splits)

lemma keeps_reconnect: "keepsE (\<lambda>s. P (snd s)) (ssh_reconnect env a)"
proof -
  have "P (snd (snd (ssh_reconnect env a (ob, w))))" if "P w" for ob w
  proof (cases "so_node ob")
    case None
    with that show ?thesis by (simp add: ssh_reconnect.simps [of env a])
  next
    case (Some n)
    with that show ?thesis
      using keeps_open_new [of env n] keeps_drop by (auto simp: keepsE_def reconnect_eq)
  qed
  then show ?thesis by (simp add: keepsE_def)
qed

lemma keeps_open_session: "keepsE (\<lambda>s. P (snd s)) (open_session env)"
  by (auto simp: keepsE_def open_session_def split: option.splits session_result.splits)

lemma keeps_send: "keepsE (\<lambda>s. P (snd s)) (send_cmd env c cmd t)"
proof -
  have "P ((add_event e w)\<lparr>w_clock := w_clock w + n\<rparr>)" if "P w" for w e n
    using stable_clock [OF stable_event [OF that, of e], of n] by simp
  then show ?thesis
    by (auto simp: keepsE_def send_cmd_def split: option.splits prod.splits)
qed

lemma keeps_log: "keepsE (\<lambda>s. P (snd s)) (on_snd (logE l m))"
  using stable_log by (auto simp: keepsE_def em_simps logE_def)

lemmas keeps_parts =
  keeps_disconnect keeps_connect keeps_reconnect keeps_open_session keeps_send keeps_log

lemma keeps_finally: "keepsE Q m \<Longrightarrow> keepsE Q f \<Longrightarrow> keepsE Q (finallyE m f)"
  by (fastforce simp: keepsE_def finallyE_def split: prod.splits sum.splits)

lemma keeps_with_ssh:
  assumes "keepsE (\<lambda>s. P (snd s)) m"
  shows "keepsE P (with_ssh m)"
proof -
  have "P (snd (with_ssh m w))" if "P w" for w
  proof -
    obtain r ob w' where run: "m (\<lparr>so_client = None, so_node = None\<rparr>, w) = (r, (ob, w'))"
      by (rule prod_cases3)
    with keepsE_D [OF assms _ run] that show ?thesis by (simp add: with_ssh_def)
  qed
  then show ?thesis by (simp add: keepsE_def)
qed

lemma keeps_exec_cmd: "keepsE P (exec_cmd env nd cmd t sudo d)"
  unfolding exec_cmd_def exec_cmd_on_def exec_command_sudo_def exec_command_def obtain_session_def
  by (cases nd) (auto intro!: keeps_with_ssh keeps_finally keeps_parts keeps)

lemma keeps_kill_process: "keepsE P (kill_process env n p)"
  unfolding kill_process_def by (intro keeps keeps_exec_cmd)

lemma keeps_scp_node: "keepsE P (scp_node env n lp rp get d)"
proof -
  have "keepsE (\<lambda>s. P (snd s)) (ssh_scp env lp rp get)"
    by (auto simp: keepsE_def ssh_scp_def stable_event split: option.splits)
  then show ?thesis
    unfolding scp_node_def
    by (auto intro!: keeps_with_ssh keeps_finally keeps_parts keeps split: scp_result.splits)
qed

end

text \<open>The store of virtual interfaces is not touched, and the clock never goes back.\<close>

interpretation vif_store: ssh_stable "\<lambda>w. (w_vifs w, w_next_vif w) = v" for v
  by unfold_locales auto

interpretation clock: ssh_stable "\<lambda>w. t \<le> w_clock w" for t
  by unfold_locales auto

lemma exec_cmd_vifs [simp]:
  "exec_cmd env nd cmd t sudo d w = (r, w') \<Longrightarrow> w_vifs w' = w_vifs w \<and> w_next_vif w' = w_next_vif w"
  using keepsE_D [OF vif_store.keeps_exec_cmd [of "(w_vifs w, w_next_vif w)"]] by blast

lemma exec_cmd_clock: "exec_cmd env nd cmd t sudo d w = (r, w') \<Longrightarrow> w_clock w \<le> w_clock w'"
  using keepsE_D [OF clock.keeps_exec_cmd [of "w_clock w"]] by blast

lemma kill_process_vifs [simp]:
  "kill_process env n p w = (r, w') \<Longrightarrow> w_vifs w' = w_vifs w \<and> w_next_vif w' = w_next_vif w"
  using keepsE_D [OF vif_store.keeps_kill_process [of "(w_vifs w, w_next_vif w)"]] by blast

section \<open>The polling loop\<close>

definition chunk :: "(poll \<Rightarrow> string option) \<Rightarrow> (nat \<Rightarrow> poll) \<Rightarrow> nat \<Rightarrow> string" where
  "chunk f ps j = (case f (ps j) of None \<Rightarrow> [] | Some s \<Rightarrow> s)"

text \<open>The time, since the start, of the check at the end of poll \<open>j\<close> (in tenths of a second).\<close>

fun check_time :: "(nat \<Rightarrow> poll) \<Rightarrow> nat \<Rightarrow> nat" where
  "check_time ps 0 = po_delay (ps 0)"
| "check_time ps (Suc j) = check_time ps j + 1 + po_delay (ps (Suc j))"

definition poll_start :: "(nat \<Rightarrow> poll) \<Rightarrow> nat \<Rightarrow> nat" where
  "poll_start ps k = (case k of 0 \<Rightarrow> 0 | Suc j \<Rightarrow> check_time ps j + 1)"

lemma check_time_start: "check_time ps k = poll_start ps k + po_delay (ps k)"
  by (cases k) (simp_all add: poll_start_def)

lemma poll_start_Suc: "poll_start ps (Suc k) = check_time ps k + 1"
  by (simp add: poll_start_def)

lemma check_time_ge: "j \<le> check_time ps j"
  by (induction j) simp_all

lemma poll_step:
  "\<not> po_ready (ps k) \<Longrightarrow> check_time ps k \<le> 10 * timeout \<Longrightarrow>
   poll_loop ps timeout k (poll_start ps k) out er
     = poll_loop ps timeout (Suc k) (poll_start ps (Suc k)) (out @ chunk po_out ps k) (er @ chunk po_err ps k)"
  by (simp add: poll_loop.simps [of ps timeout k] Let_def check_time_start poll_start_Suc chunk_def)

lemma poll_prefix:
  assumes "\<forall>j<m. \<not> po_ready (ps j) \<and> check_time ps j \<le> 10 * timeout"
  shows "poll_loop ps timeout 0 0 [] []
     = poll_loop ps timeout m (poll_start ps m)
         (concat (map (chunk po_out ps) [0..<m])) (concat (map (chunk po_err ps) [0..<m]))"
  using assms
proof (induction m)
  case 0
  then show ?case by (simp add: poll_start_def)
next
  case (Suc m)
  then show ?case by (simp add: poll_step)
qed

lemma poll_expired:
  "\<not> po_ready (ps m) \<Longrightarrow> 10 * timeout < check_time ps m \<Longrightarrow>
   poll_loop ps timeout m (poll_start ps m) out er = (Inl SSHTimeout, check_time ps m)"
  by (simp add: poll_loop.simps [of ps timeout m] Let_def check_time_start)

lemma poll_ready: "po_ready (ps m) \<Longrightarrow> poll_loop ps timeout m el out er = (Inr (out, er), el)"
  by (simp add: poll_loop.simps [of ps timeout m])

section \<open>Sequences of calls\<close>

text \<open>The calls other modules make, as steps of the world, and the worlds a run can reach.\<close>

inductive ssh_step :: "ssh_env \<Rightarrow> world \<Rightarrow> world \<Rightarrow> bool" for env where
  step_exec: "exec_cmd env nd cmd t sudo d w = (r, w') \<Longrightarrow> ssh_step env w w'"
| step_kill: "kill_process env n p w = (r, w') \<Longrightarrow> ssh_step env w w'"
| step_scp: "scp_node env n lp rp get d w = (r, w') \<Longrightarrow> ssh_step env w w'"

inductive_cases ssh_stepE: "ssh_step env w w'"

inductive ssh_reach :: "ssh_env \<Rightarrow> world \<Rightarrow> bool" for env where
  reach_start: "w_events w = [] \<Longrightarrow> w_conns w = (\<lambda>_. None) \<Longrightarrow> ssh_reach env w"
| reach_step: "ssh_reach env w \<Longrightarrow> ssh_step env w w' \<Longrightarrow> ssh_reach env w'"

lemma kill_process_exec:
  "kill_process env n p w = (r, w') \<Longrightarrow>
   \<exists>r1. exec_cmd env (Some n) (CmdStr (kill_cmd p)) (Some 600) True False w = (r1, w')"
  by (auto simp: kill_process_def em_simps split: prod.splits sum.splits)

lemma scp_conn_ok:
  assumes run: "scp_node env n lp rp get d w = (r, w')" and ok: "conn_ok env w"
  shows "conn_ok env w'"
proof -
  let ?ob = "\<lparr>so_client = None, so_node = None\<rparr>"
  obtain r1 ob1 w1 where 1: "ssh_connect env n 5 (?ob, w) = (r1, (ob1, w1))" by (rule prod_cases3)
  have ok1: "conn_ok env w1" using connect_ok [OF 1 ok] by simp
  let ?body = "bindE (ssh_scp env lp rp get)
    (\<lambda>r. case r of ScpOk \<Rightarrow> retE ()
       | ScpException \<Rightarrow> raiseE (RuntimeError (fmt [''SCP execution failed on '', nd_host n, ''!'']))
       | ScpOther e \<Rightarrow> raiseE e)"
  obtain r2 ob2 w2 where 2: "finallyE ?body (whenE d (ssh_disconnect env None)) (ob1, w1) = (r2, (ob2, w2))"
    by (rule prod_cases3)
  from finally_disconnect [OF 2] obtain ob3 w3 where
    3: "?body (ob1, w1) = (r2, (ob3, w3))" "conn_ok env w3 \<longrightarrow> conn_ok env w2" by auto
  have "w3 = w1 \<or> (\<exists>c. w3 = add_event (EvScp c lp rp get) w1)"
    using 3(1) by (auto simp: em_simps ssh_scp_def split: option.splits scp_result.splits)
  then have "conn_ok env w3"
    using ok1 conn_okD [OF ok1] by (auto simp: conn_ok_def sends_ok_snoc opened_for_snoc)
  with 3 have "conn_ok env w2" by simp
  moreover have "w' = w1 \<or> w' = w2"
    using run 1 2 by (auto simp: scp_node_def with_ssh_def em_simps split: sum.splits if_splits)
  ultimately show ?thesis using ok1 by auto
qed

lemma ssh_step_ok: "ssh_step env w w' \<Longrightarrow> conn_ok env w \<Longrightarrow> conn_ok env w'"
proof (induction rule: ssh_step.induct)
  case (step_exec nd cmd t sudo d w r w')
  then show ?case
    using exec_cmd_conn_ok by (cases nd) (auto simp: exec_cmd_def em_simps)
next
  case (step_kill n p w r w')
  then show ?case using kill_process_exec exec_cmd_conn_ok by blast
next
  case (step_scp n lp rp get d w r w')
  then show ?case using scp_conn_ok by blast
qed

lemma ssh_reach_ok: "ssh_reach env w \<Longrightarrow> conn_ok env w"
proof (induction rule: ssh_reach.induct)
  case (reach_start w)
  then show ?case by (simp add: conn_ok_def sends_ok_def)
next
  case (reach_step w w')
  then show ?case using ssh_step_ok by blast
qed

section \<open>A cooperative environment\<close>

text \<open>
  Every connection opens, every session is granted and every command ends at once, with the exit
  status and the output that \<open>f\<close> gives for its text; in the quiet one each succeeds without output.
  Witnesses run the program in it.
\<close>

definition answer_chan :: "int \<times> string \<Rightarrow> chan" where
  "answer_chan a = \<lparr>ch_refused = None, ch_polls = (\<lambda>_. \<lparr>po_ready = True, po_out = None, po_err = None, po_delay = 0\<rparr>),
     ch_exit = fst a, ch_drain = [Chunk (snd a)], ch_err_drain = []\<rparr>"

definition echo_env :: "(cmd_arg \<Rightarrow> int \<times> string) \<Rightarrow> ssh_env" where
  "echo_env f = \<lparr>e_hash = (\<lambda>s. if PStr ''h1'' \<in> s then 1 else 2), e_open = (\<lambda>_ _. Opened),
     e_active = (\<lambda>_ _. True), e_session = (\<lambda>_ _. SessOk), e_chan = (\<lambda>_ _ cmd. answer_chan (f cmd)),
     e_scp = (\<lambda>_ _ _ _ _. ScpOk)\<rparr>"

abbreviation quiet_env :: ssh_env where
  "quiet_env \<equiv> echo_env (\<lambda>_. (0, []))"

definition node_h1 :: node where
  "node_h1 = \<lparr>nd_host = ''h1'', nd_port = 22, nd_username = ''cne'', nd_password = Some ''cne'',
     nd_priv_key = None\<rparr>"

definition world0 :: world where
  "world0 = \<lparr>w_conns = (\<lambda>_. None), w_next_client = 0, w_events = [], w_log = [], w_clock = 0,
     w_vifs = (\<lambda>_. TapInterface [] (PInt 0)), w_next_vif = 0\<rparr>"

lemma world0_sent [simp]: "w_sent world0 = []"
  by (simp add: w_sent_def world0_def)

lemma echo_env_fields [simp]:
  "e_open (echo_env f) es n = Opened" "e_active (echo_env f) es c = True"
  "e_session (echo_env f) es c = SessOk" "e_chan (echo_env f) es c cmd = answer_chan (f cmd)"
  by (simp_all add: echo_env_def)

lemma run_answer_chan [simp]: "run_chan (answer_chan a) t = (Inr (fst a, snd a, []), 0)"
  by (cases t) (simp_all add: run_chan_def answer_chan_def poll_loop.simps)

lemma answer_chan_result [simp]: "chan_result (answer_chan a) t = (Inr (fst a, snd a, []), 0)"
proof -
  have "ch_refused (answer_chan a) = None"
    by (simp add: answer_chan_def)
  then show ?thesis
    by (simp add: chan_result_def run_answer_chan)
qed

text \<open>Running a command: the connection used, and the world afterwards.\<close>

definition echo_conn :: "node \<Rightarrow> world \<Rightarrow> nat \<times> world" where
  "echo_conn n w =
     (let h = node_hash quiet_env n in
      case w_conns w h of
        Some c \<Rightarrow> (c, w)
      | None \<Rightarrow> (w_next_client w,
          add_event (EvOpen (w_next_client w) n)
            (w\<lparr>w_conns := (w_conns w)(h := Some (w_next_client w)), w_next_client := Suc (w_next_client w)\<rparr>)))"

definition quiet_next :: "node \<Rightarrow> bool \<Rightarrow> cmd_arg \<Rightarrow> world \<Rightarrow> world" where
  "quiet_next n sudo cmd w = (case echo_conn n w of (c, w1) \<Rightarrow> add_event (EvSend c n (wire sudo cmd)) w1)"

lemma echo_hash: "node_hash (echo_env f) n = node_hash quiet_env n"
  by (simp add: node_hash_def echo_env_def)

lemma echo_connect:
  "ssh_connect (echo_env f) n a (\<lparr>so_client = None, so_node = None\<rparr>, w) =
     (Inr (), (\<lparr>so_client = Some (fst (echo_conn n w)), so_node = Some n\<rparr>, snd (echo_conn n w)))"
  by (simp add: connect_eq ssh_open_new_def Let_def echo_conn_def echo_hash [of f] split: option.splits)

lemma add_event_clock [simp]: "(add_event e w)\<lparr>w_clock := w_clock w\<rparr> = add_event e w"
  by (simp add: add_event_def)

lemma echo_conn_fields [simp]:
  "w_sent (snd (echo_conn n w)) = w_sent w" "w_log (snd (echo_conn n w)) = w_log w"
  "w_clock (snd (echo_conn n w)) = w_clock w" "w_vifs (snd (echo_conn n w)) = w_vifs w"
  "w_next_vif (snd (echo_conn n w)) = w_next_vif w"
  by (simp_all add: echo_conn_def Let_def split: option.splits)

lemma quiet_exec_eq [simp]:
  assumes "\<not> cmd_empty cmd"
  shows "exec_cmd (echo_env f) (Some n) cmd t sudo False w
     = (Inr (Some (fst (f (wire sudo cmd)), snd (f (wire sudo cmd)), [])), quiet_next n sudo cmd w)"
proof -
  have "cmd \<noteq> CmdNone" using assms by auto
  then show ?thesis
    using assms
    by (simp add: exec_cmd_def exec_cmd_on_def with_ssh_def em_simps exec_command_wire exec_command_def
        obtain_session_def open_session_def send_cmd_eq finallyE_def echo_connect quiet_next_def
        split_beta)
qed

lemma quiet_next_fields [simp]:
  "w_sent (quiet_next n sudo cmd w) = w_sent w @ [(n, wire sudo cmd)]"
  "w_log (quiet_next n sudo cmd w) = w_log w"
  "w_clock (quiet_next n sudo cmd w) = w_clock w"
  "w_vifs (quiet_next n sudo cmd w) = w_vifs w"
  "w_next_vif (quiet_next n sudo cmd w) = w_next_vif w"
  by (simp_all add: quiet_next_def split_beta)

lemma quiet_kill [simp]: "kill_process (echo_env f) n p w = (Inr (), quiet_next n True (CmdStr (kill_cmd p)) w)"
  by (simp add: kill_process_def em_simps kill_cmd_def fmt_def)

section \<open>Properties\<close>

text \<open>
  C1 One call of \<open>exec_cmd\<close> sends its command at most once, to the node it was given, in the form
  that the sudo flag asks for; a call that returns a result has sent it exactly once; and the earlier
  commands are not disturbed.
\<close>

theorem exec_cmd_at_most_once:
  assumes "exec_cmd env (Some n) cmd t sudo d w = (r, w')"
  shows "(w_sent w' = w_sent w \<or> w_sent w' = w_sent w @ [(n, wire sudo cmd)])
     \<and> (\<forall>x. r = Inr (Some x) \<longrightarrow> w_sent w' = w_sent w @ [(n, wire sudo cmd)])"
  by (rule exec_cmd_sends [OF assms])

theorem exec_cmd_at_most_once_witness:
  "\<exists>w'. exec_cmd quiet_env (Some node_h1) (CmdStr ''ls'') (Some 30) True False world0
      = (Inr (Some (0, [], [])), w')
     \<and> w_sent w' = [(node_h1, CmdStr ''sudo -E -S ls'')]"
proof -
  obtain w' where run: "exec_cmd quiet_env (Some node_h1) (CmdStr ''ls'') (Some 30) True False world0
      = (Inr (Some (0, [], [])), w')"
    by simp
  from exec_cmd_at_most_once [OF this] show ?thesis
    by (intro exI [of _ w']) (simp add: run wire_def sudo_cmd_def fmt_def)
qed

text \<open>
  C2 In every world that the program can reach through the SSH layer, each command went over a
  connection that had been opened to a node of the same hash and had not been closed before, and the
  cache holds only connections that are open and belong to their key.
\<close>

theorem commands_use_open_connections:
  assumes "ssh_reach env w"
  shows "(w_events w = pre @ EvSend c n cmd # post \<longrightarrow>
            (\<exists>m. EvOpen c m \<in> set pre \<and> node_hash env m = node_hash env n) \<and> EvClose c \<notin> set pre)
     \<and> (w_conns w h = Some k \<longrightarrow>
            (\<exists>m. EvOpen k m \<in> set (w_events w) \<and> node_hash env m = h) \<and> EvClose k \<notin> set (w_events w))"
  using conn_okD(1,5) [OF ssh_reach_ok [OF assms]]
  unfolding sends_ok_def opened_for_def by blast

lemma world0_reach: "ssh_reach env world0"
  by (rule reach_start) (simp_all add: world0_def)

theorem commands_use_open_connections_witness:
  "\<exists>w pre c post. ssh_reach quiet_env w \<and> w_events w = pre @ EvSend c node_h1 (CmdStr ''ls'') # post
     \<and> (\<exists>m. EvOpen c m \<in> set pre \<and> node_hash quiet_env m = node_hash quiet_env node_h1)
     \<and> EvClose c \<notin> set pre"
proof -
  obtain w where run: "exec_cmd quiet_env (Some node_h1) (CmdStr ''ls'') None False False world0
      = (Inr (Some (0, [], [])), w)" "w_sent w = [(node_h1, CmdStr ''ls'')]"
    by (simp add: wire_def)
  have reach: "ssh_reach quiet_env w"
    by (rule reach_step [OF world0_reach step_exec [OF run(1)]])
  have "(node_h1, CmdStr ''ls'') \<in> set (concat (map sent_of (w_events w)))"
    using run(2) by (simp add: w_sent_def)
  then obtain e where e: "e \<in> set (w_events w)" "(node_h1, CmdStr ''ls'') \<in> set (sent_of e)"
    by auto
  from e(2) obtain c where "e = EvSend c node_h1 (CmdStr ''ls'')" by (cases e) auto
  with split_list [OF e(1)] obtain pre post where
    "w_events w = pre @ EvSend c node_h1 (CmdStr ''ls'') # post" by auto
  with commands_use_open_connections [OF reach] reach show ?thesis by blast
qed

text \<open>
  C31 A cached connection that has died is closed and replaced before anything is sent: connecting
  closes exactly that connection, opens exactly one new connection to the node, and leaves the new
  one both in the cache and in the object; a live one is reused without touching the network.
\<close>

theorem connect_replaces_stale:
  assumes "w_conns w (node_hash env n) = Some c" "0 < a"
    and "\<And>es. e_open env es n = Opened"
  shows "(\<not> e_active env (w_events w) c \<longrightarrow>
           (\<exists>w'. ssh_connect env n a (ob, w)
                = (Inr (), (ob\<lparr>so_client := Some (w_next_client w), so_node := Some n\<rparr>, w'))
              \<and> w_events w' = w_events w @ [EvClose c, EvOpen (w_next_client w) n]
              \<and> w_conns w' = (w_conns w)(node_hash env n := Some (w_next_client w))))
     \<and> (e_active env (w_events w) c \<longrightarrow>
           ssh_connect env n a (ob, w) = (Inr (), (ob\<lparr>so_client := Some c, so_node := Some n\<rparr>, w)))"
  using assms by (auto simp: connect_eq drop_conn_def ssh_open_new_def Let_def)

definition stale_env :: ssh_env where
  "stale_env = quiet_env\<lparr>e_active := (\<lambda>_ _. False)\<rparr>"

theorem connect_replaces_stale_witness:
  "\<exists>w'. ssh_connect stale_env node_h1 5
       (\<lparr>so_client = None, so_node = None\<rparr>,
        world0\<lparr>w_conns := (\<lambda>_. Some 0), w_next_client := 1\<rparr>)
     = (Inr (), (\<lparr>so_client = Some 1, so_node = Some node_h1\<rparr>, w'))
     \<and> w_events w' = [EvClose 0, EvOpen 1 node_h1]"
  using connect_replaces_stale [of "world0\<lparr>w_conns := (\<lambda>_. Some 0), w_next_client := 1\<rparr>" stale_env
      node_h1 0 5 "\<lparr>so_client = None, so_node = None\<rparr>"]
  by (auto simp: stale_env_def world0_def)

text \<open>
  C23 A command whose channel gets ready at poll \<open>m\<close>, with every check before it inside the timeout,
  returns its exit status and all of its output: the chunks of the polls before \<open>m\<close>, in order, and
  then everything that reading the channel to its end gives.
\<close>

theorem run_chan_returns_output:
  assumes "\<forall>j<m. \<not> po_ready (ch_polls ch j) \<and> check_time (ch_polls ch) j \<le> 10 * t"
    and "po_ready (ch_polls ch m)"
  shows "run_chan ch (Some t) =
     (Inr (ch_exit ch,
           concat (map (chunk po_out (ch_polls ch)) [0..<m]) @ drain_out (ch_drain ch),
           concat (map (chunk po_err (ch_polls ch)) [0..<m]) @ concat (ch_err_drain ch)),
      poll_start (ch_polls ch) m)"
  using assms by (simp add: run_chan_def poll_prefix poll_ready)

definition two_polls :: chan where
  "two_polls = \<lparr>ch_refused = None, ch_polls = (\<lambda>k. \<lparr>po_ready = (k = 2), po_out = Some (if k = 0 then ''a'' else ''b''),
       po_err = None, po_delay = 1\<rparr>),
     ch_exit = 3, ch_drain = [Chunk ''c'', SockTimeout, Chunk ''d''], ch_err_drain = [''e'']\<rparr>"

theorem run_chan_returns_output_witness:
  "run_chan two_polls (Some 1) = (Inr (3, ''abcd'', ''e''), 4)"
proof -
  have "{j::nat. j < 2} = {0, 1}" by auto
  then have all: "(\<forall>j<2. P j) \<longleftrightarrow> P 0 \<and> P (Suc 0)" for P :: "nat \<Rightarrow> bool"
    by (metis One_nat_def less_2_cases_iff)
  have "\<forall>j<2. \<not> po_ready (ch_polls two_polls j) \<and> check_time (ch_polls two_polls) j \<le> 10 * 1"
    unfolding all by (simp add: two_polls_def)
  from run_chan_returns_output [OF this] show ?thesis
    by (simp add: two_polls_def chunk_def poll_start_def numeral_2_eq_2)
qed

text \<open>
  C24 A command that never ends does not hang the caller: if the channel never gets ready, the call
  raises the timeout exception, after more than \<open>timeout\<close> seconds and at the first check past them.
\<close>

theorem run_chan_times_out:
  assumes "\<And>j. \<not> po_ready (ch_polls ch j)"
  shows "\<exists>m. run_chan ch (Some t) = (Inl SSHTimeout, check_time (ch_polls ch) m)
     \<and> 10 * t < check_time (ch_polls ch) m
     \<and> (\<forall>j<m. check_time (ch_polls ch) j \<le> 10 * t)"
proof -
  define m where "m = (LEAST m. 10 * t < check_time (ch_polls ch) m)"
  have "10 * t < check_time (ch_polls ch) (Suc (10 * t))"
    using check_time_ge [of "Suc (10 * t)" "ch_polls ch"] by simp
  then have m: "10 * t < check_time (ch_polls ch) m"
    unfolding m_def by (rule LeastI)
  have before: "\<forall>j<m. check_time (ch_polls ch) j \<le> 10 * t"
    using not_less_Least unfolding m_def by (metis not_less)
  then show ?thesis
    using m assms by (intro exI [of _ m]) (simp add: run_chan_def poll_prefix poll_expired)
qed

theorem run_chan_times_out_witness:
  "\<exists>m. run_chan (two_polls\<lparr>ch_polls := (\<lambda>k. \<lparr>po_ready = False, po_out = None, po_err = None, po_delay = 0\<rparr>)\<rparr>)
      (Some 2) = (Inl SSHTimeout, m) \<and> 20 < m"
  using run_chan_times_out [of "two_polls\<lparr>ch_polls :=
      (\<lambda>k. \<lparr>po_ready = False, po_out = None, po_err = None, po_delay = 0\<rparr>)\<rparr>" 2]
  by auto

text \<open>
  C25 An unreachable machine is an exception, never the \<open>(None, None, None)\<close> that the code after
  \<open>except SSHException\<close> returns: when there is no live cached connection and opening one fails,
  \<open>exec_cmd\<close> raises \<open>IOError\<close>, has sent nothing, and logs nothing.
\<close>

theorem exec_cmd_unreachable:
  assumes "\<not> cmd_empty cmd"
    and "\<And>es. e_open env es n \<in> {OpenSSHException, OpenNoValidConnections}"
    and "\<forall>c. w_conns w (node_hash env n) = Some c \<longrightarrow> \<not> e_active env (w_events w) c"
  shows "\<exists>msg w'. exec_cmd env (Some n) cmd t sudo d w = (Inl (IOError msg), w')
     \<and> w_sent w' = w_sent w \<and> w_log w' = w_log w"
proof -
  let ?ob = "\<lparr>so_client = None, so_node = None\<rparr>"
  have fails: "\<exists>msg w2. ssh_open_new env n (ob, w1) = (Inl (IOError msg), (ob, w2))
      \<and> w_sent w2 = w_sent w1 \<and> w_log w2 = w_log w1" for ob w1
    using assms(2) [of "w_events w1"] by (auto simp: ssh_open_new_def)
  have "\<exists>msg ob' w'. ssh_connect env n 5 (?ob, w) = (Inl (IOError msg), (ob', w'))
      \<and> w_sent w' = w_sent w \<and> w_log w' = w_log w"
  proof (cases "w_conns w (node_hash env n)")
    case None
    with fails [of "?ob\<lparr>so_node := Some n\<rparr>" w] show ?thesis by (auto simp: connect_eq)
  next
    case (Some c)
    have "w_log (drop_conn env n w) = w_log w" by (simp add: drop_conn_def split: option.splits)
    with Some fails [of "?ob\<lparr>so_node := Some n, so_client := Some c\<rparr>" "drop_conn env n w"] assms(3)
    show ?thesis by (auto simp: connect_eq)
  qed
  moreover have "cmd \<noteq> CmdNone" using assms(1) by auto
  ultimately show ?thesis
    using assms(1) by (auto simp: exec_cmd_def exec_cmd_on_def with_ssh_def em_simps)
qed

theorem exec_cmd_unreachable_witness:
  "\<exists>msg w'. exec_cmd (quiet_env\<lparr>e_open := (\<lambda>_ _. OpenNoValidConnections)\<rparr>) (Some node_h1)
      (CmdStr ''ls'') (Some 5) True False world0 = (Inl (IOError msg), w') \<and> w_sent w' = []"
  using exec_cmd_unreachable [of "CmdStr ''ls''" "quiet_env\<lparr>e_open := (\<lambda>_ _. OpenNoValidConnections)\<rparr>"
      node_h1 world0 "Some 5" True False]
  by (auto simp: world0_def w_sent_def)

end
