(* ===== verification/Vswitch.thy ===== *)
theory Vswitch imports Ssh_Facts begin

text \<open>
  \<open>vswitch.py\<close>: the allocator of port numbers, bridges, the base class \<open>VirtualSwitch\<close> and its two
  implementations \<open>OvsDpdk\<close> and \<open>OvsNative\<close>.  A method of a switch works on the switch object and the
  world; a bridge object is its position in the switch's list of bridges.
\<close>

type_synonym 'a vsm = "(vswitch \<times> world, 'a) em"

section \<open>Allocators and bridges\<close>

definition IDAllocator :: "string \<Rightarrow> int \<Rightarrow> int \<Rightarrow> id_allocator" where
  "IDAllocator name min_id max_id = \<lparr>ida_name = name, ida_ids = [min_id..max_id]\<rparr>"

definition ida_get :: "id_allocator \<Rightarrow> (int \<times> id_allocator) res" where
  "ida_get a =
     (case ida_ids a of
        [] \<Rightarrow> Inl IndexError
      | i # is \<Rightarrow> Inr (i, a\<lparr>ida_ids := is\<rparr>))"

definition ida_put :: "int \<Rightarrow> id_allocator \<Rightarrow> id_allocator" where
  "ida_put i a = a\<lparr>ida_ids := ida_ids a @ [i]\<rparr>"

definition Bridge :: "string \<Rightarrow> bridge" where
  "Bridge name =
     \<lparr>br_name = name, br_vifs = [], br_vnis = [], br_uplinks = [], br_tnl_ports = [],
      br_with_md = False,
      br_ids_uplink = IDAllocator (fmt [name, '' uplink'']) OFP_UPLINK_BASE OFP_VHOST_BASE,
      br_ids_vif = IDAllocator (fmt [name, '' vif'']) OFP_VHOST_BASE OFP_TUNNEL_BASE,
      br_ids_tunnel = IDAllocator (fmt [name, '' tunnel'']) OFP_TUNNEL_BASE (OFP_TUNNEL_BASE + 100)\<rparr>"

text \<open>\<open>br.vnis[vif.vni].append(vif)\<close>, with a new empty list for a VNI that is not there yet.\<close>

fun vnis_add :: "pyval \<Rightarrow> nat \<Rightarrow> (pyval \<times> nat list) list \<Rightarrow> (pyval \<times> nat list) list" where
  "vnis_add k v [] = [(k, [v])]"
| "vnis_add k v ((j, vs) # m) = (if j = k then (j, vs @ [v]) # m else (j, vs) # vnis_add k v m)"

definition bridge_add_vni :: "(nat \<Rightarrow> vif) \<Rightarrow> nat \<Rightarrow> bridge \<Rightarrow> bridge" where
  "bridge_add_vni store v br = br\<lparr>br_vnis := vnis_add (vif_vni (store v)) v (br_vnis br)\<rparr>"

definition bridge_add_vif :: "(nat \<Rightarrow> vif) \<Rightarrow> nat \<Rightarrow> bridge \<Rightarrow> bridge" where
  "bridge_add_vif store v br = bridge_add_vni store v (br\<lparr>br_vifs := br_vifs br @ [v]\<rparr>)"

section \<open>The constructor\<close>

text \<open>
  An interface of the topology file; an option that is missing is \<open>PNone\<close>, as \<open>get\<close> returns.
\<close>

record iface_spec =
  if_pci_address :: "pyval option"
  if_n_queue_pair :: pyval
  if_n_rxq_desc :: pyval
  if_n_txq_desc :: pyval

definition uplink_of_spec :: "iface_spec \<Rightarrow> uplink res" where
  "uplink_of_spec spec =
     (case if_pci_address spec of
        None \<Rightarrow> Inl (KeyError ''pci_address'')
      | Some pci \<Rightarrow>
          (let u0 = Uplink pci;
               u1 = (if truthy (if_n_queue_pair spec) then u0\<lparr>up_n_queue_pair := if_n_queue_pair spec\<rparr> else u0);
               u2 = (if truthy (if_n_rxq_desc spec) then u1\<lparr>up_n_rxq_desc := if_n_rxq_desc spec\<rparr> else u1);
               u3 = (if truthy (if_n_txq_desc spec) then u2\<lparr>up_n_txq_desc := if_n_txq_desc spec\<rparr> else u2)
           in Inr u3))"

definition VirtualSwitch ::
  "vs_kind \<Rightarrow> node \<Rightarrow> (string \<times> iface_spec) list \<Rightarrow> if_address \<Rightarrow> string \<Rightarrow> string \<Rightarrow> vswitch res" where
  "VirtualSwitch kind ssh_info uplinks_spec tep_addr ovs_bin_dir dpdk_devbind_dir =
     bindR (collectR (\<lambda>(k, spec). bindR (uplink_of_spec spec) (\<lambda>u. Inr [u])) (sort_key fst uplinks_spec))
       (\<lambda>ups. Inr \<lparr>vs_kind = kind, vs_bridges = [], vs_ssh_info = ssh_info, vs_tep_addr = tep_addr,
          vs_uplinks = ups, vs_ovs_bin_dir = ovs_bin_dir,
          vs_devbind_cmd = path_join dpdk_devbind_dir ''dpdk-devbind.py''\<rparr>)"

section \<open>Commands\<close>

definition vs_fail :: "vswitch \<Rightarrow> string \<Rightarrow> cmd_arg \<Rightarrow> err" where
  "vs_fail vs what cmd =
     RuntimeError (fmt [''Execute '', what, '' cmd failed on '', nd_host (vs_ssh_info vs), '' : '', cmd_text cmd])"

definition vs_execute :: "ssh_env \<Rightarrow> string \<Rightarrow> nat \<Rightarrow> (int \<times> string \<times> string) vsm" where
  "vs_execute env cmd timeout =
     bindE (getE fst) (\<lambda>vs.
     bindE (on_snd (exec_cmd env (Some (vs_ssh_info vs))
              (CmdStr (fmt [vs_ovs_bin_dir vs, ''/'', cmd])) (Some timeout) True False)) (\<lambda>res.
     case res of
       None \<Rightarrow> raiseE (vs_fail vs ''OVS'' (CmdStr cmd))
     | Some (ret_code, out, er) \<Rightarrow>
         if ret_code \<noteq> 0 then raiseE (vs_fail vs ''OVS'' (CmdStr cmd))
         else retE (ret_code, out, er)))"

definition vs_execute_batch :: "ssh_env \<Rightarrow> string list \<Rightarrow> nat \<Rightarrow> unit vsm" where
  "vs_execute_batch env cmds timeout = forE cmds (\<lambda>cmd. thenE (vs_execute env cmd timeout) (retE ()))"

text \<open>
  \<open>exp_fail = None\<close> does not care about the outcome; the result is \<open>None\<close> where the code returns
  \<open>(None, None, None)\<close>.
\<close>

definition vs_execute_host ::
  "ssh_env \<Rightarrow> cmd_arg \<Rightarrow> nat \<Rightarrow> bool option \<Rightarrow> (int \<times> string \<times> string) option vsm" where
  "vs_execute_host env cmd timeout exp_fail =
     bindE (getE fst) (\<lambda>vs.
     bindE (on_snd (exec_cmd env (Some (vs_ssh_info vs)) cmd (Some timeout) True False)) (\<lambda>res.
     let failed = (case res of None \<Rightarrow> True | Some (ret_code, _, _) \<Rightarrow> ret_code \<noteq> 0)
     in if failed \<and> exp_fail = Some False then raiseE (vs_fail vs ''host'' cmd)
        else retE res))"

definition vs_host :: "ssh_env \<Rightarrow> string \<Rightarrow> (int \<times> string \<times> string) option vsm" where
  "vs_host env cmd = vs_execute_host env (CmdStr cmd) 30 (Some False)"

definition vs_execute_host_batch :: "ssh_env \<Rightarrow> string list \<Rightarrow> nat \<Rightarrow> unit vsm" where
  "vs_execute_host_batch env cmds timeout =
     forE cmds (\<lambda>cmd. thenE (vs_execute_host env (CmdStr cmd) timeout (Some False)) (retE ()))"

definition vs_kill_process :: "ssh_env \<Rightarrow> string \<Rightarrow> unit vsm" where
  "vs_kill_process env proc_name =
     bindE (getE fst) (\<lambda>vs. on_snd (kill_process env (vs_ssh_info vs) proc_name))"

text \<open>A call of \<open>self.execute(cmd)\<close> whose result is not used.\<close>

definition vs_run :: "ssh_env \<Rightarrow> string \<Rightarrow> unit vsm" where
  "vs_run env cmd = thenE (vs_execute env cmd 30) (retE ())"

definition vs_run_host :: "ssh_env \<Rightarrow> string \<Rightarrow> unit vsm" where
  "vs_run_host env cmd = thenE (vs_host env cmd) (retE ())"

section \<open>Bridges of a switch\<close>

fun index_of :: "('a \<Rightarrow> bool) \<Rightarrow> 'a list \<Rightarrow> nat option" where
  "index_of p [] = None"
| "index_of p (x # xs) = (if p x then Some 0 else map_option Suc (index_of p xs))"

definition get_bridge :: "vswitch \<Rightarrow> string \<Rightarrow> nat option" where
  "get_bridge vs name = index_of (\<lambda>b. br_name b = name) (vs_bridges vs)"

text \<open>An attribute of \<open>get_bridge(name)\<close>: the result may be \<open>None\<close>.\<close>

definition bridgeE :: "string \<Rightarrow> nat vsm" where
  "bridgeE name = readE (\<lambda>(vs, w). attr_of (get_bridge vs name))"

definition upd_bridge :: "nat \<Rightarrow> (bridge \<Rightarrow> bridge) \<Rightarrow> vswitch \<Rightarrow> vswitch" where
  "upd_bridge i f vs = vs\<lparr>vs_bridges := (vs_bridges vs)[i := f (vs_bridges vs ! i)]\<rparr>"

definition modify_bridge :: "nat \<Rightarrow> (bridge \<Rightarrow> bridge) \<Rightarrow> unit vsm" where
  "modify_bridge i f = on_fst (modifyE (upd_bridge i f))"

definition add_vif_to :: "nat \<Rightarrow> nat \<Rightarrow> unit vsm" where
  "add_vif_to i v = modifyE (\<lambda>(vs, w). (upd_bridge i (bridge_add_vif (w_vifs w) v) vs, w))"

definition create_bridge_impl :: "ssh_env \<Rightarrow> string \<Rightarrow> unit vsm" where
  "create_bridge_impl env name =
     bindE (getE (vs_kind \<circ> fst)) (\<lambda>kind.
     case kind of
       OvsDpdk ps \<Rightarrow>
         vs_run env (fmt [''ovs-vsctl add-br '', name, '' -- set bridge '', name, '' datapath_type=netdev''])
     | OvsNative \<Rightarrow>
         vs_run env (fmt [''ovs-vsctl add-br '', name, '' -- set bridge '', name, '' datapath_type=system'']))"

definition create_bridge :: "ssh_env \<Rightarrow> string \<Rightarrow> nat vsm" where
  "create_bridge env name =
     thenE (vs_execute_host env (CmdStr (fmt [''ip link del '', name])) 30 None)
    (thenE (create_bridge_impl env name)
    (bindE (getE (\<lambda>(vs, w). length (vs_bridges vs))) (\<lambda>i.
     thenE (on_fst (modifyE (\<lambda>vs. vs\<lparr>vs_bridges := vs_bridges vs @ [Bridge name]\<rparr>)))
    (bindE (on_snd (new_vif (TapInterface name (PInt OFP_LOCAL)))) (\<lambda>tap.
     thenE (add_vif_to i tap) (retE i))))))"

definition delete_bridge :: "ssh_env \<Rightarrow> string \<Rightarrow> unit vsm" where
  "delete_bridge env name =
     thenE (vs_run env (fmt [''ovs-vsctl del-br '', name]))
    (bindE (getE (\<lambda>(vs, w). get_bridge vs name)) (\<lambda>bo.
     case bo of
       None \<Rightarrow> raiseE ValueError
     | Some i \<Rightarrow>
         on_fst (modifyE (\<lambda>vs. vs\<lparr>vs_bridges := take i (vs_bridges vs) @ drop (Suc i) (vs_bridges vs)\<rparr>))))"

definition refresh_vnis :: "(nat \<Rightarrow> vif) \<Rightarrow> bridge \<Rightarrow> bridge" where
  "refresh_vnis store br = fold (bridge_add_vni store) (br_vifs br) (br\<lparr>br_vnis := []\<rparr>)"

definition refresh_bridge_vnis :: "unit vsm" where
  "refresh_bridge_vnis =
     modifyE (\<lambda>(vs, w). (vs\<lparr>vs_bridges := map (refresh_vnis (w_vifs w)) (vs_bridges vs)\<rparr>, w))"

section \<open>Tunnel ports and interfaces\<close>

definition take_tunnel_id :: "nat \<Rightarrow> int vsm" where
  "take_tunnel_id i = (\<lambda>(vs, w).
     case ida_get (br_ids_tunnel (vs_bridges vs ! i)) of
       Inl e \<Rightarrow> (Inl e, (vs, w))
     | Inr (ofp, pool) \<Rightarrow> (Inr ofp, (upd_bridge i (\<lambda>b. b\<lparr>br_ids_tunnel := pool\<rparr>) vs, w)))"

definition create_tunnel_port :: "ssh_env \<Rightarrow> string \<Rightarrow> string \<Rightarrow> pyval \<Rightarrow> pyval \<Rightarrow> tunnel_port vsm" where
  "create_tunnel_port env name tnl_type rip vni =
     bindE (bridgeE name) (\<lambda>i.
     bindE (take_tunnel_id i) (\<lambda>tnl_ofp.
     let tnl_name = fmt [tnl_type, int_str tnl_ofp] in
     thenE (vs_run env (fmt [''ovs-vsctl add-port '', name, '' '', tnl_name, '' -- set Interface '', tnl_name,
              '' type='', tnl_type, '' options:remote_ip='', py_str rip, '' options:key='', py_str vni,
              '' ofport_request='', int_str tnl_ofp, '' '']))
    (let tp = \<lparr>tp_name = tnl_name, tp_rip = rip, tp_vni = vni, tp_ofp = tnl_ofp\<rparr> in
     bindE (bridgeE name) (\<lambda>j.
     thenE (modify_bridge j (\<lambda>b. b\<lparr>br_tnl_ports := br_tnl_ports b @ [tp]\<rparr>)) (retE tp)))))"

definition delete_interface :: "ssh_env \<Rightarrow> string \<Rightarrow> string \<Rightarrow> unit vsm" where
  "delete_interface env br if_name = vs_run env (fmt [''ovs-vsctl del-port '', br, '' '', if_name])"

definition delete_tunnel_port :: "ssh_env \<Rightarrow> string \<Rightarrow> tunnel_port \<Rightarrow> unit vsm" where
  "delete_tunnel_port env name tp =
     bindE (getE (\<lambda>(vs, w). get_bridge vs name)) (\<lambda>bo.
     thenE (delete_interface env name (tp_name tp))
    (bindE (liftE (attr_of bo)) (\<lambda>i.
     thenE (modify_bridge i (\<lambda>b. b\<lparr>br_ids_tunnel := ida_put (tp_ofp tp) (br_ids_tunnel b)\<rparr>))
    (bindE (getE (\<lambda>(vs, w). br_tnl_ports (vs_bridges vs ! i))) (\<lambda>tps.
     if tp \<in> set tps then modify_bridge i (\<lambda>b. b\<lparr>br_tnl_ports := remove1 tp (br_tnl_ports b)\<rparr>)
     else raiseE ValueError)))))"

definition set_port_vlan :: "ssh_env \<Rightarrow> string \<Rightarrow> pyval \<Rightarrow> unit vsm" where
  "set_port_vlan env if_name vlan_id =
     vs_run env (fmt [''ovs-vsctl set port '', if_name, '' tag='', py_str vlan_id])"

definition set_vlan_limit :: "ssh_env \<Rightarrow> int \<Rightarrow> unit vsm" where
  "set_vlan_limit env limit =
     vs_run env (fmt [''ovs-vsctl set Open_vSwitch . other_config:vlan-limit='', int_str limit])"

end
