(* ===== verification/Vswitch_Uplinks.thy ===== *)
theory Vswitch_Uplinks imports Vswitch begin

text \<open>
  The rest of \<open>vswitch.py\<close>: vhost user interfaces, uplinks and bonds with the two implementations of
  each, and starting and stopping a switch.
\<close>

section \<open>Vhost user interfaces\<close>

definition opt_str :: "string option \<Rightarrow> string" where
  "opt_str x = (case x of None \<Rightarrow> ''None'' | Some s \<Rightarrow> s)"

definition ifup_script :: "string \<Rightarrow> string \<Rightarrow> vif \<Rightarrow> string" where
  "ifup_script bin_dir br v =
     fmt [''sh -c '', squote, ''cat << EOF > '', opt_str (vif_ifup v), [nl], ''#!/bin/sh'', [nl], [nl],
          bin_dir, ''/ovs-vsctl add-port '', br, '' $1 -- set Interface $1 ofport_request='',
          py_str (vif_ofp v), [nl], ''ip link set $1 up'', [nl], ''ip link set $1 mtu 9000'', [nl], ''EOF'', squote]"

definition ifdown_script :: "string \<Rightarrow> string \<Rightarrow> vif \<Rightarrow> string" where
  "ifdown_script bin_dir br v =
     fmt [''sh -c '', squote, ''cat << EOF > '', opt_str (vif_ifdown v), [nl], ''#!/bin/sh'', [nl], [nl],
          ''ip link set $1 down'', [nl], bin_dir, ''/ovs-vsctl del-port '', br, '' $1'', [nl], ''EOF'', squote]"

definition create_vhost_impl :: "ssh_env \<Rightarrow> string \<Rightarrow> nat \<Rightarrow> unit vsm" where
  "create_vhost_impl env br r =
     bindE (getE (\<lambda>(vs, w). (vs, w_vifs w r))) (\<lambda>(vs, v).
     case vs_kind vs of
       OvsDpdk ps \<Rightarrow>
         if vif_client_mode v then
           vs_run env (fmt [''ovs-vsctl add-port '', br, '' '', vif_name v, '' -- set Interface '', vif_name v,
             '' type=dpdkvhostuserclient options:vhost-server-path='', opt_str (vif_sock v),
             '' ofport_request='', py_str (vif_ofp v)])
         else
           vs_run env (fmt [''ovs-vsctl add-port '', br, '' '', vif_name v, '' -- set Interface '', vif_name v,
             '' type=dpdkvhostuser ofport_request='', py_str (vif_ofp v)])
     | OvsNative \<Rightarrow>
         thenE (vs_run_host env (ifup_script (vs_ovs_bin_dir vs) br v))
        (thenE (vs_run_host env (fmt [''chmod u+x '', opt_str (vif_ifup v)]))
        (thenE (vs_run_host env (ifdown_script (vs_ovs_bin_dir vs) br v))
               (vs_run_host env (fmt [''chmod u+x '', opt_str (vif_ifdown v)])))))"

definition create_vhost_user_interface :: "ssh_env \<Rightarrow> string \<Rightarrow> nat \<Rightarrow> unit vsm" where
  "create_vhost_user_interface env br r =
     thenE (create_vhost_impl env br r) (bindE (bridgeE br) (\<lambda>i. add_vif_to i r))"

section \<open>Uplinks\<close>

definition deref :: "vswitch \<Rightarrow> uplink_ref \<Rightarrow> uplink" where
  "deref vs u = (case u of Phys k \<Rightarrow> vs_uplinks vs ! k | Bond b \<Rightarrow> b)"

definition upd_uplink :: "nat \<Rightarrow> (uplink \<Rightarrow> uplink) \<Rightarrow> vswitch \<Rightarrow> vswitch" where
  "upd_uplink k f vs = vs\<lparr>vs_uplinks := (vs_uplinks vs)[k := f (vs_uplinks vs ! k)]\<rparr>"

definition set_uplink_mtu :: "ssh_env \<Rightarrow> int \<Rightarrow> unit vsm" where
  "set_uplink_mtu env mtu =
     bindE (getE fst) (\<lambda>vs.
     forE (concat (map br_uplinks (vs_bridges vs))) (\<lambda>u.
       vs_run env (fmt [''ovs-vsctl set Interface '', py_str (up_name (deref vs u)),
         '' mtu_request='', int_str mtu])))"

text \<open>The options of an uplink that have been set, and \<open>ethtool\<close> for the kernel datapath.\<close>

definition dpdk_uplink_options :: "uplink \<Rightarrow> string" where
  "dpdk_uplink_options u =
     (if truthy (up_n_queue_pair u)
      then fmt [''options:n_rxq='', py_str (up_n_queue_pair u), '' options:n_txq='', py_str (up_n_queue_pair u), '' '']
      else [])
     @ (if truthy (up_n_rxq_desc u) then fmt [''options:n_rxq_desc='', py_str (up_n_rxq_desc u), '' ''] else [])
     @ (if truthy (up_n_txq_desc u) then fmt [''options:n_txq_desc='', py_str (up_n_txq_desc u), '' ''] else [])"

definition ethtool :: "ssh_env \<Rightarrow> uplink \<Rightarrow> string \<Rightarrow> string \<Rightarrow> pyval \<Rightarrow> unit vsm" where
  "ethtool env u flag what n =
     whenE (truthy n)
       (let cmd = fmt [''ethtool '', flag, '' '', py_str (up_name u), '' '', what, '' '', py_str n] in
        bindE (vs_host env cmd) (\<lambda>res.
        case res of
          Some (ret_code, _, er) \<Rightarrow>
            whenE (ret_code \<noteq> 0) (on_snd (logE LWarn (fmt [''cmd['', cmd, ''] failed: '', er])))
        | None \<Rightarrow> on_snd (logE LWarn (fmt [''cmd['', cmd, ''] failed: None'']))))"

definition create_uplink_interface_impl :: "ssh_env \<Rightarrow> string \<Rightarrow> uplink \<Rightarrow> unit vsm" where
  "create_uplink_interface_impl env br u =
     bindE (getE (vs_kind \<circ> fst)) (\<lambda>kind.
     case kind of
       OvsDpdk ps \<Rightarrow>
         vs_run env (fmt [''ovs-vsctl add-port '', br, '' '', py_str (up_name u), '' -- set Interface '',
           py_str (up_name u), '' type=dpdk options:dpdk-devargs='', py_str (up_pci_addr u), '' '',
           dpdk_uplink_options u, '' ofport_request='', py_str (up_ofp u)])
     | OvsNative \<Rightarrow>
         thenE (ethtool env u ''-L'' ''combined'' (up_n_queue_pair u))
        (thenE (ethtool env u ''-G'' ''rx'' (up_n_rxq_desc u))
        (thenE (ethtool env u ''-G'' ''tx'' (up_n_txq_desc u))
        (thenE (vs_run env (fmt [''ovs-vsctl add-port '', br, '' '', py_str (up_name u), '' -- set Interface '',
                  py_str (up_name u), '' ofport_request='', py_str (up_ofp u)]))
               (vs_run_host env (fmt [''ip link set '', py_str (up_name u), '' up'']))))))"

definition bond_uplink :: uplink where
  "bond_uplink = (Uplink PNone)\<lparr>up_name := PStr ''bondif'', up_ofp := PInt OFP_UPLINK_BASE\<rparr>"

definition append_uplink :: "nat \<Rightarrow> uplink_ref \<Rightarrow> unit vsm" where
  "append_uplink i u = modify_bridge i (\<lambda>b. b\<lparr>br_uplinks := br_uplinks b @ [u]\<rparr>)"

definition create_uplink_bond_impl :: "ssh_env \<Rightarrow> nat \<Rightarrow> unit vsm" where
  "create_uplink_bond_impl env i =
     bindE (getE fst) (\<lambda>vs0.
     let name = br_name (vs_bridges vs0 ! i); n = length (vs_uplinks vs0);
         phy_ifs = concat (map (\<lambda>u. fmt ['' '', py_str (up_name u)]) (vs_uplinks vs0)) in
     case vs_kind vs0 of
       OvsDpdk ps \<Rightarrow>
         thenE (forE [0..<n] (\<lambda>k.
                  thenE (on_fst (modifyE (upd_uplink k
                           (\<lambda>u. u\<lparr>up_ofp := PInt (OFP_UPLINK_BASE + 1 + int k)\<rparr>))))
                        (append_uplink i (Phys k))))
        (let ifs_set = concat (map (\<lambda>k. fmt ['' -- set Interface '', py_str (up_name (vs_uplinks vs0 ! k)),
                 '' type=dpdk options:n_rxq=1 options:n_txq=1 options:dpdk-devargs='',
                 py_str (up_pci_addr (vs_uplinks vs0 ! k)),
                 '' ofport_request='', int_str (OFP_UPLINK_BASE + 1 + int k)]) [0..<n]) in
         vs_run env (fmt [''ovs-vsctl add-bond '', name, '' '', py_str (up_name bond_uplink), '' '', phy_ifs,
           '' bond_mode=balance-tcp lacp=active other_config:lacp-time=fast '', ifs_set]))
     | OvsNative \<Rightarrow>
         (let b = py_str (up_name bond_uplink);
              cmds = [''modprobe bonding miimon=100 mode=4 lacp_rate=1'',
                      fmt [''ip link add name '', b, '' type bond''],
                      fmt [''ip link set dev '', b, '' up''],
                      fmt [''ifenslave '', b, '' '', phy_ifs]] in
          thenE (vs_execute_host env (CmdList cmds) 30 (Some False))
         (thenE (vs_run env (fmt [''ovs-vsctl add-port '', name, '' '', b, '' -- set Interface '', b,
                   '' ofport_request='', py_str (up_ofp bond_uplink)]))
                (append_uplink i (Bond bond_uplink)))))"

text \<open>The commands that give the tunnel end point address to the bridge's local port.\<close>

definition tep_cmds :: "if_address \<Rightarrow> string \<Rightarrow> string list" where
  "tep_cmds tep name =
     [fmt [''ip -4 addr add '', ipv4_str_with_prefix tep, '' dev '', name],
      fmt [''ip -6 addr add '', ipv6_str_with_prefix tep, '' dev '', name],
      fmt [''ip link set '', name, '' up''],
      fmt [''ip -4 route flush '', net_str (ia_ipv4_network tep)],
      fmt [''ip -6 route flush '', net_str (ia_ipv6_network tep)],
      fmt [''ip -4 route add '', net_str (ia_ipv4_network tep), '' dev '', name],
      fmt [''ip -6 route add '', net_str (ia_ipv6_network tep), '' dev '', name]]"

definition create_uplink_bridge :: "ssh_env \<Rightarrow> string \<Rightarrow> bool \<Rightarrow> unit vsm" where
  "create_uplink_bridge env name bond =
     bindE (create_bridge env name) (\<lambda>i.
     bindE (getE fst) (\<lambda>vs.
     thenE (vs_execute_host_batch env (tep_cmds (vs_tep_addr vs) name) 30)
    (if \<not> bond then
       (if vs_uplinks vs = [] then raiseE IndexError
        else
          thenE (on_fst (modifyE (upd_uplink 0 (\<lambda>u. u\<lparr>up_ofp := PInt OFP_UPLINK_BASE\<rparr>))))
         (bindE (getE (\<lambda>(vs, w). vs_uplinks vs ! 0)) (\<lambda>u.
          thenE (create_uplink_interface_impl env name u) (append_uplink i (Phys 0)))))
     else create_uplink_bond_impl env i)))"

definition delete_uplink_impl :: "ssh_env \<Rightarrow> uplink \<Rightarrow> unit vsm" where
  "delete_uplink_impl env u =
     bindE (getE (vs_kind \<circ> fst)) (\<lambda>kind.
     case kind of
       OvsDpdk ps \<Rightarrow> retE ()
     | OvsNative \<Rightarrow>
         whenE (\<not> truthy (up_pci_addr u)) (vs_run_host env (fmt [''ip link del dev '', py_str (up_name u)])))"

text \<open>\<open>uplink.ofp = None\<close> through the reference that the bridge holds.\<close>

definition clear_ofp :: "nat \<Rightarrow> nat \<Rightarrow> vswitch \<Rightarrow> vswitch" where
  "clear_ofp i j vs =
     (case br_uplinks (vs_bridges vs ! i) ! j of
        Phys k \<Rightarrow> upd_uplink k (\<lambda>u. u\<lparr>up_ofp := PNone\<rparr>) vs
      | Bond b \<Rightarrow> upd_bridge i (\<lambda>br. br\<lparr>br_uplinks := (br_uplinks br)[j := Bond (b\<lparr>up_ofp := PNone\<rparr>)]\<rparr>) vs)"

definition delete_uplink_bridge :: "ssh_env \<Rightarrow> string \<Rightarrow> unit vsm" where
  "delete_uplink_bridge env name =
     bindE (bridgeE name) (\<lambda>i.
     bindE (getE (\<lambda>(vs, w). length (br_uplinks (vs_bridges vs ! i)))) (\<lambda>n.
     thenE (forE [0..<n] (\<lambda>j.
              thenE (bindE (getE (\<lambda>(vs, w). deref vs (br_uplinks (vs_bridges vs ! i) ! j))) (delete_uplink_impl env))
                    (on_fst (modifyE (clear_ofp i j)))))
           (delete_bridge env name)))"

text \<open>Python's list indexing, negative indices included.\<close>

definition py_nth :: "'a list \<Rightarrow> int \<Rightarrow> 'a res" where
  "py_nth xs i =
     (let n = int (length xs) in
      if 0 \<le> i \<and> i < n then Inr (xs ! nat i)
      else if - n \<le> i \<and> i < 0 then Inr (xs ! nat (n + i))
      else Inl IndexError)"

definition set_bond_member_up :: "ssh_env \<Rightarrow> string \<Rightarrow> int \<Rightarrow> bool \<Rightarrow> unit vsm" where
  "set_bond_member_up env name idx up =
     bindE (readE (\<lambda>(vs, w). py_nth (vs_uplinks vs) idx)) (\<lambda>u.
     let updown = (if up then ''up'' else ''down'') in
     thenE (vs_run env (fmt [''ovs-ofctl mod-port '', name, '' '', py_str (up_name u), '' '', updown]))
    (bindE (getE (vs_kind \<circ> fst)) (\<lambda>kind.
     case kind of
       OvsDpdk ps \<Rightarrow> retE ()
     | OvsNative \<Rightarrow> vs_run_host env (fmt [''ip link set dev '', py_str (up_name u), '' '', updown]))))"

section \<open>Starting and stopping\<close>

definition stop_vswitch :: "ssh_env \<Rightarrow> unit vsm" where
  "stop_vswitch env = thenE (vs_kill_process env ''ovs-vswitchd'') (vs_kill_process env ''ovsdb-server'')"

definition clean_cmds :: "string \<Rightarrow> string list" where
  "clean_cmds bin_dir =
     [''rm -rf /var/run/openvswitch/*'', ''rm -rf /var/log/openvswitch/*'',
      fmt [''rm -rf '', bin_dir, ''/conf.db''],
      ''mkdir -p /var/run/openvswitch'', ''mkdir -p /var/log/openvswitch'']"

definition db_cmds :: "string \<Rightarrow> string list" where
  "db_cmds bin_dir =
     [fmt [''ovsdb-tool create '', bin_dir, ''/conf.db '', bin_dir, ''/vswitch.ovsschema''],
      fmt [''ovsdb-server --remote=punix:/var/run/openvswitch/db.sock --pidfile --detach '', bin_dir, ''/conf.db''],
      ''ovs-vsctl --no-wait init'']"

definition vswitchd_cmd :: string where
  "vswitchd_cmd = ''ovs-vswitchd unix:/var/run/openvswitch/db.sock --log-file --pidfile --detach''"

definition dpdk_start_cmds :: "string \<Rightarrow> dpdk_params \<Rightarrow> string list" where
  "dpdk_start_cmds bin_dir ps =
     (let set_vs = ''ovs-vsctl --no-wait set Open_vSwitch . '' in
      db_cmds bin_dir @
      [fmt [set_vs, ''other_config:dpdk-init=true''],
       fmt [set_vs, ''other_config:dpdk-socket-mem='', dp_socket_mem ps,
            '' other_config:dpdk-hugepage-dir='', dp_huge_mnt ps],
       fmt [set_vs, ''other_config:userspace-tso-enable='', to_lower (py_str (dp_userspace_tso ps))],
       fmt [set_vs, ''other_config:pmd-cpu-mask='', dp_cpu_mask ps],
       vswitchd_cmd])"

text \<open>\<open>attach_gdb\<close> is the value of the Robot variable \<open>ATTACH_GDB\<close>.\<close>

definition start_vswitch_dpdk :: "ssh_env \<Rightarrow> pyval \<Rightarrow> dpdk_params \<Rightarrow> unit vsm" where
  "start_vswitch_dpdk env attach_gdb ps =
     bindE (getE fst) (\<lambda>vs.
     thenE (vs_run_host env (fmt [''modprobe '', dp_driver ps]))
    (thenE (forE [0..<length (vs_uplinks vs)] (\<lambda>k.
       let pci = py_str (up_pci_addr (vs_uplinks vs ! k)) in
       thenE (vs_execute_host_batch env
                [fmt [vs_devbind_cmd vs, '' -u '', pci],
                 fmt [vs_devbind_cmd vs, '' -b '', dp_driver ps, '' '', pci]] 30)
             (on_fst (modifyE (upd_uplink k (\<lambda>u. u\<lparr>up_name := PStr (fmt [''dpdk'', nat_str (k + 1)])\<rparr>))))))
    (thenE (vs_execute_host_batch env (clean_cmds (vs_ovs_bin_dir vs)) 30)
    (thenE (vs_run_host env ''ps -ef|grep ovs'')
    (thenE (vs_execute_batch env (dpdk_start_cmds (vs_ovs_bin_dir vs) ps) 300)
    (bindE (vs_host env ''pgrep ovs-vswitchd'') (\<lambda>res.
     bindE (liftE (case res of None \<Rightarrow> Inl TypeError | Some (_, out, _) \<Rightarrow> py_int out)) (\<lambda>dp_pid.
     whenE (truthy attach_gdb)
      (thenE (vs_execute_host env (CmdStr ''screen -XS gdbscreen quit'') 30 None)
             (vs_run_host env (fmt [''screen -d -m -S gdbscreen bash -c '', dquote,
                ''sudo gdb -ex cont -p '', int_str dp_pid, dquote])))))))))))"

text \<open>The driver of the first line that names the device and a known card.\<close>

definition card_driver :: "string \<Rightarrow> string option" where
  "card_driver line =
     (if str_in ''XL710'' line then Some ''i40e''
      else if str_in ''X710'' line then Some ''i40e''
      else if str_in ''82599'' line then Some ''ixgbe''
      else if str_in ''82540'' line then Some ''e1000''
      else None)"

fun find_driver :: "string \<Rightarrow> string list \<Rightarrow> string option" where
  "find_driver pci [] = None"
| "find_driver pci (line # ls) =
     (if \<not> str_in pci line then find_driver pci ls
      else (case card_driver line of None \<Rightarrow> find_driver pci ls | Some d \<Rightarrow> Some d))"

text \<open>The regular expression \<open>if=(\S+) \<close> (with the space) and the kernel name of a device.\<close>

definition if_regex :: rx where
  "if_regex = RSeq (RLit ''if='') (RSeq (RGrp (RPlus (\<lambda>c. \<not> py_space c))) (RChr (CHR '' '')))"

fun find_if_name :: "string \<Rightarrow> string list \<Rightarrow> string option" where
  "find_if_name pci [] = None"
| "find_if_name pci (line # ls) =
     (if \<not> str_in pci line then find_if_name pci ls
      else (case rx_search if_regex line of
              Some (g # gs) \<Rightarrow> Some g
            | _ \<Rightarrow> find_if_name pci ls))"

text \<open>\<open>line.find(x)\<close> raises on anything but a string.\<close>

definition pci_text :: "uplink \<Rightarrow> string res" where
  "pci_text u = (case up_pci_addr u of PStr s \<Rightarrow> Inr s | _ \<Rightarrow> Inl TypeError)"

definition devbind_status :: "ssh_env \<Rightarrow> string list vsm" where
  "devbind_status env =
     bindE (getE fst) (\<lambda>vs.
     bindE (vs_host env (fmt [vs_devbind_cmd vs, '' --status''])) (\<lambda>res.
     liftE (case res of None \<Rightarrow> Inl AttributeError | Some (_, out, _) \<Rightarrow> Inr (split_on nl out))))"

definition start_vswitch_native :: "ssh_env \<Rightarrow> unit vsm" where
  "start_vswitch_native env =
     bindE (devbind_status env) (\<lambda>driver_lines.
     bindE (getE fst) (\<lambda>vs.
     thenE (forE (vs_uplinks vs) (\<lambda>u.
       bindE (liftE (pci_text u)) (\<lambda>pci.
       case find_driver pci driver_lines of
         None \<Rightarrow> raiseE (RuntimeError (fmt [''no kernel driver found for '', pci]))
       | Some driver \<Rightarrow>
           vs_execute_host_batch env
             [fmt [vs_devbind_cmd vs, '' -u '', pci],
              fmt [vs_devbind_cmd vs, '' -b '', driver, '' '', pci]] 30)))
    (bindE (devbind_status env) (\<lambda>driver_lines.
     thenE (forE [0..<length (vs_uplinks vs)] (\<lambda>k.
       bindE (liftE (pci_text (vs_uplinks vs ! k))) (\<lambda>pci.
       let name = (case find_if_name pci driver_lines of
                     Some s \<Rightarrow> PStr s | None \<Rightarrow> up_name (vs_uplinks vs ! k)) in
       if \<not> truthy name then raiseE (RuntimeError (fmt [''no kernel interface found for '', pci]))
       else on_fst (modifyE (upd_uplink k (\<lambda>u. u\<lparr>up_name := name\<rparr>))))))
    (thenE (vs_execute_host_batch env
       (clean_cmds (vs_ovs_bin_dir vs)
        @ [''modprobe nf_conntrack_ipv4'', ''modprobe nf_conntrack_ipv6'', ''modprobe openvswitch'']) 30)
     (vs_execute_batch env (db_cmds (vs_ovs_bin_dir vs) @ [vswitchd_cmd]) 100))))))"

definition start_vswitch :: "ssh_env \<Rightarrow> pyval \<Rightarrow> unit vsm" where
  "start_vswitch env attach_gdb =
     bindE (getE (vs_kind \<circ> fst)) (\<lambda>kind.
     case kind of
       OvsDpdk ps \<Rightarrow> start_vswitch_dpdk env attach_gdb ps
     | OvsNative \<Rightarrow> start_vswitch_native env)"

end
