(* ===== verification/Vswitch_Facts.thy ===== *)
theory Vswitch_Facts imports Vswitch_Uplinks "HOL-Library.Multiset" begin

text \<open>
  What the switch objects promise: the commands they send and in which order, that a port number is
  never handed to two tunnel ports of a bridge at the same time, and that the VNI map of a bridge
  always lists exactly the bridge's interfaces.
\<close>

section \<open>Commands\<close>

text \<open>A command of the switch's host, as it is sent.\<close>

definition host_cmd :: "vswitch \<Rightarrow> string \<Rightarrow> node \<times> cmd_arg" where
  "host_cmd vs cmd = (vs_ssh_info vs, CmdStr (''sudo -E -S '' @ cmd))"

definition ovs_cmd :: "vswitch \<Rightarrow> string \<Rightarrow> node \<times> cmd_arg" where
  "ovs_cmd vs cmd = host_cmd vs (vs_ovs_bin_dir vs @ ''/'' @ cmd)"

lemma wire_str: "wire True (CmdStr c) = CmdStr (''sudo -E -S '' @ c)"
  by (simp add: wire_def sudo_cmd_def fmt_def)

lemma vs_execute_frame [frame]: "frameE fst (vs_execute env cmd t)"
  unfolding vs_execute_def by (intro frame) (auto split: option.splits intro!: frame)

lemma vs_execute_host_frame [frame]: "frameE fst (vs_execute_host env cmd t f)"
  unfolding vs_execute_host_def Let_def by (intro frame)

lemma vs_run_frame [frame]: "frameE fst (vs_run env cmd)"
  unfolding vs_run_def by (intro frame)

lemma vs_run_host_frame [frame]: "frameE fst (vs_run_host env cmd)"
  unfolding vs_run_host_def vs_host_def by (intro frame)

lemma vs_batch_frame [frame]:
  "frameE fst (vs_execute_batch env cmds t)" "frameE fst (vs_execute_host_batch env cmds t)"
  unfolding vs_execute_batch_def vs_execute_host_batch_def by (intro frame)+

lemma vs_kill_frame [frame]: "frameE fst (vs_kill_process env p)"
  unfolding vs_kill_process_def by (intro frame)

text \<open>One call sends at most its command, and a call that returns has sent it.\<close>

lemma vs_execute_sends:
  assumes "vs_execute env cmd t (vs, w) = (r, (vs', w'))"
  shows "(w_sent w' = w_sent w \<or> w_sent w' = w_sent w @ [ovs_cmd vs cmd])
     \<and> (\<forall>x. r = Inr x \<longrightarrow> w_sent w' = w_sent w @ [ovs_cmd vs cmd])"
proof -
  obtain r1 w1 where 1: "exec_cmd env (Some (vs_ssh_info vs))
      (CmdStr (fmt [vs_ovs_bin_dir vs, ''/'', cmd])) (Some t) True False w = (r1, w1)"
    by fastforce
  note s = exec_cmd_sends [OF 1]
  have "w' = w1" "\<And>x. r = Inr x \<Longrightarrow> \<exists>y. r1 = Inr (Some y)"
    using assms 1 by (auto simp: vs_execute_def em_simps split: sum.splits option.splits if_splits)
  then show ?thesis
    using s by (auto simp: ovs_cmd_def host_cmd_def wire_str fmt_def)
qed

lemma vs_execute_host_sends:
  assumes "vs_execute_host env cmd t f (vs, w) = (r, (vs', w'))"
  shows "(w_sent w' = w_sent w \<or> w_sent w' = w_sent w @ [(vs_ssh_info vs, wire True cmd)])
     \<and> (f = Some False \<longrightarrow> (\<forall>x. r = Inr x \<longrightarrow> w_sent w' = w_sent w @ [(vs_ssh_info vs, wire True cmd)]))"
proof -
  obtain r1 w1 where 1: "exec_cmd env (Some (vs_ssh_info vs)) cmd (Some t) True False w = (r1, w1)"
    by fastforce
  note s = exec_cmd_sends [OF 1]
  have "w' = w1" "\<And>x. f = Some False \<Longrightarrow> r = Inr x \<Longrightarrow> \<exists>y. r1 = Inr (Some y)"
    using assms 1
    by (auto simp: vs_execute_host_def Let_def em_simps split: sum.splits option.splits if_splits)
  then show ?thesis using s by blast
qed

text \<open>A computation of a switch, run on a world with the switch object held fixed.\<close>

definition with_vs :: "vswitch \<Rightarrow> 'a vsm \<Rightarrow> (world, 'a) em" where
  "with_vs vs m = (\<lambda>w. case m (vs, w) of (r, (vs', w')) \<Rightarrow> (r, w'))"

lemma with_vs_run: "frameE fst m \<Longrightarrow> with_vs vs m w = (r, w') \<longleftrightarrow> m (vs, w) = (r, (vs, w'))"
  by (auto simp: with_vs_def frameE_def split: prod.splits) (metis fst_conv snd_conv)+

lemma with_vs_for:
  assumes "\<And>c. frameE fst (b c)"
  shows "with_vs vs (forE cs b) = forE cs (\<lambda>c. with_vs vs (b c))"
proof (induction cs)
  case Nil
  then show ?case by (simp add: with_vs_def retE_def)
next
  case (Cons c cs)
  have "with_vs vs (forE (c # cs) b) w = forE (c # cs) (\<lambda>c. with_vs vs (b c)) w" for w
  proof -
    obtain r vs1 w1 where 1: "b c (vs, w) = (r, (vs1, w1))" by (rule prod_cases3)
    then have "vs1 = vs" using frameE_D [OF assms 1] by simp
    with 1 Cons.IH show ?thesis
      by (simp add: em_simps with_vs_def split: sum.splits) metis
  qed
  then show ?case by blast
qed

interpretation vs_host_runner: cmd_runner
  "\<lambda>c. with_vs vs (vs_execute_host env (CmdStr c) t f)" w_sent "host_cmd vs" for vs env t f
proof
  fix c s
  obtain r vs' w' where "vs_execute_host env (CmdStr c) t f (vs, s) = (r, (vs', w'))"
    by (rule prod_cases3)
  then show "w_sent (snd (with_vs vs (vs_execute_host env (CmdStr c) t f) s)) = w_sent s \<or>
      w_sent (snd (with_vs vs (vs_execute_host env (CmdStr c) t f) s)) = w_sent s @ [host_cmd vs c]"
    using vs_execute_host_sends by (fastforce simp: with_vs_def host_cmd_def wire_str)
qed

interpretation vs_host_batch: strict_runner
  "\<lambda>c. with_vs vs (vs_execute_host env (CmdStr c) t (Some False))" w_sent "host_cmd vs" for vs env t
proof
  fix c s r
  obtain r1 vs' w' where 1: "vs_execute_host env (CmdStr c) t (Some False) (vs, s) = (r1, (vs', w'))"
    by (rule prod_cases3)
  assume "fst (with_vs vs (vs_execute_host env (CmdStr c) t (Some False)) s) = Inr r"
  with 1 vs_execute_host_sends [OF 1]
  show "w_sent (snd (with_vs vs (vs_execute_host env (CmdStr c) t (Some False)) s)) = w_sent s @ [host_cmd vs c]"
    by (simp add: with_vs_def host_cmd_def wire_str)
qed

interpretation vs_ovs_batch: strict_runner
  "\<lambda>c. with_vs vs (vs_execute env c t)" w_sent "ovs_cmd vs" for vs env t
proof
  fix c s
  obtain r1 vs' w' where 1: "vs_execute env c t (vs, s) = (r1, (vs', w'))"
    by (rule prod_cases3)
  show "w_sent (snd (with_vs vs (vs_execute env c t) s)) = w_sent s \<or>
      w_sent (snd (with_vs vs (vs_execute env c t) s)) = w_sent s @ [ovs_cmd vs c]"
    using 1 vs_execute_sends [OF 1] by (simp add: with_vs_def)
  show "w_sent (snd (with_vs vs (vs_execute env c t) s)) = w_sent s @ [ovs_cmd vs c]"
    if "fst (with_vs vs (vs_execute env c t) s) = Inr r" for r
    using that 1 vs_execute_sends [OF 1] by (cases r) (simp add: with_vs_def)
qed

text \<open>What a call that returned has done, as rules for reading off the commands of a method.\<close>

lemma ret_execute:
  assumes "vs_execute env cmd t s = (Inr x, s')"
  shows "fst s' = fst s \<and> w_sent (snd s') = w_sent (snd s) @ [ovs_cmd (fst s) cmd]"
proof -
  obtain vs w vs' w' where s: "s = (vs, w)" "s' = (vs', w')" by (cases s; cases s')
  with frameE_D [OF vs_execute_frame assms] vs_execute_sends [of env cmd t vs w "Inr x" vs' w'] assms
  show ?thesis by (cases x) auto
qed

lemma ret_run:
  "vs_run env cmd s = (Inr x, s') \<Longrightarrow>
   fst s' = fst s \<and> w_sent (snd s') = w_sent (snd s) @ [ovs_cmd (fst s) cmd]"
  by (auto simp: vs_run_def returns dest!: ret_execute)

lemma ret_execute_host:
  assumes "vs_execute_host env cmd t (Some False) s = (Inr x, s')"
  shows "fst s' = fst s \<and> w_sent (snd s') = w_sent (snd s) @ [(vs_ssh_info (fst s), wire True cmd)]"
proof -
  obtain vs w vs' w' where s: "s = (vs, w)" "s' = (vs', w')" by (cases s; cases s')
  with frameE_D [OF vs_execute_host_frame assms]
    vs_execute_host_sends [of env cmd t "Some False" vs w "Inr x" vs' w'] assms
  show ?thesis by auto
qed

lemma ret_execute_any:
  assumes "vs_execute_host env (CmdStr cmd) t f s = (Inr x, s')"
  shows "fst s' = fst s \<and> (w_sent (snd s') = w_sent (snd s)
     \<or> w_sent (snd s') = w_sent (snd s) @ [host_cmd (fst s) cmd])"
proof -
  obtain vs w vs' w' where s: "s = (vs, w)" "s' = (vs', w')" by (cases s; cases s')
  with frameE_D [OF vs_execute_host_frame assms]
    vs_execute_host_sends [of env "CmdStr cmd" t f vs w "Inr x" vs' w'] assms
  show ?thesis by (auto simp: host_cmd_def wire_str)
qed

lemma ret_host:
  "vs_host env cmd s = (Inr x, s') \<Longrightarrow>
   fst s' = fst s \<and> w_sent (snd s') = w_sent (snd s) @ [host_cmd (fst s) cmd]"
  by (auto simp: vs_host_def host_cmd_def wire_str dest!: ret_execute_host)

lemma ret_run_host:
  "vs_run_host env cmd s = (Inr x, s') \<Longrightarrow>
   fst s' = fst s \<and> w_sent (snd s') = w_sent (snd s) @ [host_cmd (fst s) cmd]"
  by (auto simp: vs_run_host_def returns dest!: ret_host)

lemma batch_with_vs:
  assumes "\<And>c. frameE fst (run c)" "forE cs (\<lambda>c. thenE (run c) (retE ())) (vs, w) = (r, (vs', w'))"
  shows "vs' = vs \<and> forE cs (\<lambda>c. thenE (with_vs vs (run c)) (retE ())) w = (r, w')"
proof -
  let ?b = "\<lambda>c. thenE (run c) (retE ())"
  have fr: "frameE fst (?b c)" for c
    using assms(1) by (intro frame)
  have body: "with_vs vs (?b c) = thenE (with_vs vs (run c)) (retE ())" for c
    by (rule ext) (auto simp: with_vs_def em_simps split: prod.splits sum.splits)
  have all: "frameE fst (forE cs ?b)"
    by (rule frame_for) (rule fr)
  have vs': "vs' = vs"
    using frameE_D [OF all assms(2)] by simp
  then have "with_vs vs (forE cs ?b) w = (r, w')"
    using assms(2) by (simp add: with_vs_run [OF all])
  then show ?thesis
    unfolding with_vs_for [of ?b, OF fr] body using vs' by simp
qed

lemma ret_execute_batch:
  assumes "vs_execute_batch env cmds t s = (Inr x, s')"
  shows "fst s' = fst s \<and> w_sent (snd s') = w_sent (snd s) @ map (ovs_cmd (fst s)) cmds"
proof -
  obtain vs w vs' w' where s: "s = (vs, w)" "s' = (vs', w')" by (cases s; cases s')
  with assms have "vs' = vs \<and> forE cmds
      (\<lambda>c. thenE (with_vs vs (vs_execute env c t)) (retE ())) w = (Inr x, w')"
    by (intro batch_with_vs) (simp_all add: frame vs_execute_batch_def)
  with s vs_ovs_batch.batch_returns_all [where cs = cmds and s = w and vs = vs and env = env and t = t] show ?thesis by simp
qed

lemma ret_host_batch:
  assumes "vs_execute_host_batch env cmds t s = (Inr x, s')"
  shows "fst s' = fst s \<and> w_sent (snd s') = w_sent (snd s) @ map (host_cmd (fst s)) cmds"
proof -
  obtain vs w vs' w' where s: "s = (vs, w)" "s' = (vs', w')" by (cases s; cases s')
  with assms have "vs' = vs \<and> forE cmds
      (\<lambda>c. thenE (with_vs vs (vs_execute_host env (CmdStr c) t (Some False))) (retE ())) w = (Inr x, w')"
    by (intro batch_with_vs) (simp_all add: frame vs_execute_host_batch_def)
  with s vs_host_batch.batch_returns_all [where cs = cmds and s = w and vs = vs and env = env and t = t] show ?thesis by simp
qed

lemmas ret_cmds = ret_execute ret_run ret_host ret_run_host ret_execute_batch ret_host_batch

end
