(* ===== verification/Vswitch_Inv.thy ===== *)
theory Vswitch_Inv imports Vswitch_Facts begin

text \<open>
  The invariant of a switch object under its methods: the port numbers of a bridge's tunnel ports and
  those still in its pool are pairwise different and from the tunnel range, and the bridge's map from
  VNIs to interfaces lists exactly the interfaces attached to it.
\<close>

section \<open>Pools of numbers\<close>

text \<open>
  What a client relies on: \<open>get\<close> hands out a number that leaves the pool, \<open>put\<close> adds one.  A client
  that only puts back numbers it owns never owns a number twice.
\<close>

locale id_pool =
  fixes pget :: "'p \<Rightarrow> (int \<times> 'p) res"
    and pput :: "int \<Rightarrow> 'p \<Rightarrow> 'p"
    and avail :: "'p \<Rightarrow> int multiset"
  assumes pget_avail: "pget p = Inr (i, p') \<Longrightarrow> avail p = add_mset i (avail p')"
    and pput_avail: "avail (pput i p) = add_mset i (avail p)"
begin

lemma get_keeps:
  "avail p + owned \<subseteq># U \<Longrightarrow> pget p = Inr (i, p') \<Longrightarrow> avail p' + add_mset i owned \<subseteq># U"
  using pget_avail by fastforce

lemma lost_keeps:
  "avail p + owned \<subseteq># U \<Longrightarrow> pget p = Inr (i, p') \<Longrightarrow> avail p' + owned \<subseteq># U"
  using pget_avail [of p i p'] by (auto dest!: mset_subset_eq_insertD intro: subset_mset.less_imp_le)

lemma put_keeps:
  "avail p + owned \<subseteq># U \<Longrightarrow> i \<in># owned \<Longrightarrow> avail (pput i p) + (owned - {#i#}) \<subseteq># U"
  by (simp add: pput_avail)

lemma get_fresh:
  assumes "avail p + owned \<subseteq># mset us" "distinct us" "pget p = Inr (i, p')"
  shows "i \<notin># owned \<and> i \<in> set us"
proof -
  have sub: "add_mset i owned \<subseteq># mset us"
    using get_keeps [OF assms(1,3)] by (meson mset_subset_eq_add_right subset_mset.order_trans)
  then have "count (add_mset i owned) i \<le> count (mset us) i" by (rule mset_subset_eq_count)
  also have "\<dots> \<le> 1" using assms(2) by (simp add: distinct_count_atmost_1)
  finally have "i \<notin># owned" by (simp add: not_in_iff)
  moreover have "i \<in># mset us" using sub by (meson mset_subset_eqD union_single_eq_member)
  ultimately show ?thesis by simp
qed

end

interpretation ofp_pool: id_pool ida_get ida_put "\<lambda>a. mset (ida_ids a)"
  by unfold_locales (auto simp: ida_get_def ida_put_def split: list.splits)

section \<open>The invariant\<close>

definition tunnel_range :: "int list" where
  "tunnel_range = [OFP_TUNNEL_BASE..OFP_TUNNEL_BASE + 100]"

definition bridge_ok :: "bridge \<Rightarrow> bool" where
  "bridge_ok b \<longleftrightarrow>
     mset (ida_ids (br_ids_tunnel b)) + mset (map tp_ofp (br_tnl_ports b)) \<subseteq># mset tunnel_range
     \<and> mset (concat (map snd (br_vnis b))) = mset (br_vifs b)
     \<and> distinct (map fst (br_vnis b))"

definition vs_ok :: "vswitch \<Rightarrow> bool" where
  "vs_ok vs \<longleftrightarrow> (\<forall>b \<in> set (vs_bridges vs). bridge_ok b)"

lemma distinct_tunnel_range: "distinct tunnel_range"
  by (simp add: tunnel_range_def)

lemma distinct_mset_sub: "mset xs \<subseteq># mset ys \<Longrightarrow> distinct ys \<Longrightarrow> distinct xs"
proof -
  assume sub: "mset xs \<subseteq># mset ys" and ys: "distinct ys"
  have "count (mset xs) a = (if a \<in> set xs then 1 else 0)" for a
  proof (cases "a \<in> set xs")
    case True
    then have "0 < count (mset xs) a" by simp
    moreover have "count (mset xs) a \<le> count (mset ys) a" using sub by (rule mset_subset_eq_count)
    moreover have "count (mset ys) a \<le> 1" using ys by (simp add: distinct_count_atmost_1)
    ultimately have "count (mset xs) a = 1" by linarith
    with True show ?thesis by simp
  next
    case False
    then show ?thesis by (simp add: count_mset_0_iff)
  qed
  then show ?thesis by (simp add: distinct_count_atmost_1)
qed

lemma bridge_ok_ports:
  assumes "bridge_ok b"
  shows "distinct (map tp_ofp (br_tnl_ports b)) \<and> set (map tp_ofp (br_tnl_ports b)) \<subseteq> {100..200}
     \<and> set (map tp_ofp (br_tnl_ports b)) \<inter> set (ida_ids (br_ids_tunnel b)) = {}"
proof -
  let ?all = "ida_ids (br_ids_tunnel b) @ map tp_ofp (br_tnl_ports b)"
  have sub: "mset ?all \<subseteq># mset tunnel_range" using assms by (simp add: bridge_ok_def)
  then have "distinct ?all"
    using distinct_mset_sub distinct_tunnel_range by blast
  moreover have "set ?all \<subseteq> set tunnel_range"
    using set_mset_mono [OF sub] by simp
  moreover have "set tunnel_range = {100..200}"
    unfolding tunnel_range_def OFP_TUNNEL_BASE_def set_upto by simp
  ultimately show ?thesis by auto
qed

lemma bridge_ok_new: "bridge_ok (Bridge name)"
  by (simp add: bridge_ok_def Bridge_def IDAllocator_def tunnel_range_def)

section \<open>The VNI map\<close>

lemma vnis_add_mset: "mset (concat (map snd (vnis_add k v m))) = add_mset v (mset (concat (map snd m)))"
  by (induction k v m rule: vnis_add.induct) simp_all

lemma vnis_add_keys:
  "map fst (vnis_add k v m) = (if k \<in> set (map fst m) then map fst m else map fst m @ [k])"
  by (induction k v m rule: vnis_add.induct) auto

lemma vnis_add_lookup:
  "map_of (vnis_add k v m) j =
     (if j = k then Some ((case map_of m k of None \<Rightarrow> [] | Some vs \<Rightarrow> vs) @ [v]) else map_of m j)"
  by (induction k v m rule: vnis_add.induct) auto

lemma bridge_ok_add_vif: "bridge_ok b \<Longrightarrow> bridge_ok (bridge_add_vif store v b)"
  by (auto simp: bridge_ok_def bridge_add_vif_def bridge_add_vni_def vnis_add_mset vnis_add_keys
      simp del: concat_map_singleton)

lemma fold_add_vni:
  "fold (bridge_add_vni store) vs b
     = b\<lparr>br_vnis := fold (\<lambda>v m. vnis_add (vif_vni (store v)) v m) vs (br_vnis b)\<rparr>"
  by (induction vs arbitrary: b) (simp_all add: bridge_add_vni_def)

text \<open>The groups that the interfaces of a list form by their VNI.\<close>

definition group_vnis :: "(nat \<Rightarrow> vif) \<Rightarrow> nat list \<Rightarrow> (pyval \<times> nat list) list \<Rightarrow> (pyval \<times> nat list) list" where
  "group_vnis store vs m = fold (\<lambda>v m. vnis_add (vif_vni (store v)) v m) vs m"

lemma refresh_vnis_eq: "refresh_vnis store b = b\<lparr>br_vnis := group_vnis store (br_vifs b) []\<rparr>"
  by (simp add: refresh_vnis_def fold_add_vni group_vnis_def)

lemma group_vnis_mset:
  "mset (concat (map snd (group_vnis store vs m))) = mset vs + mset (concat (map snd m))"
  unfolding group_vnis_def by (induction vs arbitrary: m) (simp_all add: vnis_add_mset)

lemma group_vnis_distinct: "distinct (map fst m) \<Longrightarrow> distinct (map fst (group_vnis store vs m))"
  unfolding group_vnis_def by (induction vs arbitrary: m) (auto simp: vnis_add_keys)

lemma group_vnis_lookup:
  "map_of (group_vnis store vs m) k =
     (let new = filter (\<lambda>v. vif_vni (store v) = k) vs in
      if new = [] then map_of m k
      else Some ((case map_of m k of None \<Rightarrow> [] | Some old \<Rightarrow> old) @ new))"
  unfolding group_vnis_def
  by (induction vs arbitrary: m) (auto simp: vnis_add_lookup Let_def split: option.splits)

lemma bridge_ok_refresh: "bridge_ok b \<Longrightarrow> bridge_ok (refresh_vnis store b)"
  using group_vnis_mset [of store "br_vifs b" "[]"] group_vnis_distinct [of "[]" store "br_vifs b"]
  by (simp add: bridge_ok_def refresh_vnis_eq)

section \<open>The methods keep the invariant\<close>

lemma vs_ok_bridges: "vs_bridges vs' = vs_bridges vs \<Longrightarrow> vs_ok vs' = vs_ok vs"
  by (simp add: vs_ok_def)

lemma vs_ok_upd:
  assumes "vs_ok vs" "\<And>b. bridge_ok b \<Longrightarrow> bridge_ok (f b)"
  shows "vs_ok (upd_bridge i f vs)"
proof (cases "i < length (vs_bridges vs)")
  case True
  then have "bridge_ok (f (vs_bridges vs ! i))"
    using assms by (simp add: vs_ok_def)
  then show ?thesis
    using assms(1) set_update_subset_insert [of "vs_bridges vs" i] by (auto simp: vs_ok_def upd_bridge_def)
next
  case False
  then show ?thesis using assms(1) by (simp add: vs_ok_def upd_bridge_def list_update_beyond)
qed

lemma keeps_frame: "frameE fst m \<Longrightarrow> keepsE (\<lambda>s. Q (fst s)) m"
  by (rule frameE_keeps)

lemma keeps_cmds [keeps]:
  "keepsE (\<lambda>s. Q (fst s)) (vs_execute env c t)"
  "keepsE (\<lambda>s. Q (fst s)) (vs_execute_host env a t f)"
  "keepsE (\<lambda>s. Q (fst s)) (vs_host env c)"
  "keepsE (\<lambda>s. Q (fst s)) (vs_run env c)"
  "keepsE (\<lambda>s. Q (fst s)) (vs_run_host env c)"
  "keepsE (\<lambda>s. Q (fst s)) (vs_execute_batch env cs t)"
  "keepsE (\<lambda>s. Q (fst s)) (vs_execute_host_batch env cs t)"
  "keepsE (\<lambda>s. Q (fst s)) (vs_kill_process env c)"
  "keepsE (\<lambda>s. Q (fst s)) (on_snd m)"
  by (rule keeps_frame; (intro frame | unfold vs_host_def, intro frame))+

lemma keeps_bridgeE [keeps]: "keepsE P (bridgeE name)"
  unfolding bridgeE_def by (rule keeps_read)

lemma keeps_modify_bridge:
  "(\<And>b. bridge_ok b \<Longrightarrow> bridge_ok (f b)) \<Longrightarrow> keepsE (\<lambda>s. vs_ok (fst s)) (modify_bridge i f)"
  by (auto simp: modify_bridge_def keepsE_def em_simps vs_ok_upd)

lemma keeps_upd_uplink [keeps]: "keepsE (\<lambda>s. vs_ok (fst s)) (on_fst (modifyE (upd_uplink k f)))"
  by (auto simp: keepsE_def em_simps upd_uplink_def vs_ok_def)

lemma keeps_clear_ofp [keeps]: "keepsE (\<lambda>s. vs_ok (fst s)) (on_fst (modifyE (clear_ofp i j)))"
proof -
  have "vs_ok (clear_ofp i j vs)" if "vs_ok vs" for vs
  proof (cases "br_uplinks (vs_bridges vs ! i) ! j")
    case (Phys k)
    then show ?thesis using that by (simp add: clear_ofp_def upd_uplink_def vs_ok_def)
  next
    case (Bond u)
    then have "clear_ofp i j vs =
        upd_bridge i (\<lambda>br. br\<lparr>br_uplinks := (br_uplinks br)[j := Bond (u\<lparr>up_ofp := PNone\<rparr>)]\<rparr>) vs"
      by (simp add: clear_ofp_def)
    also have "vs_ok \<dots>"
      using that by (rule vs_ok_upd) (simp add: bridge_ok_def)
    finally show ?thesis .
  qed
  then show ?thesis by (auto simp: keepsE_def em_simps)
qed

lemma keeps_append_uplink [keeps]: "keepsE (\<lambda>s. vs_ok (fst s)) (append_uplink i u)"
  unfolding append_uplink_def by (rule keeps_modify_bridge) (simp add: bridge_ok_def)

lemma keeps_add_vif_to [keeps]: "keepsE (\<lambda>s. vs_ok (fst s)) (add_vif_to i v)"
  by (auto simp: add_vif_to_def keepsE_def em_simps intro!: vs_ok_upd bridge_ok_add_vif)

lemma keeps_create_bridge [keeps]: "keepsE (\<lambda>s. vs_ok (fst s)) (create_bridge env name)"
proof -
  have "keepsE (\<lambda>s. vs_ok (fst s)) (on_fst (modifyE (\<lambda>vs. vs\<lparr>vs_bridges := vs_bridges vs @ [Bridge name]\<rparr>)))"
    by (auto simp: keepsE_def em_simps vs_ok_def bridge_ok_new)
  then show ?thesis
    unfolding create_bridge_def create_bridge_impl_def
    by (intro keeps) (auto split: vs_kind.splits intro!: keeps)
qed

lemma keeps_delete_bridge [keeps]: "keepsE (\<lambda>s. vs_ok (fst s)) (delete_bridge env name)"
proof -
  have "keepsE (\<lambda>s. vs_ok (fst s)) (on_fst (modifyE
      (\<lambda>vs. vs\<lparr>vs_bridges := take i (vs_bridges vs) @ drop (Suc i) (vs_bridges vs)\<rparr>)))" for i
    by (auto simp: keepsE_def em_simps vs_ok_def dest: in_set_takeD in_set_dropD)
  then show ?thesis
    unfolding delete_bridge_def by (intro keeps) (auto split: option.splits intro!: keeps)
qed

lemma keeps_refresh [keeps]: "keepsE (\<lambda>s. vs_ok (fst s)) refresh_bridge_vnis"
  by (auto simp: refresh_bridge_vnis_def keepsE_def em_simps vs_ok_def bridge_ok_refresh)

lemma keeps_create_vhost [keeps]: "keepsE (\<lambda>s. vs_ok (fst s)) (create_vhost_user_interface env br r)"
  unfolding create_vhost_user_interface_def create_vhost_impl_def
  by (intro keeps) (auto split: vs_kind.splits intro!: keeps)

lemma keeps_small [keeps]:
  "keepsE (\<lambda>s. vs_ok (fst s)) (delete_interface env br c)"
  "keepsE (\<lambda>s. vs_ok (fst s)) (set_port_vlan env c p)"
  "keepsE (\<lambda>s. vs_ok (fst s)) (set_vlan_limit env n)"
  "keepsE (\<lambda>s. vs_ok (fst s)) (set_uplink_mtu env n)"
  "keepsE (\<lambda>s. vs_ok (fst s)) (stop_vswitch env)"
  unfolding delete_interface_def set_port_vlan_def set_vlan_limit_def set_uplink_mtu_def stop_vswitch_def
  by (intro keeps)+

lemma keeps_ethtool [keeps]: "keepsE (\<lambda>s. vs_ok (fst s)) (ethtool env u a b n)"
  unfolding ethtool_def Let_def
  by (intro keeps) (auto split: option.splits intro!: keeps)

lemma keeps_uplink_impls [keeps]:
  "keepsE (\<lambda>s. vs_ok (fst s)) (create_uplink_interface_impl env br u)"
  "keepsE (\<lambda>s. vs_ok (fst s)) (create_uplink_bond_impl env i)"
  "keepsE (\<lambda>s. vs_ok (fst s)) (delete_uplink_impl env u)"
  unfolding create_uplink_interface_impl_def create_uplink_bond_impl_def delete_uplink_impl_def Let_def
  by (intro keeps; auto split: vs_kind.splits intro!: keeps)+

lemma keeps_uplink_bridge [keeps]:
  "keepsE (\<lambda>s. vs_ok (fst s)) (create_uplink_bridge env name bond)"
  "keepsE (\<lambda>s. vs_ok (fst s)) (delete_uplink_bridge env name)"
  unfolding create_uplink_bridge_def delete_uplink_bridge_def by (auto intro!: keeps)

lemma keeps_set_bond_member [keeps]: "keepsE (\<lambda>s. vs_ok (fst s)) (set_bond_member_up env name i up)"
  unfolding set_bond_member_up_def Let_def
  by (intro keeps) (auto split: vs_kind.splits intro!: keeps)

lemma keeps_start [keeps]: "keepsE (\<lambda>s. vs_ok (fst s)) (start_vswitch env g)"
  unfolding start_vswitch_def start_vswitch_dpdk_def start_vswitch_native_def devbind_status_def Let_def
  by (intro keeps; auto split: vs_kind.splits option.splits intro!: keeps)

section \<open>Tunnel ports\<close>

lemma index_of_update:
  "p y = p (xs ! i) \<Longrightarrow> index_of p (xs[i := y]) = index_of p xs"
proof (induction xs arbitrary: i)
  case (Cons x xs)
  then show ?case by (cases i) auto
qed simp

lemma index_of_Some: "index_of p xs = Some i \<Longrightarrow> i < length xs \<and> p (xs ! i) \<and> (\<forall>j<i. \<not> p (xs ! j))"
proof (induction xs arbitrary: i)
  case (Cons x xs)
  show ?case
  proof (cases "p x")
    case True
    with Cons.prems show ?thesis by simp
  next
    case False
    with Cons.prems obtain k where k: "index_of p xs = Some k" "i = Suc k" by auto
    with Cons.IH [OF k(1)] False show ?thesis by (auto simp: nth_Cons split: nat.splits)
  qed
qed simp

lemma get_bridge_Some:
  "get_bridge vs name = Some i \<Longrightarrow> i < length (vs_bridges vs) \<and> br_name (vs_bridges vs ! i) = name"
  unfolding get_bridge_def using index_of_Some by fastforce

lemma get_bridge_upd:
  "(\<And>b. br_name (f b) = br_name b) \<Longrightarrow> get_bridge (upd_bridge i f vs) name = get_bridge vs name"
  by (simp add: get_bridge_def upd_bridge_def index_of_update)

lemma upd_bridge_upd: "upd_bridge i g (upd_bridge i f vs) = upd_bridge i (g \<circ> f) vs"
  by (cases "i < length (vs_bridges vs)") (simp_all add: upd_bridge_def list_update_beyond)

lemma upd_bridge_nth: "i < length (vs_bridges vs) \<Longrightarrow> vs_bridges (upd_bridge i f vs) ! i = f (vs_bridges vs ! i)"
  by (simp add: upd_bridge_def)

lemma upd_bridge_fields [simp]:
  "vs_ssh_info (upd_bridge i f vs) = vs_ssh_info vs"
  "vs_ovs_bin_dir (upd_bridge i f vs) = vs_ovs_bin_dir vs"
  "vs_kind (upd_bridge i f vs) = vs_kind vs"
  "vs_uplinks (upd_bridge i f vs) = vs_uplinks vs"
  "vs_tep_addr (upd_bridge i f vs) = vs_tep_addr vs"
  "vs_devbind_cmd (upd_bridge i f vs) = vs_devbind_cmd vs"
  "length (vs_bridges (upd_bridge i f vs)) = length (vs_bridges vs)"
  by (simp_all add: upd_bridge_def)

text \<open>The tunnel port made, and the command that makes it.\<close>

definition tunnel_cmd :: "string \<Rightarrow> string \<Rightarrow> pyval \<Rightarrow> pyval \<Rightarrow> int \<Rightarrow> string" where
  "tunnel_cmd name ty rip vni ofp =
     fmt [''ovs-vsctl add-port '', name, '' '', fmt [ty, int_str ofp], '' -- set Interface '', fmt [ty, int_str ofp],
          '' type='', ty, '' options:remote_ip='', py_str rip, '' options:key='', py_str vni,
          '' ofport_request='', int_str ofp, '' '']"

definition new_tunnel :: "string \<Rightarrow> pyval \<Rightarrow> pyval \<Rightarrow> int \<Rightarrow> tunnel_port" where
  "new_tunnel ty rip vni ofp = \<lparr>tp_name = fmt [ty, int_str ofp], tp_rip = rip, tp_vni = vni, tp_ofp = ofp\<rparr>"

definition take_id :: "int list \<Rightarrow> bridge \<Rightarrow> bridge" where
  "take_id ids b = b\<lparr>br_ids_tunnel := (br_ids_tunnel b)\<lparr>ida_ids := ids\<rparr>\<rparr>"

definition add_tunnel :: "int list \<Rightarrow> tunnel_port \<Rightarrow> bridge \<Rightarrow> bridge" where
  "add_tunnel ids tp b = (take_id ids b)\<lparr>br_tnl_ports := br_tnl_ports b @ [tp]\<rparr>"

text \<open>All ways \<open>create_tunnel_port\<close> can end.\<close>

lemma create_tunnel_cases:
  assumes "create_tunnel_port env name ty rip vni (vs, w) = (r, (vs', w'))"
  obtains (nobridge) "get_bridge vs name = None" "r = Inl AttributeError" "vs' = vs" "w' = w"
    | (empty) i where "get_bridge vs name = Some i" "ida_ids (br_ids_tunnel (vs_bridges vs ! i)) = []"
        "r = Inl IndexError" "vs' = vs" "w' = w"
    | (failed) i ofp ids e where "get_bridge vs name = Some i"
        "ida_ids (br_ids_tunnel (vs_bridges vs ! i)) = ofp # ids" "r = Inl e"
        "vs' = upd_bridge i (take_id ids) vs"
        "w_sent w' = w_sent w \<or> w_sent w' = w_sent w @ [ovs_cmd vs (tunnel_cmd name ty rip vni ofp)]"
    | (made) i ofp ids where "get_bridge vs name = Some i"
        "ida_ids (br_ids_tunnel (vs_bridges vs ! i)) = ofp # ids" "r = Inr (new_tunnel ty rip vni ofp)"
        "vs' = upd_bridge i (add_tunnel ids (new_tunnel ty rip vni ofp)) vs"
        "w_sent w' = w_sent w @ [ovs_cmd vs (tunnel_cmd name ty rip vni ofp)]"
proof (cases "get_bridge vs name")
  case None
  with assms show thesis
    by (intro nobridge) (simp_all add: create_tunnel_port_def bridgeE_def attr_of_def em_simps)
next
  case (Some i)
  note i = get_bridge_Some [OF Some]
  show thesis
  proof (cases "ida_ids (br_ids_tunnel (vs_bridges vs ! i))")
    case Nil
    with Some assms show thesis
      by (intro empty [OF Some]) (simp_all add: create_tunnel_port_def bridgeE_def attr_of_def em_simps
          take_tunnel_id_def ida_get_def)
  next
    case (Cons ofp ids)
    let ?vs1 = "upd_bridge i (take_id ids) vs"
    have pool: "(br_ids_tunnel (vs_bridges vs ! i))\<lparr>ida_ids := ids\<rparr> = br_ids_tunnel (take_id ids (vs_bridges vs ! i))"
      by (simp add: take_id_def)
    have take: "take_tunnel_id i (vs, w) = (Inr ofp, (?vs1, w))"
      using Cons by (simp add: take_tunnel_id_def ida_get_def upd_bridge_def take_id_def)
    have name1: "get_bridge ?vs1 name = Some i"
      using Some by (simp add: get_bridge_upd take_id_def)
    obtain r2 vs2 w2 where run: "vs_execute env (tunnel_cmd name ty rip vni ofp) 30 (?vs1, w) = (r2, (vs2, w2))"
      by (rule prod_cases3)
    have vs2: "vs2 = ?vs1" using frameE_D [OF vs_execute_frame run] by simp
    have sent: "w_sent w2 = w_sent w \<or> w_sent w2 = w_sent w @ [ovs_cmd vs (tunnel_cmd name ty rip vni ofp)]"
      "r2 = Inr x \<Longrightarrow> w_sent w2 = w_sent w @ [ovs_cmd vs (tunnel_cmd name ty rip vni ofp)]" for x
      using vs_execute_sends [OF run] by (cases x; auto simp: ovs_cmd_def host_cmd_def)+
    have all: "(r, (vs', w')) =
        (case r2 of Inl e \<Rightarrow> (Inl e, (?vs1, w2))
         | Inr _ \<Rightarrow> (Inr (new_tunnel ty rip vni ofp),
             (upd_bridge i (\<lambda>b. b\<lparr>br_tnl_ports := br_tnl_ports b @ [new_tunnel ty rip vni ofp]\<rparr>) ?vs1, w2)))"
      using assms [symmetric] Some take run vs2 name1
      by (simp add: create_tunnel_port_def bridgeE_def attr_of_def em_simps vs_run_def modify_bridge_def
          tunnel_cmd_def new_tunnel_def Let_def split: sum.splits)
    have both: "upd_bridge i (\<lambda>b. b\<lparr>br_tnl_ports := br_tnl_ports b @ [tp]\<rparr>) ?vs1 = upd_bridge i (add_tunnel ids tp) vs"
      for tp
      by (simp add: upd_bridge_upd comp_def add_tunnel_def [abs_def] take_id_def)
    show thesis
    proof (cases r2)
      case (Inl e)
      with all sent show thesis by (intro failed [OF Some Cons]) auto
    next
      case (Inr x)
      with all sent both show thesis by (intro made [OF Some Cons]) auto
    qed
  qed
qed

lemma bridge_ok_take:
  assumes "bridge_ok b" "ida_ids (br_ids_tunnel b) = ofp # ids"
  shows "bridge_ok (take_id ids b)" and "tp_ofp tp = ofp \<Longrightarrow> bridge_ok (add_tunnel ids tp b)"
proof -
  have get: "ida_get (br_ids_tunnel b) = Inr (ofp, (br_ids_tunnel b)\<lparr>ida_ids := ids\<rparr>)"
    using assms(2) by (simp add: ida_get_def)
  have b: "mset (ida_ids (br_ids_tunnel b)) + mset (map tp_ofp (br_tnl_ports b)) \<subseteq># mset tunnel_range"
    using assms(1) by (simp add: bridge_ok_def)
  from ofp_pool.lost_keeps [OF b get] assms(1) show "bridge_ok (take_id ids b)"
    by (simp add: bridge_ok_def take_id_def)
  from ofp_pool.get_keeps [OF b get] assms(1) show "tp_ofp tp = ofp \<Longrightarrow> bridge_ok (add_tunnel ids tp b)"
    by (simp add: bridge_ok_def take_id_def add_tunnel_def)
qed

lemma vs_ok_upd_at:
  "vs_ok vs \<Longrightarrow> i < length (vs_bridges vs) \<Longrightarrow> (bridge_ok (vs_bridges vs ! i) \<Longrightarrow> bridge_ok (f (vs_bridges vs ! i)))
     \<Longrightarrow> vs_ok (upd_bridge i f vs)"
  using set_update_subset_insert [of "vs_bridges vs" i "f (vs_bridges vs ! i)"]
  by (auto simp: vs_ok_def upd_bridge_def)

lemma create_tunnel_ok:
  assumes "create_tunnel_port env name ty rip vni (vs, w) = (r, (vs', w'))" "vs_ok vs"
  shows "vs_ok vs'"
  using assms(1)
proof (cases rule: create_tunnel_cases)
  case (failed i ofp ids e)
  then show ?thesis
    using assms(2) get_bridge_Some [OF failed(1)] bridge_ok_take by (auto intro!: vs_ok_upd_at)
next
  case (made i ofp ids)
  then show ?thesis
    using assms(2) get_bridge_Some [OF made(1)] bridge_ok_take(2)
    by (auto intro!: vs_ok_upd_at simp: new_tunnel_def)
qed (use assms(2) in simp_all)

definition drop_tunnel :: "tunnel_port \<Rightarrow> bridge \<Rightarrow> bridge" where
  "drop_tunnel tp b =
     b\<lparr>br_ids_tunnel := ida_put (tp_ofp tp) (br_ids_tunnel b), br_tnl_ports := remove1 tp (br_tnl_ports b)\<rparr>"

lemma delete_tunnel_cases:
  assumes "delete_tunnel_port env name tp (vs, w) = (r, (vs', w'))"
    and "get_bridge vs name = Some i" "tp \<in> set (br_tnl_ports (vs_bridges vs ! i))"
  obtains (failed) e where "r = Inl e" "vs' = vs"
    | (gone) "r = Inr ()" "vs' = upd_bridge i (drop_tunnel tp) vs"
        "w_sent w' = w_sent w @ [ovs_cmd vs (fmt [''ovs-vsctl del-port '', name, '' '', tp_name tp])]"
proof -
  note i = get_bridge_Some [OF assms(2)]
  let ?cmd = "fmt [''ovs-vsctl del-port '', name, '' '', tp_name tp]"
  obtain r1 vs1 w1 where run: "vs_execute env ?cmd 30 (vs, w) = (r1, (vs1, w1))"
    by (rule prod_cases3)
  have vs1: "vs1 = vs" using frameE_D [OF vs_execute_frame run] by simp
  show thesis
  proof (cases r1)
    case (Inl e)
    with assms run vs1 show thesis
      by (intro failed [of e]) (simp_all add: delete_tunnel_port_def delete_interface_def vs_run_def em_simps)
  next
    case (Inr x)
    have sent: "w_sent w1 = w_sent w @ [ovs_cmd vs ?cmd]"
      using vs_execute_sends [OF run] Inr by (cases x) auto
    have "(r, (vs', w')) = (Inr (),
        (upd_bridge i (\<lambda>b. b\<lparr>br_tnl_ports := remove1 tp (br_tnl_ports b)\<rparr>)
          (upd_bridge i (\<lambda>b. b\<lparr>br_ids_tunnel := ida_put (tp_ofp tp) (br_ids_tunnel b)\<rparr>) vs), w1))"
      using assms run vs1 Inr i
      by (simp add: delete_tunnel_port_def delete_interface_def vs_run_def em_simps attr_of_def
          modify_bridge_def upd_bridge_nth)
    then show thesis
      using sent by (intro gone) (simp_all add: upd_bridge_upd comp_def drop_tunnel_def [abs_def])
  qed
qed

lemma bridge_ok_drop:
  assumes "bridge_ok b" "tp \<in> set (br_tnl_ports b)"
  shows "bridge_ok (drop_tunnel tp b)"
proof -
  have b: "mset (ida_ids (br_ids_tunnel b)) + mset (map tp_ofp (br_tnl_ports b)) \<subseteq># mset tunnel_range"
    using assms(1) by (simp add: bridge_ok_def)
  have "tp_ofp tp \<in># mset (map tp_ofp (br_tnl_ports b))" using assms(2) by simp
  moreover have "mset (map tp_ofp (remove1 tp (br_tnl_ports b)))
      = mset (map tp_ofp (br_tnl_ports b)) - {#tp_ofp tp#}"
    using assms(2) by (simp add: image_mset_Diff)
  ultimately show ?thesis
    using ofp_pool.put_keeps [OF b] assms(1) by (simp add: bridge_ok_def drop_tunnel_def)
qed

lemma delete_tunnel_ok:
  assumes "delete_tunnel_port env name tp (vs, w) = (r, (vs', w'))" "vs_ok vs"
    and "get_bridge vs name = Some i" "tp \<in> set (br_tnl_ports (vs_bridges vs ! i))"
  shows "vs_ok vs'"
  using assms(1,3,4)
proof (cases rule: delete_tunnel_cases)
  case (gone)
  then show ?thesis
    using assms get_bridge_Some [OF assms(3)] bridge_ok_drop by (auto intro!: vs_ok_upd_at)
qed (use assms(2) in simp)

section \<open>Reachable switches\<close>

text \<open>
  Everything other modules call on a switch, as steps; a tunnel port is deleted only from the bridge
  that has it, as the callers do.
\<close>

inductive vs_step :: "ssh_env \<Rightarrow> vswitch \<times> world \<Rightarrow> vswitch \<times> world \<Rightarrow> bool" for env where
  step_create_bridge: "create_bridge env name s = (r, s') \<Longrightarrow> vs_step env s s'"
| step_delete_bridge: "delete_bridge env name s = (r, s') \<Longrightarrow> vs_step env s s'"
| step_refresh: "refresh_bridge_vnis s = (r, s') \<Longrightarrow> vs_step env s s'"
| step_create_tunnel: "create_tunnel_port env name ty rip vni s = (r, s') \<Longrightarrow> vs_step env s s'"
| step_delete_tunnel:
    "get_bridge (fst s) name = Some i \<Longrightarrow> tp \<in> set (br_tnl_ports (vs_bridges (fst s) ! i)) \<Longrightarrow>
     delete_tunnel_port env name tp s = (r, s') \<Longrightarrow> vs_step env s s'"
| step_delete_interface: "delete_interface env br c s = (r, s') \<Longrightarrow> vs_step env s s'"
| step_vlan: "set_port_vlan env c p s = (r, s') \<Longrightarrow> vs_step env s s'"
| step_vlan_limit: "set_vlan_limit env n s = (r, s') \<Longrightarrow> vs_step env s s'"
| step_mtu: "set_uplink_mtu env n s = (r, s') \<Longrightarrow> vs_step env s s'"
| step_vhost: "create_vhost_user_interface env br v s = (r, s') \<Longrightarrow> vs_step env s s'"
| step_create_uplink: "create_uplink_bridge env name bond s = (r, s') \<Longrightarrow> vs_step env s s'"
| step_delete_uplink: "delete_uplink_bridge env name s = (r, s') \<Longrightarrow> vs_step env s s'"
| step_bond_member: "set_bond_member_up env name k up s = (r, s') \<Longrightarrow> vs_step env s s'"
| step_start: "start_vswitch env g s = (r, s') \<Longrightarrow> vs_step env s s'"
| step_stop: "stop_vswitch env s = (r, s') \<Longrightarrow> vs_step env s s'"
| step_execute: "vs_execute env c t s = (r1, s') \<Longrightarrow> vs_step env s s'"
| step_host: "vs_execute_host env a t f s = (r2, s') \<Longrightarrow> vs_step env s s'"

inductive vs_reach :: "ssh_env \<Rightarrow> vswitch \<times> world \<Rightarrow> bool" for env where
  vs_start: "VirtualSwitch kind ssh spec tep bin dev = Inr vs \<Longrightarrow> vs_reach env (vs, w)"
| vs_more: "vs_reach env s \<Longrightarrow> vs_step env s s' \<Longrightarrow> vs_reach env s'"
| vs_elsewhere: "vs_reach env (vs, w) \<Longrightarrow> vs_reach env (vs, w')"

inductive_cases vs_stepE: "vs_step env s s'"

lemma vs_step_ok: "vs_step env s s' \<Longrightarrow> vs_ok (fst s) \<Longrightarrow> vs_ok (fst s')"
proof (induction rule: vs_step.induct)
  case (step_create_tunnel name ty rip vni s r s')
  then show ?case using create_tunnel_ok by (cases s; cases s') auto
next
  case (step_delete_tunnel s name i tp r s')
  then show ?case using delete_tunnel_ok by (cases s; cases s') fastforce
qed (auto dest: keepsE_D [rotated -1] intro: keeps keepsE_D [where P = "\<lambda>s. vs_ok (fst s)"])

lemma vs_reach_ok: "vs_reach env s \<Longrightarrow> vs_ok (fst s)"
proof (induction rule: vs_reach.induct)
  case (vs_start kind ssh spec tep bin dev vs w)
  then have "vs_bridges vs = []"
    by (auto simp: VirtualSwitch_def bindR_Inr_iff)
  then show ?case by (simp add: vs_ok_def)
next
  case (vs_more s s')
  then show ?case using vs_step_ok by blast
qed simp

end
