(* ===== verification/Vswitch_Props.thy ===== *)
theory Vswitch_Props imports Vswitch_Inv begin

text \<open>
  Running a switch in the cooperative environment, which the witnesses do, and the properties of the
  switch layer.
\<close>

section \<open>A cooperative machine\<close>

lemma echo_vs_execute [simp]:
  "fst (f (wire True (CmdStr (vs_ovs_bin_dir vs @ ''/'' @ c)))) = 0 \<Longrightarrow>
   vs_execute (echo_env f) c t (vs, w)
     = (Inr (0, snd (f (wire True (CmdStr (vs_ovs_bin_dir vs @ ''/'' @ c)))), []),
        (vs, quiet_next (vs_ssh_info vs) True (CmdStr (vs_ovs_bin_dir vs @ ''/'' @ c)) w))"
  by (simp add: vs_execute_def em_simps fmt_def)

lemma echo_vs_run [simp]:
  "fst (f (wire True (CmdStr (vs_ovs_bin_dir vs @ ''/'' @ c)))) = 0 \<Longrightarrow>
   vs_run (echo_env f) c (vs, w)
     = (Inr (), (vs, quiet_next (vs_ssh_info vs) True (CmdStr (vs_ovs_bin_dir vs @ ''/'' @ c)) w))"
  by (simp add: vs_run_def em_simps)

lemma echo_vs_execute_host [simp]:
  "\<not> cmd_empty c \<Longrightarrow> fst (f (wire True c)) = 0 \<or> e \<noteq> Some False \<Longrightarrow>
   vs_execute_host (echo_env f) c t e (vs, w)
     = (Inr (Some (fst (f (wire True c)), snd (f (wire True c)), [])),
        (vs, quiet_next (vs_ssh_info vs) True c w))"
  by (auto simp: vs_execute_host_def em_simps)

lemma echo_vs_run_host [simp]:
  "c \<noteq> [] \<Longrightarrow> fst (f (wire True (CmdStr c))) = 0 \<Longrightarrow>
   vs_run_host (echo_env f) c (vs, w) = (Inr (), (vs, quiet_next (vs_ssh_info vs) True (CmdStr c) w))"
  by (simp add: vs_run_host_def vs_host_def em_simps)

lemma fmt_Cons_ne [simp]: "fmt ((c # s) # ss) \<noteq> []"
  by (simp add: fmt_def)

definition tep0 :: if_address where
  "tep0 = \<lparr>ia_ipv4 = IPv4Address 174063618, ia_ipv4_network = net_of (IPv4Address 174063618) 16,
     ia_ipv6 = IPv6Address 2, ia_ipv6_network = net_of (IPv6Address 2) 112\<rparr>"

definition switch0 :: vswitch where
  "switch0 = \<lparr>vs_kind = OvsNative, vs_bridges = [], vs_ssh_info = node_h1, vs_tep_addr = tep0,
     vs_uplinks = [], vs_ovs_bin_dir = ''bin'', vs_devbind_cmd = ''bin/dpdk-devbind.py''\<rparr>"

lemma switch0_init: "VirtualSwitch OvsNative node_h1 [] tep0 ''bin'' ''bin'' = Inr switch0"
  by (simp add: VirtualSwitch_def switch0_def path_join_def)

definition switch1 :: vswitch where
  "switch1 = switch0\<lparr>vs_bridges := [(Bridge ''br0'')\<lparr>br_vifs := [0], br_vnis := [(PInt 0, [0])]\<rparr>]\<rparr>"

lemma switch1_made:
  "\<exists>w. create_bridge quiet_env ''br0'' (switch0, world0) = (Inr 0, (switch1, w))
     \<and> w_vifs w 0 = TapInterface ''br0'' (PInt 0) \<and> w_next_vif w = 1"
  by (simp add: create_bridge_def create_bridge_impl_def em_simps switch0_def switch1_def new_vif_def
      add_vif_to_def upd_bridge_def bridge_add_vif_def bridge_add_vni_def Bridge_def const_defs
      TapInterface_def world0_def)

lemma switch1_reach: "\<exists>w. vs_reach quiet_env (switch1, w) \<and> w_next_vif w = 1"
  using switch1_made vs_more [OF vs_start [OF switch0_init] step_create_bridge] by metis

lemma quiet_create_tunnel:
  assumes "get_bridge vs name = Some i" "ida_ids (br_ids_tunnel (vs_bridges vs ! i)) = ofp # ids"
  shows "create_tunnel_port quiet_env name ty rip vni (vs, w)
     = (Inr (new_tunnel ty rip vni ofp), (upd_bridge i (add_tunnel ids (new_tunnel ty rip vni ofp)) vs,
        snd (snd (create_tunnel_port quiet_env name ty rip vni (vs, w)))))"
proof -
  obtain r vs' w' where run: "create_tunnel_port quiet_env name ty rip vni (vs, w) = (r, (vs', w'))"
    by (rule prod_cases3)
  then show ?thesis
  proof (cases rule: create_tunnel_cases)
    case (failed j ofp' ids' e)
    have "\<exists>x. r = Inr x"
      using run assms
      by (auto simp: create_tunnel_port_def bridgeE_def attr_of_def em_simps take_tunnel_id_def ida_get_def
          get_bridge_upd Let_def modify_bridge_def)
    with failed show ?thesis by simp
  qed (use assms run in simp_all)
qed

definition rest_ids :: "int list" where
  "rest_ids = [101..200]"

lemma tunnel_pool0: "ida_ids (br_ids_tunnel (Bridge name)) = 100 # rest_ids"
proof -
  have "[100..200] = 100 # rest_ids" unfolding rest_ids_def by (subst upto_rec1) simp_all
  then show ?thesis by (simp add: Bridge_def IDAllocator_def const_defs del: upto_rec_numeral)
qed

definition tunnel0 :: tunnel_port where
  "tunnel0 = new_tunnel ''vxlan'' (PStr ''flow'') (PStr ''flow'') 100"

definition switch2 :: vswitch where
  "switch2 = upd_bridge 0 (add_tunnel rest_ids tunnel0) switch1"

lemma switch1_bridge: "get_bridge switch1 ''br0'' = Some 0"
    "ida_ids (br_ids_tunnel (vs_bridges switch1 ! 0)) = 100 # rest_ids"
  using tunnel_pool0 [of "''br0''"] by (simp_all add: switch1_def get_bridge_def Bridge_def)

lemma switch2_made:
  "\<exists>w'. create_tunnel_port quiet_env ''br0'' ''vxlan'' (PStr ''flow'') (PStr ''flow'') (switch1, w)
      = (Inr tunnel0, (switch2, w'))"
  using quiet_create_tunnel [OF switch1_bridge, of "''vxlan''" "PStr ''flow''" "PStr ''flow''" w]
  unfolding tunnel0_def switch2_def by (rule exI)

lemma switch2_reach: "\<exists>w. vs_reach quiet_env (switch2, w)"
  using switch1_reach switch2_made vs_more [OF _ step_create_tunnel] by metis

lemma switch2_bridge: "vs_bridges switch2 ! 0 = add_tunnel rest_ids tunnel0 (vs_bridges switch1 ! 0)"
  "get_bridge switch2 ''br0'' = Some 0" "length (vs_bridges switch2) = 1"
  unfolding switch2_def
  by (subst upd_bridge_nth) (simp_all add: get_bridge_upd switch1_bridge add_tunnel_def take_id_def,
      simp_all add: switch1_def)

lemma echo_host_batch [simp]:
  "\<forall>c \<in> set cmds. c \<noteq> [] \<and> fst (f (wire True (CmdStr c))) = 0 \<Longrightarrow>
   vs_execute_host_batch (echo_env f) cmds t (vs, w)
     = (Inr (), (vs, foldl (\<lambda>w c. quiet_next (vs_ssh_info vs) True (CmdStr c) w) w cmds))"
  unfolding vs_execute_host_batch_def by (induction cmds arbitrary: w) (simp_all add: em_simps)

lemma echo_batch [simp]:
  "\<forall>c \<in> set cmds. fst (f (wire True (CmdStr (vs_ovs_bin_dir vs @ ''/'' @ c)))) = 0 \<Longrightarrow>
   vs_execute_batch (echo_env f) cmds t (vs, w)
     = (Inr (), (vs, foldl (\<lambda>w c. quiet_next (vs_ssh_info vs) True (CmdStr (vs_ovs_bin_dir vs @ ''/'' @ c)) w) w cmds))"
  unfolding vs_execute_batch_def by (induction cmds arbitrary: w) (simp_all add: em_simps)

definition switch_dpdk :: vswitch where
  "switch_dpdk = switch0\<lparr>vs_kind := OvsDpdk \<lparr>dp_driver = ''vfio-pci'', dp_socket_mem = ''1024'',
       dp_huge_mnt = ''/dev/hugepages'', dp_cpu_mask = ''0x2'', dp_userspace_tso = PBool True\<rparr>,
     vs_uplinks := [Uplink (PStr ''0000:00:08.0'')]\<rparr>"

lemma switch_dpdk_starts:
  "\<exists>s'. start_vswitch (echo_env (\<lambda>_. (0, ''42''))) (PBool False) (switch_dpdk, world0) = (Inr (), s')"
proof -
  have "py_int ''42'' = Inr 42" by (simp add: py_int_def strip_def lstrip_def py_space_def is_digit_def digit_val_def)
  then show ?thesis
    by (simp add: start_vswitch_def start_vswitch_dpdk_def em_simps switch_dpdk_def switch0_def vs_run_host_def
        vs_host_def clean_cmds_def fmt_def Let_def)
qed

lemma tunnel0_deleted: "\<exists>s'. delete_tunnel_port quiet_env ''br0'' tunnel0 (switch2, w) = (Inr (), s')"
  by (simp add: delete_tunnel_port_def delete_interface_def em_simps attr_of_def switch2_bridge
      modify_bridge_def upd_bridge_nth) (simp add: add_tunnel_def)

section \<open>Loops over the uplinks\<close>

lemma upd_uplink_fields [simp]:
  "vs_ssh_info (upd_uplink i f vs) = vs_ssh_info vs"
  "vs_ovs_bin_dir (upd_uplink i f vs) = vs_ovs_bin_dir vs"
  "vs_kind (upd_uplink i f vs) = vs_kind vs"
  "vs_bridges (upd_uplink i f vs) = vs_bridges vs"
  "vs_tep_addr (upd_uplink i f vs) = vs_tep_addr vs"
  "vs_devbind_cmd (upd_uplink i f vs) = vs_devbind_cmd vs"
  "length (vs_uplinks (upd_uplink i f vs)) = length (vs_uplinks vs)"
  by (simp_all add: upd_uplink_def)

lemma cmd_upd [simp]:
  "host_cmd (upd_uplink i f vs) = host_cmd vs" "ovs_cmd (upd_uplink i f vs) = ovs_cmd vs"
  "host_cmd (upd_bridge i g vs) = host_cmd vs" "ovs_cmd (upd_bridge i g vs) = ovs_cmd vs"
  by (simp_all add: host_cmd_def ovs_cmd_def fun_eq_iff)

definition upd_uplinks :: "(nat \<Rightarrow> uplink \<Rightarrow> uplink) \<Rightarrow> nat list \<Rightarrow> vswitch \<Rightarrow> vswitch" where
  "upd_uplinks f ks vs = fold (\<lambda>k. upd_uplink k (f k)) ks vs"

lemma upd_uplinks_fields [simp]:
  "vs_ssh_info (upd_uplinks f ks vs) = vs_ssh_info vs"
  "vs_ovs_bin_dir (upd_uplinks f ks vs) = vs_ovs_bin_dir vs"
  "host_cmd (upd_uplinks f ks vs) = host_cmd vs"
  "ovs_cmd (upd_uplinks f ks vs) = ovs_cmd vs"
  unfolding upd_uplinks_def by (induction ks arbitrary: vs) simp_all

lemma upd_uplinks_all:
  "n \<le> length (vs_uplinks vs) \<Longrightarrow>
   vs_uplinks (upd_uplinks f [0..<n] vs)
     = map (\<lambda>k. f k (vs_uplinks vs ! k)) [0..<n] @ drop n (vs_uplinks vs)"
proof (induction n)
  case 0
  then show ?case by (simp add: upd_uplinks_def)
next
  case (Suc n)
  have "upd_uplinks f [0..<Suc n] vs = upd_uplink n (f n) (upd_uplinks f [0..<n] vs)"
    by (simp add: upd_uplinks_def)
  moreover have "drop n (vs_uplinks vs) = vs_uplinks vs ! n # drop (Suc n) (vs_uplinks vs)"
    using Suc.prems by (simp add: Cons_nth_drop_Suc)
  ultimately show ?case
    using Suc by (simp add: upd_uplink_def nth_append list_update_append)
qed

text \<open>A loop that runs some host commands for each uplink and then updates it.\<close>

lemma ret_uplink_loop:
  assumes "forE ks (\<lambda>k. thenE (vs_execute_host_batch env (cmds k) 30)
      (on_fst (modifyE (upd_uplink k (f k))))) s = (Inr x, s')"
  shows "fst s' = upd_uplinks f ks (fst s)
     \<and> w_sent (snd s') = w_sent (snd s) @ map (host_cmd (fst s)) (concat (map cmds ks))"
  using assms
proof (induction ks arbitrary: s)
  case Nil
  then show ?case by (simp add: returns upd_uplinks_def)
next
  case (Cons k ks)
  from Cons.prems obtain y s1 where 1: "vs_execute_host_batch env (cmds k) 30 s = (Inr y, s1)"
    and 2: "forE ks (\<lambda>k. thenE (vs_execute_host_batch env (cmds k) 30)
      (on_fst (modifyE (upd_uplink k (f k))))) (upd_uplink k (f k) (fst s1), snd s1) = (Inr x, s')"
    by (auto simp: returns)
  from Cons.IH [OF 2] ret_host_batch [OF 1] show ?case
    by (simp add: upd_uplinks_def)
qed

section \<open>Properties\<close>

text \<open>
  C13 However a switch is used, the port numbers of the tunnel ports of a bridge are pairwise different,
  lie in the tunnel range 100 to 200, and none of them is still in the bridge's pool.
\<close>

theorem tunnel_ports_distinct:
  assumes "vs_reach env (vs, w)" "b \<in> set (vs_bridges vs)"
  shows "distinct (map tp_ofp (br_tnl_ports b))
     \<and> set (map tp_ofp (br_tnl_ports b)) \<subseteq> {100..200}
     \<and> set (map tp_ofp (br_tnl_ports b)) \<inter> set (ida_ids (br_ids_tunnel b)) = {}"
  using vs_reach_ok [OF assms(1)] assms(2) bridge_ok_ports by (auto simp: vs_ok_def)

theorem tunnel_ports_distinct_witness:
  "\<exists>w. vs_reach quiet_env (switch2, w)
     \<and> map tp_ofp (br_tnl_ports (vs_bridges switch2 ! 0)) = [100]
     \<and> 100 \<notin> set (ida_ids (br_ids_tunnel (vs_bridges switch2 ! 0)))"
proof -
  obtain w where reach: "vs_reach quiet_env (switch2, w)" using switch2_reach by blast
  have ports: "map tp_ofp (br_tnl_ports (vs_bridges switch2 ! 0)) = [100]"
    by (simp add: switch2_bridge add_tunnel_def tunnel0_def new_tunnel_def switch1_def Bridge_def take_id_def)
  have "vs_bridges switch2 ! 0 \<in> set (vs_bridges switch2)"
    by (rule nth_mem) (simp add: switch2_bridge(3))
  from tunnel_ports_distinct [OF reach this] ports reach show ?thesis by auto
qed

text \<open>
  Deleting a tunnel port right after creating it gives the bridge its old ports back, and the
  number goes to the end of the pool: it is handed out again only after all the others.
\<close>

theorem tunnel_port_roundtrip:
  assumes "create_tunnel_port env name ty rip vni (vs, w) = (Inr tp, (vs1, w1))"
    and "delete_tunnel_port env name tp (vs1, w1) = (Inr (), (vs2, w2))"
    and "get_bridge vs name = Some i" and "tp \<notin> set (br_tnl_ports (vs_bridges vs ! i))"
  shows "br_tnl_ports (vs_bridges vs2 ! i) = br_tnl_ports (vs_bridges vs ! i)
     \<and> ida_ids (br_ids_tunnel (vs_bridges vs2 ! i))
         = tl (ida_ids (br_ids_tunnel (vs_bridges vs ! i))) @ [tp_ofp tp]
     \<and> tp_ofp tp = hd (ida_ids (br_ids_tunnel (vs_bridges vs ! i)))
     \<and> w_sent w2 = w_sent w
         @ [ovs_cmd vs (tunnel_cmd name ty rip vni (tp_ofp tp)),
            ovs_cmd vs (fmt [''ovs-vsctl del-port '', name, '' '', tp_name tp])]"
  using assms(1)
proof (cases rule: create_tunnel_cases)
  case (made j ofp ids)
  note i = get_bridge_Some [OF assms(3)]
  have ij: "j = i" and tp: "tp = new_tunnel ty rip vni ofp"
    using made assms(3) by auto
  have br1: "vs_bridges vs1 ! i = add_tunnel ids tp (vs_bridges vs ! i)" "get_bridge vs1 name = Some i"
    using made ij tp i assms(3) by (simp_all add: upd_bridge_nth get_bridge_upd add_tunnel_def take_id_def)
  then have mem: "tp \<in> set (br_tnl_ports (vs_bridges vs1 ! i))" by (simp add: add_tunnel_def)
  from assms(2) br1(2) mem show ?thesis
  proof (cases rule: delete_tunnel_cases)
    case gone
    have "length (vs_bridges vs1) = length (vs_bridges vs)" using made by simp
    with gone br1 i assms(4) made ij tp show ?thesis
      by (simp add: upd_bridge_nth drop_tunnel_def add_tunnel_def take_id_def ida_put_def new_tunnel_def
          remove1_append ovs_cmd_def host_cmd_def)
  qed simp
qed simp_all

theorem tunnel_port_roundtrip_witness:
  "\<exists>w1 vs2 w2. delete_tunnel_port quiet_env ''br0'' tunnel0 (switch2, w1) = (Inr (), (vs2, w2))
     \<and> br_tnl_ports (vs_bridges vs2 ! 0) = [] \<and> ida_ids (br_ids_tunnel (vs_bridges vs2 ! 0)) = rest_ids @ [100]"
proof -
  obtain w1 where made: "create_tunnel_port quiet_env ''br0'' ''vxlan'' (PStr ''flow'') (PStr ''flow'')
      (switch1, world0) = (Inr tunnel0, (switch2, w1))"
    using switch2_made by blast
  obtain vs2 w2 where gone: "delete_tunnel_port quiet_env ''br0'' tunnel0 (switch2, w1) = (Inr (), (vs2, w2))"
    using tunnel0_deleted [of w1] by auto
  have "br_tnl_ports (vs_bridges switch1 ! 0) = []" by (simp add: switch1_def Bridge_def)
  with tunnel_port_roundtrip [OF made gone switch1_bridge(1)] switch1_bridge(2)
  have "br_tnl_ports (vs_bridges vs2 ! 0) = []"
    "ida_ids (br_ids_tunnel (vs_bridges vs2 ! 0)) = rest_ids @ [100]" by simp_all
  with gone show ?thesis by blast
qed

text \<open>
  C26 After \<open>refresh_bridge_vnis\<close> every bridge maps a VNI to exactly those of its interfaces that have
  this VNI now, in the order they were attached, and to nothing when there is none; no other part of
  a bridge changes.
\<close>

theorem refresh_groups_by_vni:
  "fst (refresh_bridge_vnis (vs, w)) = Inr ()
   \<and> vs_bridges (fst (snd (refresh_bridge_vnis (vs, w)))) = map (refresh_vnis (w_vifs w)) (vs_bridges vs)
   \<and> map_of (br_vnis (refresh_vnis store b)) k =
       (let same = filter (\<lambda>v. vif_vni (store v) = k) (br_vifs b)
        in if same = [] then None else Some same)
   \<and> distinct (map fst (br_vnis (refresh_vnis store b)))
   \<and> refresh_vnis store b = b\<lparr>br_vnis := br_vnis (refresh_vnis store b)\<rparr>"
  by (simp add: refresh_bridge_vnis_def em_simps refresh_vnis_eq group_vnis_lookup Let_def
      group_vnis_distinct)

text \<open>
  C22 Starting an OVS-DPDK switch, when it succeeds, has run exactly this sequence on its host: load
  the driver, unbind and rebind every uplink in order, remove the files of an earlier run and make the directories;
  then create the database, start its server, configure DPDK (initialisation, memory and huge pages, segmentation
  offload, processor mask), only then start the switch daemon, and look for its process.  The uplinks are
  named \<open>dpdk1\<close>, \<open>dpdk2\<close>, and so on.
\<close>

theorem start_dpdk_sequence:
  assumes "start_vswitch env g (vs, w) = (Inr (), (vs', w'))" "vs_kind vs = OvsDpdk ps" "\<not> truthy g"
  shows "w_sent w' = w_sent w
       @ map (host_cmd vs) (fmt [''modprobe '', dp_driver ps]
           # concat (map (\<lambda>k. let pci = py_str (up_pci_addr (vs_uplinks vs ! k)) in
               [fmt [vs_devbind_cmd vs, '' -u '', pci],
                fmt [vs_devbind_cmd vs, '' -b '', dp_driver ps, '' '', pci]]) [0..<length (vs_uplinks vs)])
           @ [''rm -rf /var/run/openvswitch/*'', ''rm -rf /var/log/openvswitch/*'',
              fmt [''rm -rf '', vs_ovs_bin_dir vs, ''/conf.db''],
              ''mkdir -p /var/run/openvswitch'', ''mkdir -p /var/log/openvswitch'', ''ps -ef|grep ovs''])
       @ map (ovs_cmd vs)
           [fmt [''ovsdb-tool create '', vs_ovs_bin_dir vs, ''/conf.db '', vs_ovs_bin_dir vs, ''/vswitch.ovsschema''],
            fmt [''ovsdb-server --remote=punix:/var/run/openvswitch/db.sock --pidfile --detach '', vs_ovs_bin_dir vs, ''/conf.db''],
            ''ovs-vsctl --no-wait init'',
            ''ovs-vsctl --no-wait set Open_vSwitch . other_config:dpdk-init=true'',
            fmt [''ovs-vsctl --no-wait set Open_vSwitch . other_config:dpdk-socket-mem='', dp_socket_mem ps,
                 '' other_config:dpdk-hugepage-dir='', dp_huge_mnt ps],
            fmt [''ovs-vsctl --no-wait set Open_vSwitch . other_config:userspace-tso-enable='',
                 to_lower (py_str (dp_userspace_tso ps))],
            fmt [''ovs-vsctl --no-wait set Open_vSwitch . other_config:pmd-cpu-mask='', dp_cpu_mask ps],
            ''ovs-vswitchd unix:/var/run/openvswitch/db.sock --log-file --pidfile --detach'']
       @ [host_cmd vs ''pgrep ovs-vswitchd'']
     \<and> map up_name (vs_uplinks vs')
         = map (\<lambda>k. PStr (''dpdk'' @ nat_str (k + 1))) [0..<length (vs_uplinks vs)]"
proof -
  let ?n = "length (vs_uplinks vs)"
  let ?cmds = "\<lambda>k. let pci = py_str (up_pci_addr (vs_uplinks vs ! k)) in
      [fmt [vs_devbind_cmd vs, '' -u '', pci], fmt [vs_devbind_cmd vs, '' -b '', dp_driver ps, '' '', pci]]"
  let ?f = "\<lambda>k u. u\<lparr>up_name := PStr (fmt [''dpdk'', nat_str (k + 1)])\<rparr>"
  have "start_vswitch_dpdk env g ps (vs, w) = (Inr (), (vs', w'))"
    using assms(1,2) by (simp add: start_vswitch_def em_bind em_get)
  then have all: "vs' = upd_uplinks ?f [0..<?n] vs \<and> w_sent w' = w_sent w
       @ map (host_cmd vs) (fmt [''modprobe '', dp_driver ps] # concat (map ?cmds [0..<?n])
           @ clean_cmds (vs_ovs_bin_dir vs) @ [''ps -ef|grep ovs''])
       @ map (ovs_cmd vs) (dpdk_start_cmds (vs_ovs_bin_dir vs) ps) @ [host_cmd vs ''pgrep ovs-vswitchd'']"
    unfolding start_vswitch_dpdk_def Let_def
  proof (elim returnsE returns_thenE, goal_cases)
    case (1 v s0 _ s1 _ s2 _ s3 _ s4 _ s5 out s6 pid s7)
    have v: "v = vs" "s0 = (vs, w)" "(vs', w') = s6"
      using 1(1,8,9) assms(3) by (auto simp: returns_get returns_lift em_when)
    from ret_run_host [OF 1(2)] ret_uplink_loop [OF 1(3)] ret_host_batch [OF 1(4)] ret_run_host [OF 1(5)]
      ret_execute_batch [OF 1(6)] ret_host [OF 1(7)] show ?case
      unfolding v using v(3) [symmetric] by simp
  qed
  then have "map up_name (vs_uplinks vs') = map (\<lambda>k. PStr (''dpdk'' @ nat_str (k + 1))) [0..<?n]"
    by (simp add: upd_uplinks_all comp_def fmt_def)
  with all show ?thesis
    by (simp add: clean_cmds_def dpdk_start_cmds_def db_cmds_def vswitchd_cmd_def fmt_def Let_def)
qed

theorem start_dpdk_sequence_witness:
  "\<exists>vs' w'. start_vswitch (echo_env (\<lambda>_. (0, ''42''))) (PBool False) (switch_dpdk, world0) = (Inr (), (vs', w'))
     \<and> map up_name (vs_uplinks vs') = [PStr ''dpdk1'']
     \<and> last (w_sent w') = (node_h1, CmdStr ''sudo -E -S pgrep ovs-vswitchd'')"
proof -
  obtain vs' w' where run: "start_vswitch (echo_env (\<lambda>_. (0, ''42''))) (PBool False) (switch_dpdk, world0)
      = (Inr (), (vs', w'))"
    using switch_dpdk_starts by auto
  have "vs_kind switch_dpdk = OvsDpdk \<lparr>dp_driver = ''vfio-pci'', dp_socket_mem = ''1024'',
       dp_huge_mnt = ''/dev/hugepages'', dp_cpu_mask = ''0x2'', dp_userspace_tso = PBool True\<rparr>"
    "vs_ssh_info switch_dpdk = node_h1" "length (vs_uplinks switch_dpdk) = 1"
    by (simp_all add: switch_dpdk_def switch0_def)
  with start_dpdk_sequence [OF run this(1)]
  have "map up_name (vs_uplinks vs') = [PStr ''dpdk1'']"
    "last (w_sent w') = (node_h1, CmdStr ''sudo -E -S pgrep ovs-vswitchd'')"
    by (simp_all add: host_cmd_def nat_str_eval)
  with run show ?thesis by (intro exI conjI)
qed

lemma rx_lit_fails: "\<not> starts_with ''if='' s \<Longrightarrow> rx_run if_regex s gs = []"
  by (auto simp: if_regex_def RChr_def neq_Nil_conv split: list.splits)

lemma rx_lit_finds:
  assumes "list_all (\<lambda>c. \<not> py_space c) name" "name \<noteq> []"
  shows "\<exists>more. rx_run if_regex (''if='' @ name @ '' '' @ rest) [] = (rest, [name]) # more"
proof -
  have space: "py_space (CHR '' '')" by (simp add: py_space_def)
  obtain c cs where name: "name = c # cs" using assms(2) by (cases name) auto
  with assms(1) obtain ts where "star_rests (\<lambda>c. \<not> py_space c) (cs @ '' '' @ rest) = ('' '' @ rest) # ts"
    using star_rests_greedy [of "\<lambda>c. \<not> py_space c" cs "'' '' @ rest"] space by auto
  with name assms(1) show ?thesis by (simp add: if_regex_def RChr_def RPlus_def)
qed

text \<open>
  On a line of the device list that names the device, the kernel interface is the text between
  \<open>if=\<close> and the next space, whatever else the line holds before (without \<open>=\<close>) and after.
\<close>

theorem native_if_name:
  assumes "list_all (\<lambda>c. \<not> py_space c) name" "name \<noteq> []" "CHR ''='' \<notin> set before"
    and "str_in pci (before @ ''if='' @ name @ '' '' @ rest)"
  shows "find_if_name pci ((before @ ''if='' @ name @ '' '' @ rest) # ls) = Some name"
proof -
  have "rx_search if_regex (before @ ''if='' @ name @ '' '' @ rest) = Some [name]"
    using assms(3)
  proof (induction before)
    case Nil
    obtain more where "rx_run if_regex (''if='' @ name @ '' '' @ rest) [] = (rest, [name]) # more"
      using rx_lit_finds [OF assms(1,2)] by blast
    then show ?case by simp
  next
    case (Cons c cs)
    have "\<not> starts_with ''if='' ((c # cs) @ ''if='' @ name @ '' '' @ rest)"
      using Cons.prems by (cases cs; cases "tl cs") auto
    from rx_lit_fails [OF this, of "[]"] Cons show ?case by simp
  qed
  with assms(4) show ?thesis by simp
qed

theorem native_if_name_witness:
  "find_if_name ''08.0'' [''0000:00:08.0 if=eth1 drv=virtio-pci''] = Some ''eth1''"
  using native_if_name [of "''eth1''" "''0000:00:08.0 ''" "''08.0''" "''drv=virtio-pci''" "[]"]
  by (simp add: py_space_def)

text \<open>
  For the kernel datapath, a successful bond set-up has not run its four set-up commands: they are
  passed as a list, so what is sent is the printed list, one single command, followed by the
  \<open>add-port\<close> of the bond interface that those commands were meant to create.
\<close>

theorem native_bond_sends_list:
  assumes "create_uplink_bond_impl env i (vs, w) = (Inr (), (vs', w'))" "vs_kind vs = OvsNative"
  shows "w_sent w' = w_sent w
     @ [host_cmd vs (list_repr
          [''modprobe bonding miimon=100 mode=4 lacp_rate=1'', ''ip link add name bondif type bond'',
           ''ip link set dev bondif up'',
           ''ifenslave bondif '' @ concat (map (\<lambda>u. '' '' @ py_str (up_name u)) (vs_uplinks vs))]),
        ovs_cmd vs (fmt [''ovs-vsctl add-port '', br_name (vs_bridges vs ! i),
          '' bondif -- set Interface bondif ofport_request=1''])]"
proof -
  have "bindE (getE fst) F (vs, w) = F vs (vs, w)" for F :: "vswitch \<Rightarrow> unit vsm"
    by (simp add: em_bind em_get)
  with assms have "thenE (vs_execute_host env (CmdList
          [''modprobe bonding miimon=100 mode=4 lacp_rate=1'', ''ip link add name bondif type bond'',
           ''ip link set dev bondif up'',
           fmt [''ifenslave '', ''bondif'', '' '', concat (map (\<lambda>u. fmt ['' '', py_str (up_name u)]) (vs_uplinks vs))]])
         30 (Some False))
      (thenE (vs_run env (fmt [''ovs-vsctl add-port '', br_name (vs_bridges vs ! i), '' '', ''bondif'',
          '' -- set Interface '', ''bondif'', '' ofport_request='', int_str 1]))
        (append_uplink i (Bond bond_uplink))) (vs, w) = (Inr (), (vs', w'))"
    unfolding create_uplink_bond_impl_def by (simp add: Let_def bond_uplink_def const_defs fmt_def)
  then show ?thesis
  proof (elim returns_thenE, goal_cases)
    case (1 _ s1 _ s2)
    have "w' = snd s2"
      using 1(3) by (auto simp: append_uplink_def modify_bridge_def returns)
    moreover have "fmt [''ovs-vsctl add-port '', n, '' '', ''bondif'', '' -- set Interface '', ''bondif'',
        '' ofport_request='', int_str 1]
      = fmt [''ovs-vsctl add-port '', n, '' bondif -- set Interface bondif ofport_request=1'']" for n
      by (simp add: fmt_def int_str_def nat_str_eval)
    ultimately show ?case
      using ret_execute_host [OF 1(1)] ret_run [OF 1(2)]
      by (simp add: host_cmd_def wire_def sudo_cmd_def) (simp add: fmt_def)
  qed
qed

theorem native_bond_sends_list_witness:
  "\<exists>vs' w'. create_uplink_bond_impl quiet_env 0 (switch1, world0) = (Inr (), (vs', w')) \<and> length (w_sent w') = 2"
proof -
  have "\<exists>s'. create_uplink_bond_impl quiet_env 0 (switch1, world0) = (Inr (), s')"
    by (simp add: create_uplink_bond_impl_def em_simps Let_def switch1_def switch0_def append_uplink_def
        modify_bridge_def)
  then obtain vs' w' where run: "create_uplink_bond_impl quiet_env 0 (switch1, world0) = (Inr (), (vs', w'))"
    by auto
  have "vs_kind switch1 = OvsNative" by (simp add: switch1_def switch0_def)
  from native_bond_sends_list [OF run this] have "length (w_sent w') = 2" by simp
  with run show ?thesis by (intro exI conjI)
qed

end
