(* ===== verification/Flows.thy ===== *)
theory Flows imports Vswitch_Props begin

text \<open>
  \<open>flowutils.py\<close>: the texts of the OpenFlow flows of the INPUT and OUTPUT tables for each deployment
  (native, tunnel, VLAN, QinQ), the default pipeline, and provisioning flows on a switch.  The list of
  systems under test is the global \<open>suts\<close>; a SUT is its position in the list.
\<close>

section \<open>The systems under test\<close>

type_synonym 'a tbm = "(sut list \<times> world, 'a) em"

text \<open>A method of the switch of SUT \<open>k\<close>, and the loop \<open>for sut in suts\<close>.\<close>

definition on_sut :: "nat \<Rightarrow> 'a vsm \<Rightarrow> 'a tbm" where
  "on_sut k m = (\<lambda>(ss, w). case m (su_vswitch (ss ! k), w) of
     (r, (vs', w')) \<Rightarrow> (r, (ss[k := (ss ! k)\<lparr>su_vswitch := vs'\<rparr>], w')))"

definition for_suts :: "(nat \<Rightarrow> unit tbm) \<Rightarrow> unit tbm" where
  "for_suts b = bindE (getE (\<lambda>(ss, w). length ss)) (\<lambda>n. forE [0..<n] b)"

definition other_suts :: "sut list \<Rightarrow> nat \<Rightarrow> sut list" where
  "other_suts ss k = map (\<lambda>i. ss ! i) (filter (\<lambda>i. i \<noteq> k) [0..<length ss])"

section \<open>Actions\<close>

definition append_as :: "string \<Rightarrow> string \<Rightarrow> string" where
  "append_as actions action =
     (if actions = [] then action else if action \<noteq> [] then actions @ '','' @ action else actions)"

definition tnl_as :: "sut list \<Rightarrow> nat \<Rightarrow> tunnel_port \<Rightarrow> bool \<Rightarrow> string" where
  "tnl_as ss k tp tnl_md =
     (let a0 = (if tp_rip tp = PStr ''flow''
                then foldl (\<lambda>a r. append_as a (fmt [''set_field:'', ip_str (ia_ipv4 (vs_tep_addr (su_vswitch r))),
                       arrow, ''tun_dst''])) [] (other_suts ss k)
                else []);
          a1 = (if tp_vni tp = PStr ''flow''
                then append_as a0 (fmt [''move:reg0'', arrow, ''tun_id[0..31]'']) else a0);
          a2 = (if tnl_md
                then append_as (append_as a1 (fmt [''move:reg0'', arrow, ''tun_metadata0[0..31]'']))
                       (fmt [''set_field:0x1234567890abcdef'', arrow, ''tun_metadata1''])
                else a1)
      in append_as a2 (int_str (tp_ofp tp)))"

definition uplink_as :: "string \<Rightarrow> string" where
  "uplink_as deploy =
     (if deploy = ''vlan''
      then fmt [''push_vlan:0x8100,move:reg0[0..11]'', arrow, ''vlan_tci[0..11],'', ''load:1'', arrow, ''vlan_tci[12]'']
      else fmt [''push_vlan:0x8100,move:reg0[0..11]'', arrow, ''vlan_tci[0..11],'', ''load:1'', arrow, ''vlan_tci[12],'',
                ''push_vlan:0x88a8,move:reg0[16..27]'', arrow, ''vlan_tci[0..11],'', ''load:1'', arrow, ''vlan_tci[12]''])"

section \<open>Commands on a switch\<close>

definition delete_flows :: "ssh_env \<Rightarrow> string \<Rightarrow> unit vsm" where
  "delete_flows env br = vs_run env (fmt [''ovs-ofctl del-flows '', br])"

definition add_flow_cmd :: "string \<Rightarrow> string \<Rightarrow> string" where
  "add_flow_cmd br flow =
     fmt [''ovs-ofctl '', (if str_in ''push_vlan'' flow then ''-O OpenFlow13'' else []), '' add-flow '', br, '' '', flow]"

definition provision_flows :: "ssh_env \<Rightarrow> string \<Rightarrow> string list \<Rightarrow> unit vsm" where
  "provision_flows env br flows =
     thenE (forE flows (\<lambda>flow. vs_run env (add_flow_cmd br flow)))
           (vs_run env (fmt [''ovs-ofctl dump-flows '', br]))"

definition clear_input_output_flows :: "ssh_env \<Rightarrow> string \<Rightarrow> unit vsm" where
  "clear_input_output_flows env br =
     thenE (vs_run env (fmt [''ovs-ofctl del-flows '', br, '' table='', int_str OF_TABLE_INPUT]))
           (vs_run env (fmt [''ovs-ofctl del-flows '', br, '' table='', int_str OF_TABLE_OUTPUT]))"

section \<open>The OUTPUT table\<close>

definition tbl :: "int \<Rightarrow> string" where
  "tbl t = fmt [''table='', int_str t]"

text \<open>The actions of a flood that starts at \<open>local\<close>: the other local ports, then the external ones.\<close>

definition flood_as ::
  "sut list \<Rightarrow> nat \<Rightarrow> bridge \<Rightarrow> string \<Rightarrow> bool \<Rightarrow> pyval \<Rightarrow> pyval list \<Rightarrow> pyval \<Rightarrow> string" where
  "flood_as ss k br deploy tnl_md vni local_ofps local_ofp =
     (let a0 = foldl (\<lambda>a ofp. if ofp = local_ofp then a else append_as a (py_str ofp)) [] local_ofps;
          ups = map (\<lambda>u. py_str (up_ofp (deref (su_vswitch (ss ! k)) u))) (br_uplinks br)
      in if deploy = ''tnl'' then
           foldl (\<lambda>a tp. if tp_vni tp \<noteq> PStr ''flow'' \<and> tp_vni tp \<noteq> vni then a
                         else append_as a (tnl_as ss k tp tnl_md)) a0 (br_tnl_ports br)
         else if deploy = ''vlan'' \<or> deploy = ''qinq'' then
           foldl append_as (append_as a0 (uplink_as deploy)) ups
         else foldl append_as a0 ups)"

text \<open>Flows for one VNI: from each local port, and from the external ports to the local ones.\<close>

definition vni_flows ::
  "sut list \<Rightarrow> nat \<Rightarrow> bridge \<Rightarrow> string \<Rightarrow> bool \<Rightarrow> (nat \<Rightarrow> vif) \<Rightarrow> pyval \<times> nat list \<Rightarrow> string list res" where
  "vni_flows ss k br deploy tnl_md store = (\<lambda>(vni, vifs).
     let local_ofps = map (\<lambda>v. vif_ofp (store v)) vifs;
         ups = map (\<lambda>u. py_str (up_ofp (deref (su_vswitch (ss ! k)) u))) (br_uplinks br);
         back = foldl (\<lambda>a ofp. append_as a (py_str ofp)) [] local_ofps
     in if local_ofps = [] then Inl (RuntimeError (fmt [''no local vif on vni:'', py_str vni]))
        else if back = [] then Inl (RuntimeError (fmt [''we cannot have empty local vifs: '',
               list_repr (map py_str local_ofps)]))
        else Inr (map (\<lambda>local_ofp.
              fmt [tbl OF_TABLE_OUTPUT, '',in_port='', py_str local_ofp, '',reg1=0,priority=100,action='',
                   flood_as ss k br deploy tnl_md vni local_ofps local_ofp]) local_ofps
          @ (if deploy = ''tnl'' then
               map (\<lambda>tp.
                 if tnl_md then
                   fmt [tbl OF_TABLE_OUTPUT, '',in_port='', int_str (tp_ofp tp), '',reg0='', py_str vni, '',reg1=0,'',
                        ''tun_metadata0='', py_str vni, '',tun_metadata1=0x1234567890abcdef,priority=100,action='', back]
                 else
                   fmt [tbl OF_TABLE_OUTPUT, '',in_port='', int_str (tp_ofp tp), '',reg0='', py_str vni, '',reg1=0,'',
                        ''priority=100,action='', back]) (br_tnl_ports br)
             else if deploy = ''vlan'' \<or> deploy = ''qinq'' then
               map (\<lambda>u. fmt [tbl OF_TABLE_OUTPUT, '',in_port='', u, '',reg0[0..11]='', py_str vni, '',reg1=0,'',
                        ''priority=100,action='', back]) ups
             else
               map (\<lambda>u. fmt [tbl OF_TABLE_OUTPUT, '',in_port='', u, '',reg1=0,priority=100,action='', back]) ups)))"

text \<open>Flows to a definite port: the external ports with their actions, the metadata checks, the vifs.\<close>

definition unicast_flows ::
  "sut list \<Rightarrow> nat \<Rightarrow> bridge \<Rightarrow> string \<Rightarrow> bool \<Rightarrow> (nat \<Rightarrow> vif) \<Rightarrow> string list" where
  "unicast_flows ss k br deploy tnl_md store =
     (let ups = map (\<lambda>u. py_str (up_ofp (deref (su_vswitch (ss ! k)) u))) (br_uplinks br) in
      (if deploy = ''tnl'' then
         map (\<lambda>tp. fmt [tbl OF_TABLE_OUTPUT, '',reg1='', int_str (tp_ofp tp), '',priority=20,action='',
                        tnl_as ss k tp tnl_md]) (br_tnl_ports br)
       else if deploy = ''vlan'' \<or> deploy = ''qinq'' then
         map (\<lambda>u. fmt [tbl OF_TABLE_OUTPUT, '',reg1='', u, '',priority=20,action='', uplink_as deploy, '','', u]) ups
       else
         map (\<lambda>u. fmt [tbl OF_TABLE_OUTPUT, '',reg1='', u, '',priority=20,action='', u]) ups)
      @ (if tnl_md then
           concat (map (\<lambda>tp. map (\<lambda>(vni, vs).
             fmt [tbl OF_TABLE_OUTPUT, '',in_port='', int_str (tp_ofp tp), '',tun_metadata0='', py_str vni,
                  '',tun_metadata1=0x1234567890abcdef,priority=15,action=output:reg1'']) (br_vnis br)) (br_tnl_ports br))
         else [])
      @ map (\<lambda>v. fmt [tbl OF_TABLE_OUTPUT, '',reg1='', py_str (vif_ofp (store v)), '',priority=10,action='',
                      py_str (vif_ofp (store v))]) (br_vifs br))"

definition generate_output_flows ::
  "sut list \<Rightarrow> nat \<Rightarrow> string \<Rightarrow> string \<Rightarrow> bool \<Rightarrow> (nat \<Rightarrow> vif) \<Rightarrow> string list res" where
  "generate_output_flows ss k name deploy tnl_md store =
     (if deploy \<notin> {''tnl'', ''vlan'', ''qinq'', ''native''}
      then Inl (RuntimeError (fmt [''setup output flows for '', deploy, '' is invalid'']))
      else
        bindR (attr_of (get_bridge (su_vswitch (ss ! k)) name)) (\<lambda>i.
        let br = vs_bridges (su_vswitch (ss ! k)) ! i in
        bindR (collectR (vni_flows ss k br deploy tnl_md store) (br_vnis br)) (\<lambda>flood.
        Inr (flood @ unicast_flows ss k br deploy tnl_md store))))"

section \<open>The INPUT table\<close>

text \<open>\<open>vif.vni + 100\<close> raises on a VNI that is a string.\<close>

definition outer_vni :: "pyval \<Rightarrow> int res" where
  "outer_vni v = (case v of PInt i \<Rightarrow> Inr (i + 100) | PBool b \<Rightarrow> Inr ((if b then 1 else 0) + 100) | _ \<Rightarrow> Inl TypeError)"

definition to_acl :: string where
  "to_acl = fmt [''goto_table:'', int_str OF_TABLE_ACL]"

definition vif_input :: "string \<Rightarrow> vif \<Rightarrow> string list res" where
  "vif_input deploy v =
     (if deploy = ''qinq'' then
        bindR (outer_vni (vif_vni v)) (\<lambda>outer.
        Inr [fmt [tbl OF_TABLE_INPUT, '',in_port='', py_str (vif_ofp v), '',priority=100,action=load:'',
              py_str (vif_vni v), arrow, ''reg0[0..11],load:'', int_str outer, arrow, ''reg0[16..27],'', to_acl]])
      else
        Inr [fmt [tbl OF_TABLE_INPUT, '',in_port='', py_str (vif_ofp v), '',priority=100,action=load:'',
              py_str (vif_vni v), arrow, ''reg0[0..31],'', to_acl]])"

definition trunk_input :: "vswitch \<Rightarrow> bridge \<Rightarrow> string \<Rightarrow> string list" where
  "trunk_input vs br deploy =
     (let ups = map (\<lambda>u. py_str (up_ofp (deref vs u))) (br_uplinks br) in
      if deploy = ''tnl'' then
        map (\<lambda>tp. fmt [tbl OF_TABLE_INPUT, '',in_port='', int_str (tp_ofp tp), '',priority=100,action=move:tun_id[0..31]'',
                       arrow, ''reg0[0..31],'', to_acl]) (br_tnl_ports br)
      else if deploy = ''vlan'' then
        map (\<lambda>u. fmt [tbl OF_TABLE_INPUT, '',in_port='', u, '',priority=100,action=move:vlan_tci[0..11]'', arrow,
                      ''reg0[0..11],pop_vlan,'', to_acl]) ups
      else if deploy = ''qinq'' then
        map (\<lambda>u. fmt [tbl OF_TABLE_INPUT, '',in_port='', u, '',priority=100,action=move:vlan_tci[0..11]'', arrow,
                      ''reg0[16..27],pop_vlan,move:vlan_tci[0..11]'', arrow, ''reg0[0..11],pop_vlan,'', to_acl]) ups
      else [])"

definition generate_input_flows ::
  "sut list \<Rightarrow> nat \<Rightarrow> string \<Rightarrow> string \<Rightarrow> (nat \<Rightarrow> vif) \<Rightarrow> string list res" where
  "generate_input_flows ss k name deploy store =
     (if deploy = ''native'' then Inr [fmt [tbl OF_TABLE_INPUT, '',priority=100,action='', to_acl]]
      else
        bindR (attr_of (get_bridge (su_vswitch (ss ! k)) name)) (\<lambda>i.
        let br = vs_bridges (su_vswitch (ss ! k)) ! i in
        bindR (collectR (\<lambda>v. vif_input deploy (store v)) (br_vifs br)) (\<lambda>flows.
        Inr (flows @ trunk_input (su_vswitch (ss ! k)) br deploy))))"

section \<open>The default pipeline\<close>

definition core_flows :: "string list" where
  "core_flows =
     [fmt [tbl OF_TABLE_ACL, '',priority=1,action=drop''],
      fmt [tbl OF_TABLE_ACL, '',priority=100,action=goto_table:'', int_str OF_TABLE_CORE],
      fmt [tbl OF_TABLE_CORE, '',actions=learn'', lpar, tbl OF_TABLE_FIB, '',NXM_NX_REG0[0..31],'',
           ''NXM_OF_ETH_DST[]=NXM_OF_ETH_SRC[],load:NXM_OF_IN_PORT[]'', arrow, ''NXM_NX_REG1[0..15]'', rpar,
           '',goto_table:'', int_str OF_TABLE_NAT],
      fmt [tbl OF_TABLE_NAT, '',action=goto_table:'', int_str OF_TABLE_L2_MATCH],
      fmt [tbl OF_TABLE_L2_MATCH, '',actions=resubmit'', lpar, '','', int_str OF_TABLE_FIB, rpar,
           '',resubmit'', lpar, '','', int_str OF_TABLE_OUTPUT, rpar]]"

definition admiss_flow :: string where
  "admiss_flow = fmt [tbl OF_TABLE_ADMISS, '',priority=100,action=goto_table:'', int_str OF_TABLE_INPUT]"

definition setup_default_pipeline_on_all_suts :: "ssh_env \<Rightarrow> string \<Rightarrow> unit tbm" where
  "setup_default_pipeline_on_all_suts env br =
     for_suts (\<lambda>k.
       thenE (on_sut k (vs_run env (fmt [''ovs-ofctl del-flows '', br])))
      (bindE (readE (\<lambda>(ss, w). generate_input_flows ss k br ''native'' (w_vifs w))) (\<lambda>input.
       bindE (readE (\<lambda>(ss, w). generate_output_flows ss k br ''native'' False (w_vifs w))) (\<lambda>output.
       on_sut k (provision_flows env br ([admiss_flow] @ input @ core_flows @ output))))))"

end
