(* ===== verification/Flow_Spec.thy ===== *)
theory Flow_Spec imports Flows "HOL-Library.Word" begin

text \<open>
  The OUTPUT table as a table of flows rather than texts: the matches, priorities and actions that the
  generated texts say, and what a switch does with a packet on them (the documented meaning of these
  actions and of priorities in Open vSwitch).  The texts that \<open>generate_output_flows\<close> returns are the
  renderings of this table, so what is proved of the table holds of the code's flows.
\<close>

section \<open>Flows and their text\<close>

datatype slice = Low12 | High12 | Full

datatype action =
    Out string
  | SetTunDst ipaddr
  | TunIdFromReg0
  | Md0FromReg0
  | Md1Const
  | PushTag bool
  | OutReg1
  | LoadReg0 string slice
  | Reg0FromTunId
  | Reg0FromTci slice
  | PopVlan
  | Goto int

record oflow =
  of_tbl :: int
  of_in :: "string option"
  of_reg0 :: "(bool \<times> pyval) option"
  of_reg1 :: "string option"
  of_md :: "pyval option"
  of_prio :: nat
  of_acts :: "action list"

fun slice_text :: "slice \<Rightarrow> string" where
  "slice_text Low12 = ''reg0[0..11]''"
| "slice_text High12 = ''reg0[16..27]''"
| "slice_text Full = ''reg0[0..31]''"

fun act_text :: "action \<Rightarrow> string" where
  "act_text (Out p) = p"
| "act_text (SetTunDst a) = fmt [''set_field:'', ip_str a, arrow, ''tun_dst'']"
| "act_text TunIdFromReg0 = fmt [''move:reg0'', arrow, ''tun_id[0..31]'']"
| "act_text Md0FromReg0 = fmt [''move:reg0'', arrow, ''tun_metadata0[0..31]'']"
| "act_text Md1Const = fmt [''set_field:0x1234567890abcdef'', arrow, ''tun_metadata1'']"
| "act_text (PushTag outer) =
     (if outer then fmt [''push_vlan:0x88a8,move:reg0[16..27]'', arrow, ''vlan_tci[0..11],load:1'', arrow, ''vlan_tci[12]'']
      else fmt [''push_vlan:0x8100,move:reg0[0..11]'', arrow, ''vlan_tci[0..11],load:1'', arrow, ''vlan_tci[12]''])"
| "act_text OutReg1 = ''output:reg1''"
| "act_text (LoadReg0 v sl) = fmt [''load:'', v, arrow, slice_text sl]"
| "act_text Reg0FromTunId = fmt [''move:tun_id[0..31]'', arrow, ''reg0[0..31]'']"
| "act_text (Reg0FromTci sl) = fmt [''move:vlan_tci[0..11]'', arrow, slice_text sl]"
| "act_text PopVlan = ''pop_vlan''"
| "act_text (Goto t) = fmt [''goto_table:'', int_str t]"

definition opt_field :: "string \<Rightarrow> string option \<Rightarrow> string" where
  "opt_field key v = (case v of None \<Rightarrow> [] | Some x \<Rightarrow> fmt ['','', key, ''='', x])"

definition flow_text :: "oflow \<Rightarrow> string" where
  "flow_text f = fmt
     [tbl (of_tbl f), opt_field ''in_port'' (of_in f),
      (case of_reg0 f of None \<Rightarrow> [] | Some (low, v) \<Rightarrow> opt_field (if low then ''reg0[0..11]'' else ''reg0'') (Some (py_str v))),
      opt_field ''reg1'' (of_reg1 f),
      (case of_md f of None \<Rightarrow> []
       | Some v \<Rightarrow> fmt ['',tun_metadata0='', py_str v, '',tun_metadata1=0x1234567890abcdef'']),
      '',priority='', nat_str (of_prio f), '',action='', join_with '','' (map act_text (of_acts f))]"

section \<open>The table\<close>

definition tnl_acts :: "sut list \<Rightarrow> nat \<Rightarrow> tunnel_port \<Rightarrow> bool \<Rightarrow> action list" where
  "tnl_acts ss k tp md =
     (if tp_rip tp = PStr ''flow''
      then map (\<lambda>r. SetTunDst (ia_ipv4 (vs_tep_addr (su_vswitch r)))) (other_suts ss k) else [])
     @ (if tp_vni tp = PStr ''flow'' then [TunIdFromReg0] else [])
     @ (if md then [Md0FromReg0, Md1Const] else [])
     @ [Out (int_str (tp_ofp tp))]"

definition tag_acts :: "string \<Rightarrow> action list" where
  "tag_acts deploy = (if deploy = ''vlan'' then [PushTag False] else [PushTag False, PushTag True])"

definition uplink_ofps :: "vswitch \<Rightarrow> bridge \<Rightarrow> string list" where
  "uplink_ofps vs br = map (\<lambda>u. py_str (up_ofp (deref vs u))) (br_uplinks br)"

definition ext_acts :: "sut list \<Rightarrow> nat \<Rightarrow> bridge \<Rightarrow> string \<Rightarrow> bool \<Rightarrow> pyval \<Rightarrow> action list" where
  "ext_acts ss k br deploy md vni =
     (if deploy = ''tnl'' then
        concat (map (\<lambda>tp. tnl_acts ss k tp md)
          (filter (\<lambda>tp. tp_vni tp = PStr ''flow'' \<or> tp_vni tp = vni) (br_tnl_ports br)))
      else (if deploy = ''native'' then [] else tag_acts deploy)
           @ map Out (uplink_ofps (su_vswitch (ss ! k)) br))"

definition blank :: oflow where
  "blank = \<lparr>of_tbl = OF_TABLE_OUTPUT, of_in = None, of_reg0 = None, of_reg1 = None, of_md = None, of_prio = 0, of_acts = []\<rparr>"

definition flood_table ::
  "sut list \<Rightarrow> nat \<Rightarrow> bridge \<Rightarrow> string \<Rightarrow> bool \<Rightarrow> (nat \<Rightarrow> vif) \<Rightarrow> pyval \<times> nat list \<Rightarrow> oflow list" where
  "flood_table ss k br deploy md store = (\<lambda>(vni, vifs).
     let ofps = map (\<lambda>v. vif_ofp (store v)) vifs; back = map (Out \<circ> py_str) ofps in
     map (\<lambda>p. blank\<lparr>of_in := Some (py_str p), of_reg1 := Some ''0'', of_prio := 100,
            of_acts := map (Out \<circ> py_str) (filter (\<lambda>q. q \<noteq> p) ofps) @ ext_acts ss k br deploy md vni\<rparr>) ofps
     @ (if deploy = ''tnl'' then
          map (\<lambda>tp. blank\<lparr>of_in := Some (int_str (tp_ofp tp)), of_reg0 := Some (False, vni), of_reg1 := Some ''0'',
                 of_md := (if md then Some vni else None), of_prio := 100, of_acts := back\<rparr>) (br_tnl_ports br)
        else
          map (\<lambda>u. blank\<lparr>of_in := Some u, of_reg0 := (if deploy = ''native'' then None else Some (True, vni)),
                 of_reg1 := Some ''0'', of_prio := 100, of_acts := back\<rparr>) (uplink_ofps (su_vswitch (ss ! k)) br)))"

definition unicast_table ::
  "sut list \<Rightarrow> nat \<Rightarrow> bridge \<Rightarrow> string \<Rightarrow> bool \<Rightarrow> (nat \<Rightarrow> vif) \<Rightarrow> oflow list" where
  "unicast_table ss k br deploy md store =
     (if deploy = ''tnl'' then
        map (\<lambda>tp. blank\<lparr>of_reg1 := Some (int_str (tp_ofp tp)), of_prio := 20, of_acts := tnl_acts ss k tp md\<rparr>)
          (br_tnl_ports br)
      else
        map (\<lambda>u. blank\<lparr>of_reg1 := Some u, of_prio := 20,
               of_acts := (if deploy = ''native'' then [] else tag_acts deploy) @ [Out u]\<rparr>)
          (uplink_ofps (su_vswitch (ss ! k)) br))
     @ (if md then concat (map (\<lambda>tp. map (\<lambda>(vni, vs).
          blank\<lparr>of_in := Some (int_str (tp_ofp tp)), of_md := Some vni, of_prio := 15, of_acts := [OutReg1]\<rparr>)
          (br_vnis br)) (br_tnl_ports br)) else [])
     @ map (\<lambda>v. blank\<lparr>of_reg1 := Some (py_str (vif_ofp (store v))), of_prio := 10,
              of_acts := [Out (py_str (vif_ofp (store v)))]\<rparr>) (br_vifs br)"

definition output_table ::
  "sut list \<Rightarrow> nat \<Rightarrow> bridge \<Rightarrow> string \<Rightarrow> bool \<Rightarrow> (nat \<Rightarrow> vif) \<Rightarrow> oflow list" where
  "output_table ss k br deploy md store =
     concat (map (flood_table ss k br deploy md store) (br_vnis br)) @ unicast_table ss k br deploy md store"

section \<open>The texts are the renderings\<close>

lemma join_with_append:
  "join_with '','' (xs @ ys) =
     (if xs = [] then join_with '','' ys else if ys = [] then join_with '','' xs
      else join_with '','' xs @ '','' @ join_with '','' ys)"
proof (induction xs rule: join_with.induct [of _ "'',''"])
  case (2 x)
  then show ?case by (cases ys) simp_all
qed simp_all

lemma append_as_join:
  "[] \<notin> set ys \<Longrightarrow> append_as (join_with '','' xs) (join_with '','' ys) = join_with '','' (xs @ ys)"
  if "[] \<notin> set xs"
proof -
  assume ys: "[] \<notin> set ys"
  have ne: "join_with '','' zs = [] \<longleftrightarrow> zs = []" if "[] \<notin> set zs" for zs
    using that by (induction zs rule: join_with.induct [of _ "'',''"]) auto
  show ?thesis
    using ne [OF that] ne [OF ys] by (simp add: append_as_def join_with_append)
qed

lemma append_as_one:
  "[] \<notin> set xs \<Longrightarrow> y \<noteq> [] \<Longrightarrow> append_as (join_with '','' xs) y = join_with '','' (xs @ [y])"
  using append_as_join [of xs "[y]"] by simp

lemma act_text_ne: "a \<noteq> Out [] \<Longrightarrow> act_text a \<noteq> []"
  by (cases a) (simp_all add: fmt_def)

definition outs_ok :: "action list \<Rightarrow> bool" where
  "outs_ok as \<longleftrightarrow> Out [] \<notin> set as"

lemma outs_ok_simps [simp]:
  "outs_ok []" "outs_ok (a # as) \<longleftrightarrow> a \<noteq> Out [] \<and> outs_ok as"
  "outs_ok (as @ bs) \<longleftrightarrow> outs_ok as \<and> outs_ok bs"
  by (auto simp: outs_ok_def)

lemma outs_ok_texts: "outs_ok as \<Longrightarrow> [] \<notin> set (map act_text as)"
proof (induction as)
  case (Cons a as)
  then have "act_text a \<noteq> []" "[] \<notin> set (map act_text as)" by (simp_all add: act_text_ne)
  then show ?case by auto
qed simp

definition acts_text :: "action list \<Rightarrow> string" where
  "acts_text as = join_with '','' (map act_text as)"

lemma append_acts:
  "outs_ok as \<Longrightarrow> outs_ok bs \<Longrightarrow> append_as (acts_text as) (acts_text bs) = acts_text (as @ bs)"
  unfolding acts_text_def map_append by (intro append_as_join outs_ok_texts)

lemma acts_text_one [simp]: "acts_text [a] = act_text a" "acts_text [] = []"
  by (simp_all add: acts_text_def)

lemma append_act: "outs_ok as \<Longrightarrow> a \<noteq> Out [] \<Longrightarrow> append_as (acts_text as) (act_text a) = acts_text (as @ [a])"
  using append_acts [of as "[a]"] by simp

lemma foldl_outs:
  "outs_ok as \<Longrightarrow> [] \<notin> set ps \<Longrightarrow> foldl append_as (acts_text as) ps = acts_text (as @ map Out ps)"
proof (induction ps arbitrary: as)
  case (Cons p ps)
  then have "p \<noteq> []" by auto
  with Cons have "foldl append_as (acts_text as) (p # ps) = foldl append_as (acts_text (as @ [Out p])) ps"
    using append_act [of as "Out p"] by simp
  with Cons \<open>p \<noteq> []\<close> show ?case by simp
qed simp

lemma foldl_map: "foldl (\<lambda>a x. f a (g x)) a xs = foldl f a (map g xs)"
  by (induction xs arbitrary: a) simp_all

lemma tnl_as_text: "tnl_as ss k tp md = acts_text (tnl_acts ss k tp md)"
  and tnl_acts_ok: "outs_ok (tnl_acts ss k tp md)"
proof -
  have sets: "foldl (\<lambda>a r. append_as a (fmt [''set_field:'', ip_str (ia_ipv4 (vs_tep_addr (su_vswitch r))),
        arrow, ''tun_dst''])) (acts_text as) rs
      = acts_text (as @ map (\<lambda>r. SetTunDst (ia_ipv4 (vs_tep_addr (su_vswitch r)))) rs)"
    if "outs_ok as" for as rs
    using that
  proof (induction rs arbitrary: as)
    case (Cons r rs)
    then show ?case
      using append_act [of as "SetTunDst (ia_ipv4 (vs_tep_addr (su_vswitch r)))"] by simp
  qed simp
  define a0 where "a0 = (if tp_rip tp = PStr ''flow''
      then map (\<lambda>r. SetTunDst (ia_ipv4 (vs_tep_addr (su_vswitch r)))) (other_suts ss k) else [])"
  define a1 where "a1 = a0 @ (if tp_vni tp = PStr ''flow'' then [TunIdFromReg0] else [])"
  define a2 where "a2 = a1 @ (if md then [Md0FromReg0, Md1Const] else [])"
  have ok: "outs_ok a0" "outs_ok a1" "outs_ok a2"
    by (auto simp: a0_def a1_def a2_def outs_ok_def)
  then show "outs_ok (tnl_acts ss k tp md)"
    by (simp add: tnl_acts_def a0_def)
  have e0: "(if tp_rip tp = PStr ''flow''
      then foldl (\<lambda>a r. append_as a (fmt [''set_field:'', ip_str (ia_ipv4 (vs_tep_addr (su_vswitch r))),
        arrow, ''tun_dst''])) [] (other_suts ss k) else []) = acts_text a0"
    using sets [of "[]" "other_suts ss k"] by (simp add: a0_def)
  have e1: "(if tp_vni tp = PStr ''flow''
      then append_as (acts_text a0) (fmt [''move:reg0'', arrow, ''tun_id[0..31]'']) else acts_text a0) = acts_text a1"
    using append_act [OF ok(1), of TunIdFromReg0] by (simp add: a1_def)
  have e2: "(if md then append_as (append_as (acts_text a1) (fmt [''move:reg0'', arrow, ''tun_metadata0[0..31]'']))
        (fmt [''set_field:0x1234567890abcdef'', arrow, ''tun_metadata1'']) else acts_text a1) = acts_text a2"
    using append_act [OF ok(2), of Md0FromReg0] append_act [of "a1 @ [Md0FromReg0]" Md1Const] ok(2)
    by (simp add: a2_def)
  have "tnl_as ss k tp md = append_as (acts_text a2) (act_text (Out (int_str (tp_ofp tp))))"
    unfolding tnl_as_def Let_def e0 e1 e2 by simp
  also have "\<dots> = acts_text (tnl_acts ss k tp md)"
    using append_act [OF ok(3), of "Out (int_str (tp_ofp tp))"]
    by (simp add: a0_def a1_def a2_def tnl_acts_def)
  finally show "tnl_as ss k tp md = acts_text (tnl_acts ss k tp md)" .
qed

lemma uplink_as_text:
  "deploy \<in> {''vlan'', ''qinq''} \<Longrightarrow> uplink_as deploy = acts_text (tag_acts deploy)" "outs_ok (tag_acts deploy)"
  by (auto simp: uplink_as_def tag_acts_def acts_text_def fmt_def)

definition texts_ok :: "vswitch \<Rightarrow> bridge \<Rightarrow> (nat \<Rightarrow> vif) \<Rightarrow> bool" where
  "texts_ok vs br store \<longleftrightarrow>
     (\<forall>(vni, vifs) \<in> set (br_vnis br). vifs \<noteq> [] \<and> (\<forall>v \<in> set vifs. py_str (vif_ofp (store v)) \<noteq> []))
     \<and> [] \<notin> set (uplink_ofps vs br)"

lemma outs_ok_map: "outs_ok (map (Out \<circ> f) xs) \<longleftrightarrow> (\<forall>x \<in> set xs. f x \<noteq> [])"
  by (induction xs) auto

lemma foldl_local:
  "outs_ok as \<Longrightarrow> \<forall>q \<in> set ofps. py_str q \<noteq> [] \<Longrightarrow>
   foldl (\<lambda>a q. if q = p then a else append_as a (py_str q)) (acts_text as) ofps
     = acts_text (as @ map (Out \<circ> py_str) (filter (\<lambda>q. q \<noteq> p) ofps))"
proof (induction ofps arbitrary: as)
  case (Cons q ofps)
  then show ?case using append_act [of as "Out (py_str q)"] by simp
qed simp

lemma foldl_tunnels:
  "outs_ok as \<Longrightarrow>
   foldl (\<lambda>a tp. if tp_vni tp \<noteq> PStr ''flow'' \<and> tp_vni tp \<noteq> vni then a else append_as a (tnl_as ss k tp md))
     (acts_text as) tps
   = acts_text (as @ concat (map (\<lambda>tp. tnl_acts ss k tp md)
       (filter (\<lambda>tp. tp_vni tp = PStr ''flow'' \<or> tp_vni tp = vni) tps)))"
proof (induction tps arbitrary: as)
  case (Cons tp tps)
  then show ?case
    using append_acts [of as "tnl_acts ss k tp md"] tnl_acts_ok [of ss k tp md]
    by (simp add: tnl_as_text)
qed simp

lemma ext_acts_ok: "[] \<notin> set (uplink_ofps (su_vswitch (ss ! k)) br) \<Longrightarrow> outs_ok (ext_acts ss k br deploy md vni)"
proof -
  assume "[] \<notin> set (uplink_ofps (su_vswitch (ss ! k)) br)"
  then have "outs_ok (map Out (uplink_ofps (su_vswitch (ss ! k)) br))"
    by (auto simp: outs_ok_def)
  moreover have "outs_ok (concat (map (\<lambda>tp. tnl_acts ss k tp md) tps))" for tps
    by (induction tps) (simp_all add: tnl_acts_ok)
  ultimately show ?thesis
    by (simp add: ext_acts_def uplink_as_text(2))
qed

lemma flood_as_text:
  assumes "deploy \<in> {''tnl'', ''vlan'', ''qinq'', ''native''}" "\<forall>q \<in> set ofps. py_str q \<noteq> []"
    and ups: "[] \<notin> set (uplink_ofps (su_vswitch (ss ! k)) br)"
  shows "flood_as ss k br deploy md vni ofps p
     = acts_text (map (Out \<circ> py_str) (filter (\<lambda>q. q \<noteq> p) ofps) @ ext_acts ss k br deploy md vni)"
proof -
  let ?loc = "map (Out \<circ> py_str) (filter (\<lambda>q. q \<noteq> p) ofps)"
  have loc: "foldl (\<lambda>a q. if q = p then a else append_as a (py_str q)) [] ofps = acts_text ?loc"
    using foldl_local [of "[]" ofps p] assms(2) by simp
  have ok: "outs_ok ?loc" using assms(2) by (simp add: outs_ok_map)
  have ups': "foldl append_as (acts_text as) (uplink_ofps (su_vswitch (ss ! k)) br)
      = acts_text (as @ map Out (uplink_ofps (su_vswitch (ss ! k)) br))" if "outs_ok as" for as
    using foldl_outs [OF that ups] .
  have "append_as (acts_text ?loc) (uplink_as deploy) = acts_text (?loc @ tag_acts deploy)"
    if "deploy \<in> {''vlan'', ''qinq''}"
    unfolding uplink_as_text(1) [OF that] by (rule append_acts [OF ok uplink_as_text(2)])
  then show ?thesis
    using assms(1) foldl_tunnels [OF ok, of vni ss k md "br_tnl_ports br"] ups' [OF ok]
      ups' [of "?loc @ tag_acts deploy"] ok uplink_as_text(2) [of deploy]
    unfolding flood_as_def Let_def loc ext_acts_def uplink_ofps_def [symmetric] by auto
qed

lemma prio_text [simp]:
  "nat_str 100 = ''100''" "nat_str 20 = ''20''" "nat_str 15 = ''15''" "nat_str 10 = ''10''"
  by (simp_all add: nat_str_eval)

lemma flow_text_eq:
  "flow_text f = fmt
     [tbl (of_tbl f), opt_field ''in_port'' (of_in f),
      (case of_reg0 f of None \<Rightarrow> [] | Some (low, v) \<Rightarrow> opt_field (if low then ''reg0[0..11]'' else ''reg0'') (Some (py_str v))),
      opt_field ''reg1'' (of_reg1 f),
      (case of_md f of None \<Rightarrow> []
       | Some v \<Rightarrow> fmt ['',tun_metadata0='', py_str v, '',tun_metadata1=0x1234567890abcdef'']),
      '',priority='', nat_str (of_prio f), '',action='', acts_text (of_acts f)]"
  by (simp add: flow_text_def acts_text_def)

lemma back_text:
  assumes "\<forall>q \<in> set ofps. py_str q \<noteq> []"
  shows "foldl (\<lambda>a q. append_as a (py_str q)) [] ofps = acts_text (map (Out \<circ> py_str) ofps)"
proof -
  have "[] \<notin> set (map py_str ofps)" using assms by auto
  from foldl_outs [of "[]", OF _ this] show ?thesis
    by (simp add: foldl_map [of append_as py_str])
qed

lemma vni_flows_text:
  assumes deploy: "deploy \<in> {''tnl'', ''vlan'', ''qinq'', ''native''}"
    and ne: "vifs \<noteq> []" "\<forall>v \<in> set vifs. py_str (vif_ofp (store v)) \<noteq> []"
    and ups: "[] \<notin> set (uplink_ofps (su_vswitch (ss ! k)) br)"
  shows "vni_flows ss k br deploy md store (vni, vifs)
     = Inr (map flow_text (flood_table ss k br deploy md store (vni, vifs)))"
proof -
  let ?ofps = "map (\<lambda>v. vif_ofp (store v)) vifs"
  have ofps: "\<forall>q \<in> set ?ofps. py_str q \<noteq> []" using ne(2) by auto
  note bk = back_text [OF ofps]
  have back_ne: "acts_text (map (Out \<circ> py_str) ?ofps) \<noteq> []"
    using ne by (cases vifs; cases "tl vifs") (simp_all add: acts_text_def)
  have flood: "flood_as ss k br deploy md vni ?ofps p
      = acts_text (map (Out \<circ> py_str) (filter (\<lambda>q. q \<noteq> p) ?ofps) @ ext_acts ss k br deploy md vni)" for p
    using flood_as_text [OF deploy ofps ups] .
  show ?thesis
    using ne(1) back_ne deploy unfolding vni_flows_def Let_def prod.case bk flood uplink_ofps_def [symmetric]
    by (auto simp: flood_table_def Let_def flow_text_eq opt_field_def fmt_def blank_def)
qed

lemma unicast_text:
  assumes deploy: "deploy \<in> {''tnl'', ''vlan'', ''qinq'', ''native''}"
  shows "unicast_flows ss k br deploy md store = map flow_text (unicast_table ss k br deploy md store)"
proof -
  have tagged: "fmt [tbl OF_TABLE_OUTPUT, '',reg1='', u, '',priority=20,action='', uplink_as deploy, '','', u]
      = flow_text (blank\<lparr>of_reg1 := Some u, of_prio := 20, of_acts := tag_acts deploy @ [Out u]\<rparr>)"
    if "deploy \<in> {''vlan'', ''qinq''}" for u :: string
    using that by (auto simp: flow_text_eq opt_field_def fmt_def blank_def acts_text_def tag_acts_def
        uplink_as_def)
  have low: "map (\<lambda>v. fmt [tbl OF_TABLE_OUTPUT, '',reg1='', py_str (vif_ofp (store v)), '',priority=10,action='',
        py_str (vif_ofp (store v))]) vs
      = map flow_text (map (\<lambda>v. blank\<lparr>of_reg1 := Some (py_str (vif_ofp (store v))), of_prio := 10,
              of_acts := [Out (py_str (vif_ofp (store v)))]\<rparr>) vs)" for vs
    by (simp add: flow_text_eq opt_field_def fmt_def blank_def)
  have meta: "map (\<lambda>(vni, vs).
        fmt [tbl OF_TABLE_OUTPUT, '',in_port='', p, '',tun_metadata0='', py_str vni,
          '',tun_metadata1=0x1234567890abcdef,priority=15,action=output:reg1'']) ks
      = map flow_text (map (\<lambda>(vni, vs).
          blank\<lparr>of_in := Some p, of_md := Some vni, of_prio := 15, of_acts := [OutReg1]\<rparr>) ks)"
    for p and ks :: "(pyval \<times> nat list) list"
    by (simp add: flow_text_eq opt_field_def fmt_def blank_def split_beta)
  have ext: "(if deploy = ''tnl'' then
         map (\<lambda>tp. fmt [tbl OF_TABLE_OUTPUT, '',reg1='', int_str (tp_ofp tp), '',priority=20,action='',
                        tnl_as ss k tp md]) (br_tnl_ports br)
       else if deploy = ''vlan'' \<or> deploy = ''qinq'' then
         map (\<lambda>u. fmt [tbl OF_TABLE_OUTPUT, '',reg1='', u, '',priority=20,action='', uplink_as deploy, '','', u]) ups
       else map (\<lambda>u. fmt [tbl OF_TABLE_OUTPUT, '',reg1='', u, '',priority=20,action='', u]) ups)
    = map flow_text (if deploy = ''tnl'' then
        map (\<lambda>tp. blank\<lparr>of_reg1 := Some (int_str (tp_ofp tp)), of_prio := 20, of_acts := tnl_acts ss k tp md\<rparr>)
          (br_tnl_ports br)
      else map (\<lambda>u. blank\<lparr>of_reg1 := Some u, of_prio := 20,
               of_acts := (if deploy = ''native'' then [] else tag_acts deploy) @ [Out u]\<rparr>) ups)" for ups
    using deploy tagged
    by (auto simp: flow_text_eq opt_field_def fmt_def blank_def tnl_as_text)
  show ?thesis
    unfolding unicast_flows_def unicast_table_def Let_def map_append map_concat map_map
      uplink_ofps_def [symmetric] ext low
    by (simp add: meta [unfolded map_map] comp_def map_concat)
qed

text \<open>The texts of the whole OUTPUT table.\<close>

lemma output_texts:
  assumes "deploy \<in> {''tnl'', ''vlan'', ''qinq'', ''native''}"
    and "get_bridge (su_vswitch (ss ! k)) name = Some i"
    and "texts_ok (su_vswitch (ss ! k)) (vs_bridges (su_vswitch (ss ! k)) ! i) store"
  shows "generate_output_flows ss k name deploy md store
     = Inr (map flow_text (output_table ss k (vs_bridges (su_vswitch (ss ! k)) ! i) deploy md store))"
proof -
  let ?br = "vs_bridges (su_vswitch (ss ! k)) ! i"
  have "vni_flows ss k ?br deploy md store g = Inr (map flow_text (flood_table ss k ?br deploy md store g))"
    if g: "g \<in> set (br_vnis ?br)" for g
  proof -
    obtain vni vifs where "g = (vni, vifs)" by (cases g)
    with vni_flows_text [OF assms(1), of vifs store ss k ?br md vni] assms(3) g show ?thesis
      by (auto simp: texts_ok_def)
  qed
  then have "collectR (vni_flows ss k ?br deploy md store) (br_vnis ?br)
      = Inr (concat (map (\<lambda>g. map flow_text (flood_table ss k ?br deploy md store g)) (br_vnis ?br)))"
    by (rule collectR_total)
  with assms(1,2) show ?thesis
    by (auto simp: generate_output_flows_def attr_of_def output_table_def unicast_text map_concat comp_def Let_def)
qed

section \<open>The INPUT table\<close>

definition vif_input_flow :: "string \<Rightarrow> vif \<Rightarrow> oflow" where
  "vif_input_flow deploy v =
     blank\<lparr>of_tbl := OF_TABLE_INPUT, of_in := Some (py_str (vif_ofp v)), of_prio := 100,
       of_acts := (if deploy = ''qinq''
         then [LoadReg0 (py_str (vif_vni v)) Low12,
               LoadReg0 (case outer_vni (vif_vni v) of Inl _ \<Rightarrow> [] | Inr n \<Rightarrow> int_str n) High12]
         else [LoadReg0 (py_str (vif_vni v)) Full]) @ [Goto OF_TABLE_ACL]\<rparr>"

definition trunk_acts :: "string \<Rightarrow> action list" where
  "trunk_acts deploy =
     (if deploy = ''tnl'' then [Reg0FromTunId]
      else if deploy = ''vlan'' then [Reg0FromTci Low12, PopVlan]
      else [Reg0FromTci High12, PopVlan, Reg0FromTci Low12, PopVlan]) @ [Goto OF_TABLE_ACL]"

definition input_table :: "vswitch \<Rightarrow> bridge \<Rightarrow> string \<Rightarrow> (nat \<Rightarrow> vif) \<Rightarrow> oflow list" where
  "input_table vs br deploy store =
     map (\<lambda>v. vif_input_flow deploy (store v)) (br_vifs br)
     @ map (\<lambda>p. blank\<lparr>of_tbl := OF_TABLE_INPUT, of_in := Some p, of_prio := 100, of_acts := trunk_acts deploy\<rparr>)
         (if deploy = ''tnl'' then map (int_str \<circ> tp_ofp) (br_tnl_ports br) else uplink_ofps vs br)"

lemma vif_input_text:
  assumes "deploy = ''qinq'' \<longrightarrow> (\<exists>i. vif_vni v = PInt i)"
  shows "vif_input deploy v = Inr [flow_text (vif_input_flow deploy v)]"
  using assms
  by (auto simp: vif_input_def vif_input_flow_def flow_text_def blank_def opt_field_def fmt_def outer_vni_def
      to_acl_def)

lemma trunk_input_text:
  "deploy \<in> {''tnl'', ''vlan'', ''qinq''} \<Longrightarrow>
   trunk_input vs br deploy = map (\<lambda>p. flow_text (blank\<lparr>of_tbl := OF_TABLE_INPUT, of_in := Some p, of_prio := 100,
       of_acts := trunk_acts deploy\<rparr>))
     (if deploy = ''tnl'' then map (int_str \<circ> tp_ofp) (br_tnl_ports br) else uplink_ofps vs br)"
  by (auto simp: trunk_input_def trunk_acts_def flow_text_def blank_def opt_field_def fmt_def
      to_acl_def uplink_ofps_def Let_def)

text \<open>The texts of the whole INPUT table.\<close>

lemma input_texts:
  assumes "deploy \<in> {''tnl'', ''vlan'', ''qinq''}"
    and "get_bridge (su_vswitch (ss ! k)) name = Some i"
    and "deploy = ''qinq'' \<longrightarrow>
      (\<forall>v \<in> set (br_vifs (vs_bridges (su_vswitch (ss ! k)) ! i)). \<exists>n. vif_vni (store v) = PInt n)"
  shows "generate_input_flows ss k name deploy store
     = Inr (map flow_text (input_table (su_vswitch (ss ! k)) (vs_bridges (su_vswitch (ss ! k)) ! i) deploy store))"
proof -
  let ?br = "vs_bridges (su_vswitch (ss ! k)) ! i"
  have "collectR (\<lambda>v. vif_input deploy (store v)) (br_vifs ?br)
      = Inr (concat (map (\<lambda>v. [flow_text (vif_input_flow deploy (store v))]) (br_vifs ?br)))"
    using assms(3) by (intro collectR_total vif_input_text) auto
  with assms(1,2) trunk_input_text [OF assms(1)] show ?thesis
    by (auto simp: generate_input_flows_def attr_of_def input_table_def Let_def comp_def)
qed

section \<open>What a switch does with a packet\<close>

record pkt =
  pk_in :: int
  pk_reg0 :: "32 word"
  pk_reg1 :: int
  pk_tags :: "(nat \<times> 12 word) list"
  pk_tun_dst :: "ipaddr option"
  pk_tun_id :: "32 word"
  pk_md0 :: "32 word"
  pk_md1 :: "64 word"

definition md1_const :: "64 word" where
  "md1_const = 0x1234567890abcdef"

unbundle bit_operations_syntax

definition get12 :: "nat \<Rightarrow> 32 word \<Rightarrow> 12 word" where
  "get12 lo r = ucast (drop_bit lo r)"

definition set12 :: "nat \<Rightarrow> 12 word \<Rightarrow> 32 word \<Rightarrow> 32 word" where
  "set12 lo v r = (r AND NOT (push_bit lo (mask 12))) OR push_bit lo (ucast v)"

fun set_slice :: "slice \<Rightarrow> int \<Rightarrow> 32 word \<Rightarrow> 32 word" where
  "set_slice Low12 v r = set12 0 (word_of_int v) r"
| "set_slice High12 v r = set12 16 (word_of_int v) r"
| "set_slice Full v r = word_of_int v"

fun apply_act :: "action \<Rightarrow> pkt \<Rightarrow> pkt" where
  "apply_act (SetTunDst a) p = p\<lparr>pk_tun_dst := Some a\<rparr>"
| "apply_act TunIdFromReg0 p = p\<lparr>pk_tun_id := pk_reg0 p\<rparr>"
| "apply_act Md0FromReg0 p = p\<lparr>pk_md0 := pk_reg0 p\<rparr>"
| "apply_act Md1Const p = p\<lparr>pk_md1 := md1_const\<rparr>"
| "apply_act (PushTag outer) p =
     p\<lparr>pk_tags := (if outer then (0x88a8, get12 16 (pk_reg0 p)) else (0x8100, get12 0 (pk_reg0 p))) # pk_tags p\<rparr>"
| "apply_act (LoadReg0 v sl) p =
     (case py_int v of Inr n \<Rightarrow> p\<lparr>pk_reg0 := set_slice sl n (pk_reg0 p)\<rparr> | Inl _ \<Rightarrow> p)"
| "apply_act Reg0FromTunId p = p\<lparr>pk_reg0 := pk_tun_id p\<rparr>"
| "apply_act (Reg0FromTci sl) p =
     (case pk_tags p of [] \<Rightarrow> p | (_, vid) # _ \<Rightarrow> p\<lparr>pk_reg0 := set_slice sl (uint vid) (pk_reg0 p)\<rparr>)"
| "apply_act PopVlan p = p\<lparr>pk_tags := tl (pk_tags p)\<rparr>"
| "apply_act _ p = p"

definition port_of :: "string \<Rightarrow> int" where
  "port_of s = (case py_int s of Inr n \<Rightarrow> n | Inl _ \<Rightarrow> - 1)"

fun emit :: "action \<Rightarrow> pkt \<Rightarrow> (int \<times> pkt) list" where
  "emit (Out s) p = [(port_of s, p)]"
| "emit OutReg1 p = [(pk_reg1 p, p)]"
| "emit _ p = []"

text \<open>The copies that leave, each with its port, and the packet after all actions.\<close>

primrec outputs :: "action list \<Rightarrow> pkt \<Rightarrow> (int \<times> pkt) list" where
  "outputs [] p = []"
| "outputs (a # as) p = emit a p @ outputs as (apply_act a p)"

definition rewrite :: "action list \<Rightarrow> pkt \<Rightarrow> pkt" where
  "rewrite as p = fold apply_act as p"

definition field_is :: "string \<Rightarrow> int \<Rightarrow> bool" where
  "field_is s n \<longleftrightarrow> py_int s = Inr n"

definition matches :: "oflow \<Rightarrow> pkt \<Rightarrow> bool" where
  "matches f p \<longleftrightarrow>
     (case of_in f of None \<Rightarrow> True | Some s \<Rightarrow> field_is s (pk_in p))
     \<and> (case of_reg0 f of None \<Rightarrow> True
        | Some (low, v) \<Rightarrow> field_is (py_str v) (if low then uint (get12 0 (pk_reg0 p)) else uint (pk_reg0 p)))
     \<and> (case of_reg1 f of None \<Rightarrow> True | Some s \<Rightarrow> field_is s (pk_reg1 p))
     \<and> (case of_md f of None \<Rightarrow> True
        | Some v \<Rightarrow> field_is (py_str v) (uint (pk_md0 p)) \<and> pk_md1 p = md1_const)"

text \<open>
  The table forwards \<open>p\<close> as \<open>out\<close>: a matching flow does so, and every other matching flow has a lower
  priority or the same actions, so whichever flow the switch picks, this is the result.
\<close>

definition forwards :: "oflow list \<Rightarrow> pkt \<Rightarrow> (int \<times> pkt) list \<Rightarrow> bool" where
  "forwards fs p out \<longleftrightarrow>
     (\<exists>f \<in> set fs. matches f p \<and> outputs (of_acts f) p = out
        \<and> (\<forall>g \<in> set fs. matches g p \<longrightarrow> of_prio g < of_prio f \<or> of_acts g = of_acts f))"

text \<open>In the same way the INPUT table takes \<open>p\<close> in as \<open>p'\<close>: that is what the chosen flow makes of it.\<close>

definition takes_in :: "oflow list \<Rightarrow> pkt \<Rightarrow> pkt \<Rightarrow> bool" where
  "takes_in fs p p' \<longleftrightarrow>
     (\<exists>f \<in> set fs. matches f p \<and> rewrite (of_acts f) p = p'
        \<and> (\<forall>g \<in> set fs. matches g p \<longrightarrow> of_prio g < of_prio f \<or> of_acts g = of_acts f))"

end
