(* ===== verification/Flow_Facts.thy ===== *)
theory Flow_Facts imports Flow_Spec begin

text \<open>
  What the generated flows do: the texts are those of the specified tables; broadcast from a local port
  reaches the other local ports of its VNI and the external ports and never comes back; traffic from
  an external port is never sent to an external port again; unicast goes to one port; and the VNI
  survives the way over VLAN and QinQ tags.
\<close>

section \<open>Running actions\<close>

lemma outputs_append: "outputs (as @ bs) p = outputs as p @ outputs bs (rewrite as p)"
  by (induction as arbitrary: p) (simp_all add: rewrite_def)

lemma outputs_outs: "outputs (map (Out \<circ> f) qs) p = map (\<lambda>q. (port_of (f q), p)) qs"
  and rewrite_outs: "rewrite (map (Out \<circ> f) qs) p = p"
  by (induction qs) (simp_all add: rewrite_def)

lemma outputs_ports:
  "OutReg1 \<notin> set as \<Longrightarrow> (n, q) \<in> set (outputs as p) \<Longrightarrow> \<exists>s. Out s \<in> set as \<and> n = port_of s"
proof (induction as arbitrary: p)
  case (Cons a as)
  then show ?case by (cases a) fastforce+
qed simp

section \<open>Ports\<close>

definition local_ports :: "bridge \<Rightarrow> (nat \<Rightarrow> vif) \<Rightarrow> string list" where
  "local_ports br store = concat (map (\<lambda>g. map (\<lambda>v. py_str (vif_ofp (store v))) (snd g)) (br_vnis br))"

definition ext_ports :: "vswitch \<Rightarrow> bridge \<Rightarrow> string list" where
  "ext_ports vs br = map (int_str \<circ> tp_ofp) (br_tnl_ports br) @ uplink_ofps vs br"

text \<open>All ports of the bridge are numbers, and pairwise different.\<close>

definition ports_ok :: "vswitch \<Rightarrow> bridge \<Rightarrow> (nat \<Rightarrow> vif) \<Rightarrow> bool" where
  "ports_ok vs br store \<longleftrightarrow>
     (\<forall>s \<in> set (local_ports br store @ ext_ports vs br). \<exists>n. py_int s = Inr n)
     \<and> distinct (map py_int (local_ports br store @ ext_ports vs br))"

lemma distinct_groups:
  "distinct (concat (map (\<lambda>g. map h (snd g)) gs)) \<Longrightarrow> a \<in> set gs \<Longrightarrow> b \<in> set gs \<Longrightarrow>
   v \<in> set (snd a) \<Longrightarrow> v' \<in> set (snd b) \<Longrightarrow> h v = h v' \<Longrightarrow> a = b \<and> v = v'"
proof (induction gs)
  case (Cons g gs)
  let ?rest = "concat (map (\<lambda>g. map h (snd g)) gs)"
  have inj: "distinct (map h (snd g))" and dis: "h ` set (snd g) \<inter> set ?rest = {}" "distinct ?rest"
    using Cons.prems(1) by auto
  have rest: "h w \<in> set ?rest" if "c \<in> set gs" "w \<in> set (snd c)" for c w
    using that by auto
  consider "a = g" "b = g" | "a = g" "b \<in> set gs" | "a \<in> set gs" "b = g" | "a \<in> set gs" "b \<in> set gs"
    using Cons.prems(2,3) by auto
  then show ?case
  proof cases
    case 1
    then show ?thesis using Cons.prems inj by (auto simp: distinct_map dest: inj_onD)
  next
    case 2
    have "h v \<in> h ` set (snd g)" "h v' \<in> set ?rest" using 2 Cons.prems rest by blast+
    then show ?thesis using dis Cons.prems(6) by auto
  next
    case 3
    have "h v' \<in> h ` set (snd g)" "h v \<in> set ?rest" using 3 Cons.prems rest by blast+
    then show ?thesis using dis Cons.prems(6) by auto
  next
    case 4
    then show ?thesis using Cons.IH dis Cons.prems by blast
  qed
qed simp

lemma local_unique:
  assumes "ports_ok vs br store" "(vni, vifs) \<in> set (br_vnis br)" "(vni', vifs') \<in> set (br_vnis br)"
    and "v \<in> set vifs" "v' \<in> set vifs'"
    and "field_is (py_str (vif_ofp (store v))) n" "field_is (py_str (vif_ofp (store v'))) n"
  shows "vni' = vni \<and> vifs' = vifs \<and> v' = v"
proof -
  have "distinct (map py_int (local_ports br store))"
    using assms(1) by (simp add: ports_ok_def)
  moreover have "map py_int (local_ports br store)
      = concat (map (\<lambda>g. map (\<lambda>v. py_int (py_str (vif_ofp (store v)))) (snd g)) (br_vnis br))"
    by (simp add: local_ports_def map_concat comp_def)
  ultimately show ?thesis
    using distinct_groups [of "\<lambda>v. py_int (py_str (vif_ofp (store v)))" "br_vnis br"
        "(vni, vifs)" "(vni', vifs')" v v'] assms by (auto simp: field_is_def)
qed

lemma local_not_ext:
  assumes "ports_ok vs br store" "(vni, vifs) \<in> set (br_vnis br)" "v \<in> set vifs"
    and "field_is (py_str (vif_ofp (store v))) n" "s \<in> set (ext_ports vs br)"
  shows "\<not> field_is s n"
proof
  assume "field_is s n"
  have "py_str (vif_ofp (store v)) \<in> set (local_ports br store)"
    using assms(2,3) by (force simp: local_ports_def)
  then have "py_int (py_str (vif_ofp (store v))) \<in> py_int ` set (local_ports br store)" by blast
  moreover have "py_int s \<in> py_int ` set (ext_ports vs br)" using assms(5) by blast
  ultimately show False
    using assms(1,4) \<open>field_is s n\<close> by (auto simp: ports_ok_def field_is_def)
qed

lemma field_zero: "field_is ''0'' 0"
  by (simp add: field_is_def py_int_def strip_def lstrip_def py_space_def is_digit_def digit_val_def)

lemma ports_number: "ports_ok vs br store \<Longrightarrow> s \<in> set (local_ports br store @ ext_ports vs br) \<Longrightarrow> s \<noteq> []"
proof -
  assume "ports_ok vs br store" "s \<in> set (local_ports br store @ ext_ports vs br)"
  then obtain n where "py_int s = Inr n" unfolding ports_ok_def by blast
  then show "s \<noteq> []" by (auto simp: py_int_def strip_def lstrip_def)
qed

lemma ports_texts:
  assumes "ports_ok vs br store" "\<forall>g \<in> set (br_vnis br). snd g \<noteq> []"
  shows "texts_ok vs br store"
  unfolding texts_ok_def
proof (intro conjI ballI)
  fix g assume g: "g \<in> set (br_vnis br)"
  have "py_str (vif_ofp (store v)) \<noteq> []" if "v \<in> set (snd g)" for v
    using that g by (intro ports_number [OF assms(1)]) (force simp: local_ports_def)
  with assms(2) g show "case g of (vni, vifs) \<Rightarrow> vifs \<noteq> [] \<and> (\<forall>v \<in> set vifs. py_str (vif_ofp (store v)) \<noteq> [])"
    by (auto simp: case_prod_beta)
next
  have "s \<noteq> []" if "s \<in> set (uplink_ofps vs br)" for s
    using that by (intro ports_number [OF assms(1)]) (simp add: ext_ports_def)
  then show "[] \<notin> set (uplink_ofps vs br)" by blast
qed

text \<open>The bridge of a name, and the texts of its tables.\<close>

definition bridge_at :: "string \<Rightarrow> sut \<Rightarrow> bridge \<Rightarrow> bool" where
  "bridge_at name s b \<longleftrightarrow> (\<exists>i. get_bridge (su_vswitch s) name = Some i \<and> vs_bridges (su_vswitch s) ! i = b)"

lemma output_texts_at:
  assumes "bridge_at name (ss ! k) br" "ports_ok (su_vswitch (ss ! k)) br store" "\<forall>g \<in> set (br_vnis br). snd g \<noteq> []"
    and "deploy \<in> {''tnl'', ''vlan'', ''qinq'', ''native''}"
  shows "generate_output_flows ss k name deploy md store = Inr (map flow_text (output_table ss k br deploy md store))"
proof -
  obtain i where "get_bridge (su_vswitch (ss ! k)) name = Some i" "vs_bridges (su_vswitch (ss ! k)) ! i = br"
    using assms(1) by (auto simp: bridge_at_def)
  with output_texts [OF assms(4) this(1), of store md] ports_texts [OF assms(2,3)] show ?thesis by simp
qed

lemma input_texts_at:
  assumes "bridge_at name (ss ! k) br"
  shows "generate_input_flows ss k name ''tnl'' store = Inr (map flow_text (input_table (su_vswitch (ss ! k)) br ''tnl'' store))"
proof -
  obtain i where "get_bridge (su_vswitch (ss ! k)) name = Some i" "vs_bridges (su_vswitch (ss ! k)) ! i = br"
    using assms by (auto simp: bridge_at_def)
  with input_texts [of "''tnl''" ss k name i store] show ?thesis by simp
qed

section \<open>The flows of a table\<close>

definition flood_flow ::
  "sut list \<Rightarrow> nat \<Rightarrow> bridge \<Rightarrow> string \<Rightarrow> bool \<Rightarrow> (nat \<Rightarrow> vif) \<Rightarrow> pyval \<Rightarrow> nat list \<Rightarrow> nat \<Rightarrow> oflow" where
  "flood_flow ss k br deploy md store vni vifs r =
     blank\<lparr>of_in := Some (py_str (vif_ofp (store r))), of_reg1 := Some ''0'', of_prio := 100,
       of_acts := map (Out \<circ> py_str) (filter (\<lambda>q. q \<noteq> vif_ofp (store r)) (map (\<lambda>v. vif_ofp (store v)) vifs))
         @ ext_acts ss k br deploy md vni\<rparr>"

definition back_flow :: "string \<Rightarrow> bool \<Rightarrow> (nat \<Rightarrow> vif) \<Rightarrow> pyval \<Rightarrow> nat list \<Rightarrow> string \<Rightarrow> oflow" where
  "back_flow deploy md store vni vifs s =
     blank\<lparr>of_in := Some s,
       of_reg0 := (if deploy = ''native'' then None else Some (deploy \<noteq> ''tnl'', vni)), of_reg1 := Some ''0'',
       of_md := (if deploy = ''tnl'' \<and> md then Some vni else None), of_prio := 100,
       of_acts := map (Out \<circ> py_str) (map (\<lambda>v. vif_ofp (store v)) vifs)\<rparr>"

lemma flood_table_eq:
  "flood_table ss k br deploy md store (vni, vifs) =
     map (flood_flow ss k br deploy md store vni vifs) vifs
     @ map (back_flow deploy md store vni vifs)
         (if deploy = ''tnl'' then map (int_str \<circ> tp_ofp) (br_tnl_ports br)
          else uplink_ofps (su_vswitch (ss ! k)) br)"
  by (simp add: flood_table_def Let_def flood_flow_def back_flow_def blank_def)

lemma flood_flow_fields [simp]:
  "of_in (flood_flow ss k br deploy md store vni vifs r) = Some (py_str (vif_ofp (store r)))"
  "of_prio (flood_flow ss k br deploy md store vni vifs r) = 100"
  "of_acts (flood_flow ss k br deploy md store vni vifs r)
     = map (Out \<circ> py_str) (filter (\<lambda>q. q \<noteq> vif_ofp (store r)) (map (\<lambda>v. vif_ofp (store v)) vifs))
       @ ext_acts ss k br deploy md vni"
  "of_in (back_flow deploy md store vni vifs s) = Some s"
  "of_prio (back_flow deploy md store vni vifs s) = 100"
  "of_acts (back_flow deploy md store vni vifs s) = map (Out \<circ> py_str) (map (\<lambda>v. vif_ofp (store v)) vifs)"
  by (simp_all add: flood_flow_def back_flow_def)

lemma flood_tableE:
  assumes "f \<in> set (flood_table ss k br deploy md store (vni, vifs))"
  obtains (from_vif) v where "v \<in> set vifs" "f = flood_flow ss k br deploy md store vni vifs v"
    | (from_ext) s where "s \<in> set (ext_ports (su_vswitch (ss ! k)) br)" "f = back_flow deploy md store vni vifs s"
  using assms unfolding flood_table_eq ext_ports_def by (auto split: if_splits)

lemma flood_mem:
  "(vni, vifs) \<in> set (br_vnis br) \<Longrightarrow> v \<in> set vifs \<Longrightarrow>
   flood_flow ss k br deploy md store vni vifs v \<in> set (output_table ss k br deploy md store)"
  "(vni, vifs) \<in> set (br_vnis br) \<Longrightarrow> tp \<in> set (br_tnl_ports br) \<Longrightarrow>
   back_flow ''tnl'' md store vni vifs (int_str (tp_ofp tp)) \<in> set (output_table ss k br ''tnl'' md store)"
proof -
  assume g: "(vni, vifs) \<in> set (br_vnis br)"
  have sub: "set (flood_table ss k br d md store (vni, vifs)) \<subseteq> set (output_table ss k br d md store)" for d
    using g unfolding output_table_def by auto
  show "v \<in> set vifs \<Longrightarrow> flood_flow ss k br deploy md store vni vifs v \<in> set (output_table ss k br deploy md store)"
    using sub by (auto simp: flood_table_eq)
  show "tp \<in> set (br_tnl_ports br) \<Longrightarrow>
      back_flow ''tnl'' md store vni vifs (int_str (tp_ofp tp)) \<in> set (output_table ss k br ''tnl'' md store)"
    using sub [of "''tnl''"] by (auto simp: flood_table_eq)
qed

lemma unicast_prio: "f \<in> set (unicast_table ss k br deploy md store) \<Longrightarrow> of_prio f \<le> 20"
  by (auto simp: unicast_table_def blank_def split: if_splits)

lemma output_tableE:
  assumes "f \<in> set (output_table ss k br deploy md store)"
  obtains (flood) vni vifs where "(vni, vifs) \<in> set (br_vnis br)" "f \<in> set (flood_table ss k br deploy md store (vni, vifs))"
    | (unicast) "f \<in> set (unicast_table ss k br deploy md store)"
  using assms by (auto simp: output_table_def)

lemma ext_acts_ports:
  "Out s \<in> set (ext_acts ss k br deploy md vni) \<Longrightarrow> s \<in> set (ext_ports (su_vswitch (ss ! k)) br)"
  "OutReg1 \<notin> set (ext_acts ss k br deploy md vni)"
  by (auto simp: ext_acts_def ext_ports_def tnl_acts_def tag_acts_def split: if_splits)

text \<open>A port of the bridge and its number.\<close>

lemma port_of_field: "field_is s n \<Longrightarrow> port_of s = n"
  by (simp add: field_is_def port_of_def)

lemma port_of_ext:
  assumes "ports_ok vs br store" "s \<in> set (ext_ports vs br)"
  shows "field_is s (port_of s)"
proof -
  have "\<forall>s \<in> set (local_ports br store @ ext_ports vs br). \<exists>n. py_int s = Inr n"
    using assms(1) unfolding ports_ok_def by blast
  with assms(2) obtain n where "py_int s = Inr n" by (metis Un_iff set_append)
  then show ?thesis by (simp add: field_is_def port_of_def)
qed

lemma port_of_local:
  assumes "ports_ok vs br store" "(vni, vifs) \<in> set (br_vnis br)" "v \<in> set vifs"
  shows "field_is (py_str (vif_ofp (store v))) (port_of (py_str (vif_ofp (store v))))"
proof -
  have "py_str (vif_ofp (store v)) \<in> set (local_ports br store)"
    using assms(2,3) by (force simp: local_ports_def)
  moreover have "\<forall>s \<in> set (local_ports br store @ ext_ports vs br). \<exists>n. py_int s = Inr n"
    using assms(1) unfolding ports_ok_def by blast
  ultimately obtain n where "py_int (py_str (vif_ofp (store v))) = Inr n" by (metis Un_iff set_append)
  then show ?thesis by (simp add: field_is_def port_of_def)
qed

lemma forwards_flood:
  assumes ok: "ports_ok (su_vswitch (ss ! k)) br store"
    and grp: "(vni, vifs) \<in> set (br_vnis br)" "r \<in> set vifs"
    and pkt: "field_is (py_str (vif_ofp (store r))) (pk_in p)" "pk_reg1 p = 0"
  shows "forwards (output_table ss k br deploy md store) p
     (map (\<lambda>q. (port_of (py_str q), p))
        (filter (\<lambda>q. q \<noteq> vif_ofp (store r)) (map (\<lambda>v. vif_ofp (store v)) vifs))
      @ outputs (ext_acts ss k br deploy md vni) p)"
proof -
  let ?f = "flood_flow ss k br deploy md store vni vifs r"
  have "?f \<in> set (output_table ss k br deploy md store)"
    using grp by (rule flood_mem)
  moreover have "matches ?f p"
    using pkt field_zero by (simp add: matches_def flood_flow_def blank_def)
  moreover have "outputs (of_acts ?f) p = map (\<lambda>q. (port_of (py_str q), p))
        (filter (\<lambda>q. q \<noteq> vif_ofp (store r)) (map (\<lambda>v. vif_ofp (store v)) vifs))
      @ outputs (ext_acts ss k br deploy md vni) p"
    by (simp add: outputs_append outputs_outs rewrite_outs)
  moreover have "of_prio g < of_prio ?f \<or> of_acts g = of_acts ?f"
    if g: "g \<in> set (output_table ss k br deploy md store)" "matches g p" for g
    using g(1)
  proof (cases rule: output_tableE)
    case (flood vni' vifs')
    from flood(2) show ?thesis
    proof (cases rule: flood_tableE)
      case (from_vif v)
      with g(2) have "field_is (py_str (vif_ofp (store v))) (pk_in p)" by (simp add: matches_def)
      from local_unique [OF ok grp(1) flood(1) grp(2) from_vif(1) pkt(1) this] from_vif(2) show ?thesis
        by simp
    next
      case (from_ext s)
      with g(2) have "field_is s (pk_in p)" by (simp add: matches_def)
      with local_not_ext [OF ok grp pkt(1) from_ext(1)] show ?thesis by blast
    qed
  next
    case unicast
    from unicast_prio [OF unicast] show ?thesis by simp
  qed
  ultimately show ?thesis unfolding forwards_def by blast
qed

lemma forwards_from_tunnel:
  assumes ok: "ports_ok (su_vswitch (ss ! k)) br store"
    and vnis: "distinct (map (py_int \<circ> py_str \<circ> fst) (br_vnis br))"
    and grp: "(vni, vifs) \<in> set (br_vnis br)" and tp: "tp \<in> set (br_tnl_ports br)"
    and pkt: "pk_in p = tp_ofp tp" "pk_reg1 p = 0" "field_is (py_str vni) (uint (pk_reg0 p))"
    and md: "md \<longrightarrow> pk_md0 p = pk_reg0 p \<and> pk_md1 p = md1_const"
  shows "forwards (output_table ss k br ''tnl'' md store) p
     (map (\<lambda>v. (port_of (py_str (vif_ofp (store v))), p)) vifs)"
proof -
  let ?f = "back_flow ''tnl'' md store vni vifs (int_str (tp_ofp tp))"
  have port: "field_is (int_str (tp_ofp tp)) (pk_in p)"
    using pkt(1) by (simp add: field_is_def py_int_int_str)
  have ext: "int_str (tp_ofp tp) \<in> set (ext_ports (su_vswitch (ss ! k)) br)"
    using tp by (force simp: ext_ports_def)
  have "?f \<in> set (output_table ss k br ''tnl'' md store)"
    using grp tp by (rule flood_mem)
  moreover have "matches ?f p"
    using pkt port field_zero md by (simp add: matches_def back_flow_def blank_def)
  moreover have "outputs (of_acts ?f) p = map (\<lambda>v. (port_of (py_str (vif_ofp (store v))), p)) vifs"
    by (simp only: flood_flow_fields outputs_outs) simp
  moreover have "of_prio g < of_prio ?f \<or> of_acts g = of_acts ?f"
    if g: "g \<in> set (output_table ss k br ''tnl'' md store)" "matches g p" for g
    using g(1)
  proof (cases rule: output_tableE)
    case (flood vni' vifs')
    from flood(2) show ?thesis
    proof (cases rule: flood_tableE)
      case (from_vif v)
      with g(2) have "field_is (py_str (vif_ofp (store v))) (pk_in p)" by (simp add: matches_def)
      with local_not_ext [OF ok flood(1) from_vif(1) _ ext] port show ?thesis by blast
    next
      case (from_ext s)
      then have "field_is (py_str vni') (uint (pk_reg0 p))"
        using g(2) by (simp add: matches_def back_flow_def blank_def)
      then have "py_int (py_str vni') = py_int (py_str vni)"
        using pkt(3) by (simp add: field_is_def)
      then have "(vni', vifs') = (vni, vifs)"
        using inj_onD [of "py_int \<circ> py_str \<circ> fst" "set (br_vnis br)" "(vni', vifs')" "(vni, vifs)"]
          vnis grp flood(1) by (simp add: distinct_map)
      with from_ext show ?thesis by simp
    qed
  next
    case unicast
    from unicast_prio [OF unicast] show ?thesis by simp
  qed
  ultimately show ?thesis unfolding forwards_def by blast
qed

lemma unicastE:
  assumes "f \<in> set (unicast_table ss k br deploy md store)"
  obtains (ext) s where "s \<in> set (ext_ports (su_vswitch (ss ! k)) br)" "of_reg1 f = Some s"
    | (md) "of_acts f = [OutReg1]" "of_prio f = 15"
    | (vif) v where "v \<in> set (br_vifs br)" "of_reg1 f = Some (py_str (vif_ofp (store v)))"
        "of_acts f = [Out (py_str (vif_ofp (store v)))]" "of_prio f = 10"
proof -
  have "(\<exists>s \<in> set (ext_ports (su_vswitch (ss ! k)) br). of_reg1 f = Some s)
    \<or> of_acts f = [OutReg1] \<and> of_prio f = 15
    \<or> (\<exists>v \<in> set (br_vifs br). of_reg1 f = Some (py_str (vif_ofp (store v)))
        \<and> of_acts f = [Out (py_str (vif_ofp (store v)))] \<and> of_prio f = 10)"
    using assms unfolding unicast_table_def ext_ports_def blank_def by (auto split: if_splits)
  then show thesis using ext md vif by blast
qed

lemma flood_reg1: "f \<in> set (flood_table ss k br deploy md store g) \<Longrightarrow> of_reg1 f = Some ''0''"
  by (cases g) (auto simp: flood_table_eq flood_flow_def back_flow_def)

text \<open>
  A packet to a known local port: a metadata check sends it to the port in its register, else the flow of
  the port does; the result is the same.
\<close>

lemma forwards_unicast:
  assumes ok: "ports_ok (su_vswitch (ss ! k)) br store"
    and all: "mset (concat (map snd (br_vnis br))) = mset (br_vifs br)" and v: "v \<in> set (br_vifs br)"
    and pkt: "field_is (py_str (vif_ofp (store v))) (pk_reg1 p)" "pk_reg1 p \<noteq> 0"
  shows "forwards (output_table ss k br deploy md store) p [(pk_reg1 p, p)]"
proof -
  let ?s = "py_str (vif_ofp (store v))" and ?t = "output_table ss k br deploy md store"
  have grp: "\<exists>vni vifs. (vni, vifs) \<in> set (br_vnis br) \<and> u \<in> set vifs" if "u \<in> set (br_vifs br)" for u
  proof -
    have "u \<in> set (concat (map snd (br_vnis br)))" using all that by (metis set_mset_mset)
    then show ?thesis by fastforce
  qed
  obtain vni vifs where g0: "(vni, vifs) \<in> set (br_vnis br)" "v \<in> set vifs" using grp [OF v] by blast
  let ?f = "blank\<lparr>of_reg1 := Some ?s, of_prio := 10, of_acts := [Out ?s]\<rparr>"
  have f: "?f \<in> set ?t" using v by (simp add: output_table_def unicast_table_def)
  have match: "matches ?f p" using pkt(1) by (simp add: matches_def blank_def)
  have kinds: "of_acts g = of_acts ?f \<and> of_prio g = 10 \<or> of_acts g = [OutReg1] \<and> of_prio g = 15"
    if g: "g \<in> set ?t" "matches g p" for g
    using g(1)
  proof (cases rule: output_tableE)
    case (flood vni' vifs')
    from flood_reg1 [OF flood(2)] g(2) have "field_is ''0'' (pk_reg1 p)" by (simp add: matches_def)
    with field_zero pkt(2) show ?thesis by (simp add: field_is_def)
  next
    case unicast
    then show ?thesis
    proof (cases rule: unicastE)
      case (ext s)
      with g(2) have "field_is s (pk_reg1 p)" by (simp add: matches_def)
      with local_not_ext [OF ok g0 pkt(1) ext(1)] show ?thesis by blast
    next
      case md
      then show ?thesis by simp
    next
      case (vif u)
      with g(2) have u: "field_is (py_str (vif_ofp (store u))) (pk_reg1 p)" by (simp add: matches_def)
      obtain vni' vifs' where "(vni', vifs') \<in> set (br_vnis br)" "u \<in> set vifs'"
        using grp [OF vif(1)] by blast
      with local_unique [OF ok g0(1) _ g0(2) _ pkt(1) u] vif show ?thesis by auto
    qed
  qed
  show ?thesis
  proof (cases "\<exists>g \<in> set ?t. matches g p \<and> of_acts g = [OutReg1]")
    case True
    then obtain g where "g \<in> set ?t" "matches g p" "of_acts g = [OutReg1]" by blast
    moreover have "of_prio g = 15" using kinds [OF calculation(1,2)] calculation(3) by auto
    ultimately show ?thesis using kinds unfolding forwards_def by (intro bexI [of _ g]) fastforce+
  next
    case False
    with kinds have "of_acts g = of_acts ?f" if "g \<in> set ?t" "matches g p" for g using that by blast
    with f match port_of_field [OF pkt(1)] show ?thesis unfolding forwards_def by (intro bexI [of _ ?f]) auto
  qed
qed

section \<open>Slices of a register\<close>

lemma get_set_same: "lo \<le> 20 \<Longrightarrow> get12 lo (set12 lo v r) = v"
  unfolding get12_def set12_def
  by (rule bit_word_eqI) (auto simp: bit_simps)

lemma get_set_other:
  "get12 0 (set12 16 v r) = get12 0 r" "get12 16 (set12 0 v r) = get12 16 r"
  unfolding get12_def set12_def
  by (rule bit_word_eqI; auto simp: bit_simps dest: bit_imp_le_length)+

lemma get12_low: "get12 0 (word_of_int n) = word_of_int n"
  unfolding get12_def by (rule bit_word_eqI) (auto simp: bit_simps)

end
