(* ===== verification/Flow_Props.thy ===== *)
theory Flow_Props imports Flow_Facts begin

text \<open>
  The properties of the flow generators, with a concrete bridge for the witnesses: three interfaces on
  two VNIs, a tunnel port and an uplink.
\<close>

section \<open>A concrete bridge\<close>

definition vif_no :: "nat \<Rightarrow> vif" where
  "vif_no i = (VhostUserInterface (fmt [''vhost_01'', nat_str i]) 0 ''00:00:00:01:01:01''
     (PStr (nat_str (11 + i))))\<lparr>vif_vni := (if i < 2 then PInt 200 else PInt 201)\<rparr>"

definition bridge0 :: bridge where
  "bridge0 = (Bridge ''br0'')\<lparr>br_vifs := [0, 1, 2], br_vnis := [(PInt 200, [0, 1]), (PInt 201, [2])],
     br_uplinks := [Phys 0], br_tnl_ports := [tunnel0]\<rparr>"

definition switch_b :: vswitch where
  "switch_b = switch0\<lparr>vs_bridges := [bridge0], vs_uplinks := [(Uplink (PStr ''0000:00:08.0''))\<lparr>up_ofp := PInt 1\<rparr>]\<rparr>"

definition sut0 :: sut where
  "sut0 = \<lparr>su_name = ''sut0'', su_ssh_info = node_h1, su_numas = [], su_pnic_numa_id = Some 0,
     su_vswitch = switch_b, su_vms = [], su_cpuinfo = []\<rparr>"

lemma int_str_small: "0 \<le> i \<Longrightarrow> int_str i = nat_str (nat i)"
  by (simp add: int_str_def)

lemma field_nat: "field_is (nat_str n) (int n)"
  by (simp add: field_is_def py_int_nat_str)

lemma field_int: "field_is (int_str i) i"
  by (simp add: field_is_def py_int_int_str)

lemma port_of_int_str [simp]: "port_of (int_str i) = i"
  using port_of_field field_int by blast

lemma port_of_nat_str [simp]: "port_of (nat_str n) = int n"
  using port_of_field field_nat by blast

lemma bridge0_ports: "ports_ok switch_b bridge0 vif_no"
  by (simp add: ports_ok_def local_ports_def ext_ports_def uplink_ofps_def bridge0_def vif_no_def
      VhostUserInterface_def tunnel0_def new_tunnel_def deref_def switch_b_def Bridge_def Uplink_def
      py_int_nat_str py_int_int_str)

lemma bridge0_at: "bridge_at ''br0'' ([sut0] ! 0) bridge0"
  by (simp add: bridge_at_def sut0_def get_bridge_def switch_b_def bridge0_def Bridge_def)

lemma bridge0_texts: "texts_ok switch_b bridge0 vif_no"
  by (simp add: texts_ok_def uplink_ofps_def bridge0_def vif_no_def VhostUserInterface_def deref_def
      switch_b_def Uplink_def)

section \<open>Properties\<close>

text \<open>
  C3 For every deployment the texts that \<open>generate_output_flows\<close> returns are, in order, the texts of
  the specified OUTPUT table: per VNI the floods from each local port and back from the external ports
  at priority 100, then unicast to external ports at 20, the metadata checks at 15, and unicast to
  local ports at 10.
\<close>

theorem output_flows_refine:
  assumes "deploy \<in> {''tnl'', ''vlan'', ''qinq'', ''native''}"
    and "get_bridge (su_vswitch (ss ! k)) name = Some i"
    and "texts_ok (su_vswitch (ss ! k)) (vs_bridges (su_vswitch (ss ! k)) ! i) store"
  shows "generate_output_flows ss k name deploy md store
     = Inr (map flow_text (output_table ss k (vs_bridges (su_vswitch (ss ! k)) ! i) deploy md store))"
  using assms by (rule output_texts)

theorem output_flows_refine_witness:
  "generate_output_flows [sut0] 0 ''br0'' ''tnl'' False vif_no
     = Inr (map flow_text (output_table [sut0] 0 bridge0 ''tnl'' False vif_no))
   \<and> length (output_table [sut0] 0 bridge0 ''tnl'' False vif_no) = 9"
proof -
  have 1: "get_bridge (su_vswitch ([sut0] ! 0)) ''br0'' = Some 0" "su_vswitch ([sut0] ! 0) = switch_b"
    "vs_bridges switch_b ! 0 = bridge0"
    by (simp_all add: sut0_def get_bridge_def switch_b_def bridge0_def Bridge_def)
  have "length (output_table [sut0] 0 bridge0 ''tnl'' False vif_no) = 9"
    by (simp add: output_table_def flood_table_eq unicast_table_def bridge0_def)
  with output_flows_refine [of "''tnl''" "[sut0]" 0 "''br0''" 0 vif_no False] 1 bridge0_texts
  show ?thesis by simp
qed

text \<open>
  C4 The flows that \<open>generate_output_flows\<close> returns send a broadcast from a local port to exactly the
  other local ports of the same VNI, unchanged, and then to the external ports; no copy goes back to the
  port it came from, and no local port of another VNI gets one.
\<close>

theorem flood_stays_in_vni:
  assumes br: "bridge_at name (ss ! k) br" "\<forall>g \<in> set (br_vnis br). snd g \<noteq> []"
    and deploy: "deploy \<in> {''tnl'', ''vlan'', ''qinq'', ''native''}"
    and ok: "ports_ok (su_vswitch (ss ! k)) br store"
    and grp: "(vni, vifs) \<in> set (br_vnis br)" "r \<in> set vifs"
    and pkt: "field_is (py_str (vif_ofp (store r))) (pk_in p)" "pk_reg1 p = 0"
  shows "generate_output_flows ss k name deploy md store
       = Inr (map flow_text (output_table ss k br deploy md store))
     \<and> (\<exists>ext. forwards (output_table ss k br deploy md store) p
       (map (\<lambda>q. (port_of (py_str q), p))
          (filter (\<lambda>q. q \<noteq> vif_ofp (store r)) (map (\<lambda>v. vif_ofp (store v)) vifs)) @ ext)
     \<and> (\<forall>(n, q) \<in> set ext. \<exists>s \<in> set (ext_ports (su_vswitch (ss ! k)) br). n = port_of s)
     \<and> pk_in p \<notin> (\<lambda>q. port_of (py_str q))
          ` set (filter (\<lambda>q. q \<noteq> vif_ofp (store r)) (map (\<lambda>v. vif_ofp (store v)) vifs))
     \<and> pk_in p \<notin> fst ` set ext)"
proof -
  let ?ext = "outputs (ext_acts ss k br deploy md vni) p"
  have ext: "\<exists>s \<in> set (ext_ports (su_vswitch (ss ! k)) br). n = port_of s" if "(n, q) \<in> set ?ext" for n q
    using outputs_ports [OF ext_acts_ports(2) that] ext_acts_ports(1) by blast
  have "pk_in p \<notin> fst ` set ?ext"
  proof
    assume "pk_in p \<in> fst ` set ?ext"
    then obtain q where "(pk_in p, q) \<in> set ?ext" by auto
    from ext [OF this] obtain s where s: "s \<in> set (ext_ports (su_vswitch (ss ! k)) br)" "pk_in p = port_of s"
      by blast
    with port_of_ext [OF ok s(1)] local_not_ext [OF ok grp pkt(1) s(1)] show False by simp
  qed
  moreover have "pk_in p \<notin> (\<lambda>q. port_of (py_str q))
      ` set (filter (\<lambda>q. q \<noteq> vif_ofp (store r)) (map (\<lambda>v. vif_ofp (store v)) vifs))"
  proof
    assume "pk_in p \<in> (\<lambda>q. port_of (py_str q))
      ` set (filter (\<lambda>q. q \<noteq> vif_ofp (store r)) (map (\<lambda>v. vif_ofp (store v)) vifs))"
    then obtain v where v: "v \<in> set vifs" "vif_ofp (store v) \<noteq> vif_ofp (store r)"
      "pk_in p = port_of (py_str (vif_ofp (store v)))" by auto
    from local_unique [OF ok grp(1) grp(1) grp(2) v(1) pkt(1)] port_of_local [OF ok grp(1) v(1)] v
    show False by simp
  qed
  moreover have "generate_output_flows ss k name deploy md store
      = Inr (map flow_text (output_table ss k br deploy md store))"
    using br(1) ok br(2) deploy by (rule output_texts_at)
  ultimately show ?thesis
    using forwards_flood [OF ok grp pkt] ext by (intro conjI exI [of _ ?ext]) blast+
qed

definition pkt0 :: pkt where
  "pkt0 = \<lparr>pk_in = 11, pk_reg0 = 200, pk_reg1 = 0, pk_tags = [], pk_tun_dst = None, pk_tun_id = 0,
     pk_md0 = 0, pk_md1 = 0\<rparr>"

theorem flood_stays_in_vni_witness:
  "generate_output_flows [sut0] 0 ''br0'' ''tnl'' False vif_no
     = Inr (map flow_text (output_table [sut0] 0 bridge0 ''tnl'' False vif_no))
   \<and> (\<exists>ext. forwards (output_table [sut0] 0 bridge0 ''tnl'' False vif_no) pkt0 ([(12, pkt0)] @ ext))"
proof -
  have vs: "su_vswitch ([sut0] ! 0) = switch_b" by (simp add: sut0_def)
  have ofp: "vif_ofp (vif_no i) = PStr (nat_str (11 + i))" for i
    by (simp add: vif_no_def VhostUserInterface_def)
  have "field_is (py_str (vif_ofp (vif_no 0))) (pk_in pkt0)" "pk_reg1 pkt0 = 0"
    using field_nat [of 11] by (simp_all add: ofp pkt0_def)
  moreover have "(PInt 200, [0, 1]) \<in> set (br_vnis bridge0)" "\<forall>g \<in> set (br_vnis bridge0). snd g \<noteq> []"
    by (simp_all add: bridge0_def)
  ultimately have "generate_output_flows [sut0] 0 ''br0'' ''tnl'' False vif_no
      = Inr (map flow_text (output_table [sut0] 0 bridge0 ''tnl'' False vif_no))"
    "\<exists>ext. forwards (output_table [sut0] 0 bridge0 ''tnl'' False vif_no) pkt0
      (map (\<lambda>q. (port_of (py_str q), pkt0))
        (filter (\<lambda>q. q \<noteq> vif_ofp (vif_no 0)) (map (\<lambda>v. vif_ofp (vif_no v)) [0, 1])) @ ext)"
    using flood_stays_in_vni [of "''br0''" "[sut0]" 0 bridge0 "''tnl''" vif_no "PInt 200" "[0, 1]" 0 pkt0 False]
      bridge0_at bridge0_ports vs by auto
  then show ?thesis by (auto simp: ofp)
qed



text \<open>
  C15 With VLAN and with QinQ the virtual network survives the wire.  The texts that \<open>uplink_as\<close>, the loop
  over the interfaces and the loop over the uplinks generate are those of three lists of actions; run one
  after the other they make a packet from an interface with VNI \<open>n\<close> leave on an uplink with tags that the
  other side takes off again, and it ends up with the register value it had, its own tags back, and \<open>n\<close>
  in the bits that the OUTPUT flows of the other side match.
\<close>

theorem tags_carry_vni:
  assumes "deploy \<in> {''vlan'', ''qinq''}" "vif_vni v = PInt n" "0 \<le> n" "n + 100 < 4096" "pk_reg0 p = 0"
  shows "uplink_as deploy = acts_text (tag_acts deploy)
     \<and> vif_input deploy v = Inr [flow_text (vif_input_flow deploy v)]
     \<and> trunk_input vs br deploy = map (\<lambda>s. flow_text (blank\<lparr>of_tbl := OF_TABLE_INPUT, of_in := Some s,
           of_prio := 100, of_acts := trunk_acts deploy\<rparr>)) (uplink_ofps vs br)
     \<and> (let sent = rewrite (of_acts (vif_input_flow deploy v)) p;
             out = outputs (tag_acts deploy @ [Out u]) sent;
             wire = snd (hd out);
             got = rewrite (trunk_acts deploy) (wire\<lparr>pk_reg0 := 0\<rparr>)
         in out = [(port_of u, wire)] \<and> pk_tags wire \<noteq> pk_tags p
            \<and> pk_tags got = pk_tags p \<and> pk_reg0 got = pk_reg0 sent
            \<and> uint (get12 0 (pk_reg0 got)) = n)"
proof -
  have bits: "take_bit 12 n = n" "take_bit 12 (n + 100) = n + 100"
    using assms(3,4) by (simp_all add: take_bit_int_eq_self)
  have "uint (word_of_int m :: 12 word) = m" if "take_bit 12 m = m" for m
    using that by (simp add: uint_word_of_int_eq)
  from this [OF bits(1)] this [OF bits(2)]
  have small: "uint (word_of_int n :: 12 word) = n" "uint (word_of_int (n + 100) :: 12 word) = n + 100" .
  have full: "set12 0 (word_of_int n) 0 = word_of_int n"
    unfolding set12_def
  proof (rule bit_word_eqI)
    fix k assume "k < LENGTH(32)"
    have "bit n k \<longleftrightarrow> k < 12 \<and> bit n k"
      using bits(1) bit_take_bit_iff [of 12 n k] by simp
    with \<open>k < LENGTH(32)\<close> show "bit ((0 AND NOT (push_bit 0 (mask 12))) OR push_bit 0 (ucast (word_of_int n :: 12 word)) :: 32 word) k
        = bit (word_of_int n :: 32 word) k"
      by (auto simp: bit_simps)
  qed
  have swap: "set12 0 a (set12 16 b r) = set12 16 b (set12 0 a r)" for a b r
    unfolding set12_def by (rule bit_word_eqI) (auto simp: bit_simps dest: bit_imp_le_length)
  have texts: "uplink_as deploy = acts_text (tag_acts deploy)"
    "vif_input deploy v = Inr [flow_text (vif_input_flow deploy v)]"
    "trunk_input vs br deploy = map (\<lambda>s. flow_text (blank\<lparr>of_tbl := OF_TABLE_INPUT, of_in := Some s,
       of_prio := 100, of_acts := trunk_acts deploy\<rparr>)) (uplink_ofps vs br)"
    using assms(1,2) uplink_as_text(1) [of deploy] vif_input_text [of deploy v] trunk_input_text [of deploy vs br]
    by auto
  show ?thesis
    using assms(1)
  proof (elim insertE emptyE)
    assume d: "deploy = ''vlan''"
    show ?thesis
      unfolding d using texts [unfolded d]
      using assms full small
      by (simp add: d vif_input_flow_def tag_acts_def trunk_acts_def rewrite_def py_int_int_str get12_low)
  next
    assume d: "deploy = ''qinq''"
    show ?thesis
      unfolding d using texts [unfolded d]
      using assms small
      by (simp add: d vif_input_flow_def tag_acts_def trunk_acts_def rewrite_def py_int_int_str outer_vni_def
          get_set_same get_set_other swap)
  qed
qed

theorem tags_carry_vni_witness:
  "uplink_as ''qinq'' = acts_text (tag_acts ''qinq'')
   \<and> (let sent = rewrite (of_acts (vif_input_flow ''qinq'' (vif_no 0))) (pkt0\<lparr>pk_reg0 := 0\<rparr>);
       out = outputs (tag_acts ''qinq'' @ [Out ''1'']) sent;
       got = rewrite (trunk_acts ''qinq'') ((snd (hd out))\<lparr>pk_reg0 := 0\<rparr>)
   in pk_tags got = [] \<and> uint (get12 0 (pk_reg0 got)) = 200)"
proof -
  have "vif_vni (vif_no 0) = PInt 200" "pk_reg0 (pkt0\<lparr>pk_reg0 := 0\<rparr>) = 0" "pk_tags (pkt0\<lparr>pk_reg0 := 0\<rparr>) = []"
    by (simp_all add: vif_no_def pkt0_def)
  with tags_carry_vni [of "''qinq''" "vif_no 0" 200 "pkt0\<lparr>pk_reg0 := 0\<rparr>" switch_b bridge0 "''1''"]
  show ?thesis unfolding Let_def by auto
qed

text \<open>
  C33 For the tunnel, VLAN and QinQ deployments the texts that \<open>generate_input_flows\<close> returns are those of
  the specified INPUT table, one flow for each interface and one for each external port, when, for QinQ,
  every VNI is an integer.
\<close>

theorem input_flows_refine:
  assumes "deploy \<in> {''tnl'', ''vlan'', ''qinq''}"
    and "get_bridge (su_vswitch (ss ! k)) name = Some i"
    and "deploy = ''qinq'' \<longrightarrow>
      (\<forall>v \<in> set (br_vifs (vs_bridges (su_vswitch (ss ! k)) ! i)). \<exists>n. vif_vni (store v) = PInt n)"
  shows "generate_input_flows ss k name deploy store
     = Inr (map flow_text (input_table (su_vswitch (ss ! k)) (vs_bridges (su_vswitch (ss ! k)) ! i) deploy store))"
  using assms by (rule input_texts)

theorem input_flows_refine_witness:
  "generate_input_flows [sut0] 0 ''br0'' ''qinq'' vif_no
     = Inr (map flow_text (input_table switch_b bridge0 ''qinq'' vif_no))
   \<and> length (input_table switch_b bridge0 ''qinq'' vif_no) = 4"
proof -
  have 1: "get_bridge (su_vswitch ([sut0] ! 0)) ''br0'' = Some 0" "su_vswitch ([sut0] ! 0) = switch_b"
    "vs_bridges switch_b ! 0 = bridge0"
    by (simp_all add: sut0_def get_bridge_def switch_b_def bridge0_def Bridge_def)
  have "\<forall>v. \<exists>n. vif_vni (vif_no v) = PInt n" by (simp add: vif_no_def)
  with input_flows_refine [of "''qinq''" "[sut0]" 0 "''br0''" 0 vif_no] 1
  have "generate_input_flows [sut0] 0 ''br0'' ''qinq'' vif_no
     = Inr (map flow_text (input_table switch_b bridge0 ''qinq'' vif_no))" by simp
  then show ?thesis by (simp add: input_table_def bridge0_def uplink_ofps_def)
qed

text \<open>
  C35 QinQ with a VNI that is a string, which is what the overlay keywords store in an interface, fails:
  \<open>vif.vni + 100\<close> raises \<open>TypeError\<close>, and no flow is returned.
\<close>

theorem qinq_string_vni_fails:
  assumes "get_bridge (su_vswitch (ss ! k)) name = Some i"
    and "v \<in> set (br_vifs (vs_bridges (su_vswitch (ss ! k)) ! i))" "vif_vni (store v) = PStr s"
  shows "generate_input_flows ss k name ''qinq'' store = Inl TypeError"
proof -
  have "collectR (\<lambda>v. vif_input ''qinq'' (store v)) vs = Inl TypeError" if "v \<in> set vs" for vs
    using that
  proof (induction vs)
    case (Cons u vs)
    then show ?case
      using assms(3)
      by (cases "vif_vni (store u)") (auto simp: vif_input_def outer_vni_def)
  qed simp
  with assms(1,2) show ?thesis
    by (simp add: generate_input_flows_def attr_of_def Let_def)
qed

theorem qinq_string_vni_fails_witness:
  "generate_input_flows [sut0] 0 ''br0'' ''qinq'' (\<lambda>i. (vif_no i)\<lparr>vif_vni := PStr ''300''\<rparr>) = Inl TypeError"
  using qinq_string_vni_fails [of "[sut0]" 0 "''br0''" 0 0 "\<lambda>i. (vif_no i)\<lparr>vif_vni := PStr ''300''\<rparr>"]
  by (simp add: sut0_def get_bridge_def switch_b_def bridge0_def Bridge_def)

end
