(* ===== verification/Overlay.thy ===== *)
theory Overlay imports Flow_Props begin

text \<open>
  \<open>overlay.py\<close>: assigning VNIs to interfaces, creating and deleting tunnel ports on all systems under
  test, and deploying and undeploying the tunnel, VLAN and QinQ overlays.
\<close>

section \<open>Helpers on the testbed\<close>

definition bridge_of :: "sut list \<Rightarrow> nat \<Rightarrow> string \<Rightarrow> nat option" where
  "bridge_of ss k name = get_bridge (su_vswitch (ss ! k)) name"

definition the_bridge :: "sut list \<Rightarrow> nat \<Rightarrow> nat \<Rightarrow> bridge" where
  "the_bridge ss k i = vs_bridges (su_vswitch (ss ! k)) ! i"

text \<open>\<open>br = sut.vswitch.get_bridge(name)\<close> and an attribute of \<open>br\<close>, which may be \<open>None\<close>.\<close>

definition getbr :: "nat \<Rightarrow> string \<Rightarrow> nat option tbm" where
  "getbr k name = getE (\<lambda>(ss, w). bridge_of ss k name)"

definition set_with_md :: "nat \<Rightarrow> nat \<Rightarrow> bool \<Rightarrow> unit tbm" where
  "set_with_md k i b = on_sut k (modify_bridge i (\<lambda>br. br\<lparr>br_with_md := b\<rparr>))"

section \<open>TLV maps\<close>

definition check_rc :: "string \<Rightarrow> int \<times> string \<times> string \<Rightarrow> unit res" where
  "check_rc msg r = (if fst r \<noteq> 0 then Inl (RuntimeError msg) else Inr ())"

definition add_tlv_map :: "ssh_env \<Rightarrow> string \<Rightarrow> unit vsm" where
  "add_tlv_map env name =
     bindE (vs_execute env (fmt [''ovs-ofctl add-tlv-map '', name, '' '', dquote,
         ''{class=0xffff,type=0,len=4}->tun_metadata0,{class=0xffff,type=1,len=8}->tun_metadata1'', dquote]) 30)
       (\<lambda>r. liftE (check_rc ''Add tlv map failed'' r))"

definition del_tlv_map :: "ssh_env \<Rightarrow> string \<Rightarrow> unit vsm" where
  "del_tlv_map env name =
     bindE (vs_execute env (fmt [''ovs-ofctl del-tlv-map '', name]) 30)
       (\<lambda>r. liftE (check_rc ''Add tlv map failed'' r))"

section \<open>Tunnel ports\<close>

text \<open>
  \<open>for tnl_port in br.tnl_ports\<close> with a body that removes from the list: Python's iterator takes the
  element at its position in the list as it is then, and stops when the position is past the end.  The
  list only shrinks, so the length it had at the start bounds the number of rounds.
\<close>

fun live_tunnels :: "ssh_env \<Rightarrow> nat \<Rightarrow> nat \<Rightarrow> string \<Rightarrow> nat \<Rightarrow> nat \<Rightarrow> unit tbm" where
  "live_tunnels env k i name pos 0 = retE ()"
| "live_tunnels env k i name pos (Suc n) =
     bindE (getE (\<lambda>(ss, w). br_tnl_ports (the_bridge ss k i))) (\<lambda>tps.
     if pos < length tps then
       thenE (on_sut k (delete_tunnel_port env name (tps ! pos))) (live_tunnels env k i name (Suc pos) n)
     else retE ())"

definition delete_tunnel_ports :: "ssh_env \<Rightarrow> string \<Rightarrow> unit tbm" where
  "delete_tunnel_ports env name =
     for_suts (\<lambda>k.
       bindE (bindE (getbr k name) (\<lambda>bo. liftE (attr_of bo))) (\<lambda>i.
       bindE (getE (\<lambda>(ss, w). length (br_tnl_ports (the_bridge ss k i)))) (\<lambda>n.
       live_tunnels env k i name 0 n)))"

definition new_port :: "ssh_env \<Rightarrow> nat \<Rightarrow> string \<Rightarrow> string \<Rightarrow> pyval \<Rightarrow> pyval \<Rightarrow> unit tbm" where
  "new_port env k name tnl_type rip vni =
     thenE (on_sut k (create_tunnel_port env name tnl_type rip vni)) (retE ())"

text \<open>One port with this remote address for each VNI, or a single one that takes the VNI from the flow.\<close>

definition ports_for :: "ssh_env \<Rightarrow> nat \<Rightarrow> nat option \<Rightarrow> string \<Rightarrow> string \<Rightarrow> pyval \<Rightarrow> string \<Rightarrow> unit tbm" where
  "ports_for env k bo name tnl_type rip vni_mode =
     (if vni_mode \<noteq> ''flow'' then
        bindE (liftE (attr_of bo)) (\<lambda>i.
        bindE (getE (\<lambda>(ss, w). map fst (br_vnis (the_bridge ss k i)))) (\<lambda>vnis.
        forE vnis (\<lambda>vni. new_port env k name tnl_type rip vni)))
      else new_port env k name tnl_type rip (PStr ''flow''))"

definition create_tunnel_ports :: "ssh_env \<Rightarrow> string \<Rightarrow> string \<Rightarrow> string \<Rightarrow> string \<Rightarrow> unit tbm" where
  "create_tunnel_ports env name tnl_type rip_mode vni_mode =
     for_suts (\<lambda>k.
       bindE (getbr k name) (\<lambda>bo.
       if rip_mode \<noteq> ''flow'' then
         bindE (getE (\<lambda>(ss, w). other_suts ss k)) (\<lambda>rs.
         forE rs (\<lambda>r.
           ports_for env k bo name tnl_type (PStr (ip_str (ia_ipv4 (vs_tep_addr (su_vswitch r))))) vni_mode))
       else ports_for env k bo name tnl_type (PStr ''flow'') vni_mode))"

section \<open>Flows of the overlay\<close>

definition overlay_flow_clear :: "ssh_env \<Rightarrow> string \<Rightarrow> unit tbm" where
  "overlay_flow_clear env name =
     for_suts (\<lambda>k.
       thenE (on_sut k (delete_flows env name))
      (bindE (bindE (getbr k name) (\<lambda>bo. liftE (attr_of bo))) (\<lambda>i.
       bindE (getE (\<lambda>(ss, w). br_with_md (the_bridge ss k i))) (\<lambda>with_md.
       whenE with_md (thenE (on_sut k (del_tlv_map env name)) (set_with_md k i False))))))"

text \<open>The INPUT and OUTPUT flows of a SUT for a deployment, provisioned after the old ones are gone.\<close>

definition setup_flows :: "ssh_env \<Rightarrow> string \<Rightarrow> string \<Rightarrow> bool \<Rightarrow> nat \<Rightarrow> unit tbm" where
  "setup_flows env name mode with_md k =
     thenE (on_sut k (clear_input_output_flows env name))
    (bindE (readE (\<lambda>(ss, w). generate_input_flows ss k name mode (w_vifs w))) (\<lambda>input.
     bindE (readE (\<lambda>(ss, w). generate_output_flows ss k name mode with_md (w_vifs w))) (\<lambda>output.
     on_sut k (provision_flows env name (input @ output)))))"

definition tunnel_overlay_flow_setup :: "ssh_env \<Rightarrow> string \<Rightarrow> bool \<Rightarrow> unit tbm" where
  "tunnel_overlay_flow_setup env name with_md =
     for_suts (\<lambda>k.
       bindE (getbr k name) (\<lambda>bo.
       thenE (whenE with_md
                (thenE (on_sut k (add_tlv_map env name))
                       (bindE (liftE (attr_of bo)) (\<lambda>i. set_with_md k i True))))
             (setup_flows env name ''tnl'' with_md k)))"

definition l2_overlay_flow_setup :: "ssh_env \<Rightarrow> string \<Rightarrow> string \<Rightarrow> unit tbm" where
  "l2_overlay_flow_setup env name mode = for_suts (setup_flows env name mode False)"

section \<open>VNIs\<close>

definition VNI_BASE_BY_IDX_ON_VM :: nat where "VNI_BASE_BY_IDX_ON_VM = 200"
definition VNI_BASE_BY_IDX_ON_HOST :: nat where "VNI_BASE_BY_IDX_ON_HOST = 300"

text \<open>\<open>vif.vni = f"{vni_idx}"; vni_idx += 1\<close> over a list of interfaces.\<close>

definition number_vifs :: "nat \<Rightarrow> nat list \<Rightarrow> unit tbm" where
  "number_vifs base rs =
     forE (enumerate base rs) (\<lambda>(n, r). on_snd (upd_vif r (\<lambda>v. v\<lparr>vif_vni := PStr (nat_str n)\<rparr>)))"

definition vms_of :: "nat \<Rightarrow> vm list tbm" where
  "vms_of k = getE (\<lambda>(ss, w). su_vms (ss ! k))"

definition set_vif_vni_by_idx_on_vm :: "unit tbm" where
  "set_vif_vni_by_idx_on_vm =
     for_suts (\<lambda>k.
       bindE (vms_of k) (\<lambda>vms.
       thenE (forE vms (\<lambda>m. number_vifs VNI_BASE_BY_IDX_ON_VM (vm_vifs m)))
             (on_sut k refresh_bridge_vnis)))"

definition set_vif_vni_by_idx_on_host :: "unit tbm" where
  "set_vif_vni_by_idx_on_host =
     for_suts (\<lambda>k.
       bindE (vms_of k) (\<lambda>vms.
       thenE (number_vifs VNI_BASE_BY_IDX_ON_HOST (concat (map vm_vifs vms)))
             (on_sut k refresh_bridge_vnis)))"

definition reset_vif_vni_on_all_suts :: "unit tbm" where
  "reset_vif_vni_on_all_suts =
     for_suts (\<lambda>k.
       bindE (vms_of k) (\<lambda>vms.
       thenE (forE (concat (map vm_vifs vms))
                (\<lambda>r. on_snd (upd_vif r (\<lambda>v. v\<lparr>vif_vni := PStr (int_str VNI_NONE)\<rparr>))))
             (on_sut k refresh_bridge_vnis)))"

section \<open>Deployment\<close>

definition deploy_vni_as_tunnel_overlay ::
  "ssh_env \<Rightarrow> string \<Rightarrow> string \<Rightarrow> string \<Rightarrow> string \<Rightarrow> bool \<Rightarrow> unit tbm" where
  "deploy_vni_as_tunnel_overlay env name tnl_type rip_mode tun_id_mode tnl_md =
     thenE (create_tunnel_ports env name tnl_type rip_mode tun_id_mode)
    (thenE (setup_default_pipeline_on_all_suts env name)
           (tunnel_overlay_flow_setup env name tnl_md))"

definition undeploy_vni_as_tunnel_overlay :: "ssh_env \<Rightarrow> string \<Rightarrow> unit tbm" where
  "undeploy_vni_as_tunnel_overlay env name =
     thenE (overlay_flow_clear env name) (delete_tunnel_ports env name)"

definition deploy_vni_as_vlan_overlay :: "ssh_env \<Rightarrow> string \<Rightarrow> unit tbm" where
  "deploy_vni_as_vlan_overlay env name =
     thenE (setup_default_pipeline_on_all_suts env name) (l2_overlay_flow_setup env name ''vlan'')"

definition undeploy_vni_as_vlan_overlay :: "ssh_env \<Rightarrow> string \<Rightarrow> unit tbm" where
  "undeploy_vni_as_vlan_overlay env name = overlay_flow_clear env name"

definition deploy_vni_as_qinq_overlay :: "ssh_env \<Rightarrow> string \<Rightarrow> unit tbm" where
  "deploy_vni_as_qinq_overlay env name =
     thenE (for_suts (\<lambda>k. on_sut k (set_vlan_limit env 2)))
    (thenE (setup_default_pipeline_on_all_suts env name) (l2_overlay_flow_setup env name ''qinq''))"

definition undeploy_vni_as_qinq_overlay :: "ssh_env \<Rightarrow> string \<Rightarrow> unit tbm" where
  "undeploy_vni_as_qinq_overlay env name =
     thenE (for_suts (\<lambda>k. thenE (on_sut k (set_vlan_limit env 2)) (on_sut k (set_uplink_mtu env 1500))))
           (overlay_flow_clear env name)"

end
