(* ===== verification/Overlay_Props.thy ===== *)
theory Overlay_Props imports Overlay begin

text \<open>
  What the overlay keywords do to the testbed: which VNIs they write into which interfaces, which tunnel ports a
  deployment creates on each system, and which ones undeployment leaves behind.
\<close>

section \<open>Loops over the systems under test\<close>

lemma em_on_sut [em_simps]:
  "on_sut k m (ss, w) = (case m (su_vswitch (ss ! k), w) of
     (r, (vs', w')) \<Rightarrow> (r, (ss[k := (ss ! k)\<lparr>su_vswitch := vs'\<rparr>], w')))"
  by (simp add: on_sut_def)

lemma em_for_suts [em_simps]: "for_suts b (ss, w) = forE [0..<length ss] b (ss, w)"
  by (simp add: for_suts_def em_simps)

lemma ret_on_sut:
  assumes "on_sut k m (ss, w) = (Inr x, (ss', w'))"
  obtains vs' where "m (su_vswitch (ss ! k), w) = (Inr x, (vs', w'))"
    "ss' = ss[k := (ss ! k)\<lparr>su_vswitch := vs'\<rparr>]"
  using assms by (auto simp: em_simps split: prod.splits)

text \<open>
  A body that returns has changed only its own system, and the change is described by \<open>R\<close>; \<open>Q\<close> is
  what the body needs to know of the other systems.
\<close>

lemma for_suts_each:
  assumes "for_suts b (ss, w) = (Inr x, (ss', w'))" "Q ss"
    and body: "\<And>k ss w x ss' w'. k < length ss \<Longrightarrow> Q ss \<Longrightarrow> b k (ss, w) = (Inr x, (ss', w'))
        \<Longrightarrow> Q ss' \<and> (\<exists>s'. ss' = ss[k := s'] \<and> R k (ss ! k) s')"
  shows "length ss' = length ss \<and> (\<forall>k < length ss. R k (ss ! k) (ss' ! k))"
proof -
  have "forE ks b (ss, w) = (Inr x, (ss', w')) \<Longrightarrow> Q ss \<Longrightarrow> distinct ks \<Longrightarrow> set ks \<subseteq> {..<length ss} \<Longrightarrow>
      length ss' = length ss \<and> (\<forall>k < length ss. if k \<in> set ks then R k (ss ! k) (ss' ! k) else ss' ! k = ss ! k)"
    for ks ss w x
  proof (induction ks arbitrary: ss w x)
    case Nil
    then show ?case by (simp add: returns)
  next
    case (Cons k ks)
    from Cons.prems(1) obtain y ss1 w1 where
      1: "b k (ss, w) = (Inr y, (ss1, w1))" and 2: "forE ks b (ss1, w1) = (Inr x, (ss', w'))"
      by (auto elim!: returns_thenE)
    from body [OF _ Cons.prems(2) 1] Cons.prems(4) obtain s' where
      s': "Q ss1" "ss1 = ss[k := s']" "R k (ss ! k) s'" by auto
    from Cons.IH [OF 2 s'(1)] s' Cons.prems(3, 4) show ?case
      by (auto simp: nth_list_update split: if_splits)
  qed
  from this [of "[0..<length ss]" ss w x] assms(1, 2) show ?thesis
    by (simp add: em_simps atLeast0LessThan)
qed

section \<open>VNIs\<close>

text \<open>Writing a VNI into each of a list of interfaces.\<close>

definition assign :: "(nat \<times> nat) list \<Rightarrow> world \<Rightarrow> world" where
  "assign ps w = fold (\<lambda>(n, r) w. w\<lparr>w_vifs := (w_vifs w)(r := (w_vifs w r)\<lparr>vif_vni := PStr (nat_str n)\<rparr>)\<rparr>) ps w"

lemma assign_append: "assign (ps @ qs) w = assign qs (assign ps w)"
  by (simp add: assign_def)

lemma number_vifs_eq: "number_vifs base rs (ss, w) = (Inr (), (ss, assign (enumerate base rs) w))"
proof -
  have "forE ps (\<lambda>(n, r). on_snd (upd_vif r (\<lambda>v. v\<lparr>vif_vni := PStr (nat_str n)\<rparr>))) (ss, w)
      = (Inr (), (ss, assign ps w))" for ps
    by (induction ps arbitrary: w) (auto simp: em_simps upd_vif_def assign_def)
  then show ?thesis by (simp add: number_vifs_def)
qed

definition all_vifs :: "sut \<Rightarrow> nat list" where
  "all_vifs s = concat (map vm_vifs (su_vms s))"

definition vm_numbers :: "sut \<Rightarrow> (nat \<times> nat) list" where
  "vm_numbers s = concat (map (\<lambda>m. enumerate VNI_BASE_BY_IDX_ON_VM (vm_vifs m)) (su_vms s))"

definition host_numbers :: "sut \<Rightarrow> (nat \<times> nat) list" where
  "host_numbers s = enumerate VNI_BASE_BY_IDX_ON_HOST (all_vifs s)"

lemma map_nth_concat: "map (\<lambda>k. g (ss ! k)) [0..<length ss] = map g ss"
  using arg_cong [OF map_nth [of ss], of "map g"] by (simp add: comp_def)

text \<open>The loop common to the two numbering keywords.\<close>

lemma numbering_loop:
  assumes "\<And>k ss w. b k (ss, w) = (Inr (), (ss, assign (g (ss ! k)) w))"
    and g: "\<And>s vs. g (s\<lparr>su_vswitch := vs\<rparr>) = g s"
  shows "\<exists>ss'. for_suts (\<lambda>k. thenE (b k) (on_sut k refresh_bridge_vnis)) (ss, w)
      = (Inr (), (ss', assign (concat (map g ss)) w)) \<and> map su_vms ss' = map su_vms ss"
proof -
  have "\<exists>ss'. forE ks (\<lambda>k. thenE (b k) (on_sut k refresh_bridge_vnis)) (ss, w)
      = (Inr (), (ss', assign (concat (map (\<lambda>k. g (ss ! k)) ks)) w))
      \<and> map su_vms ss' = map su_vms ss" if "set ks \<subseteq> {..<length ss}" for ks w ss
    using that
  proof (induction ks arbitrary: w ss)
    case Nil
    then show ?case by (simp add: em_simps assign_def)
  next
    case (Cons k ks)
    define vs where "vs = (su_vswitch (ss ! k))\<lparr>vs_bridges :=
        map (refresh_vnis (w_vifs (assign (g (ss ! k)) w))) (vs_bridges (su_vswitch (ss ! k)))\<rparr>"
    define ss1 where "ss1 = ss[k := (ss ! k)\<lparr>su_vswitch := vs\<rparr>]"
    have step: "thenE (b k) (on_sut k refresh_bridge_vnis) (ss, w)
        = (Inr (), (ss1, assign (g (ss ! k)) w))"
      by (simp add: em_simps assms(1) refresh_bridge_vnis_def ss1_def vs_def)
    have same: "g (ss1 ! j) = g (ss ! j)" if "j < length ss" for j
      using that by (cases "j = k") (simp_all add: ss1_def g)
    have gs: "map (\<lambda>j. g (ss1 ! j)) ks = map (\<lambda>j. g (ss ! j)) ks"
      using same Cons.prems by auto
    have vms: "map su_vms ss1 = map su_vms ss"
      by (cases "k < length ss") (simp_all add: ss1_def map_update list_update_same_conv list_update_beyond)
    have "length ss1 = length ss" by (simp add: ss1_def)
    with Cons.IH [of ss1 "assign (g (ss ! k)) w"] Cons.prems show ?case
      by (simp add: em_for_Cons step gs vms assign_append del: forE.simps)
  qed
  from this [of "[0..<length ss]" ss w] show ?thesis
    by (simp add: em_for_suts atLeast0LessThan map_nth_concat)
qed

lemma number_on_vm_eq:
  "forE vms (\<lambda>m. number_vifs base (vm_vifs m)) (ss, w)
     = (Inr (), (ss, assign (concat (map (\<lambda>m. enumerate base (vm_vifs m)) vms)) w))"
  by (induction vms arbitrary: w) (simp_all add: em_simps number_vifs_eq assign_append, simp add: assign_def)

lemma set_on_vm_eq:
  "\<exists>ss'. set_vif_vni_by_idx_on_vm (ss, w) = (Inr (), (ss', assign (concat (map vm_numbers ss)) w))
     \<and> map su_vms ss' = map su_vms ss"
proof -
  let ?b = "\<lambda>k. bindE (vms_of k) (\<lambda>vms. forE vms (\<lambda>m. number_vifs VNI_BASE_BY_IDX_ON_VM (vm_vifs m)))"
  have b: "?b k (ss, w) = (Inr (), (ss, assign (vm_numbers (ss ! k)) w))" for k ss w
    by (simp add: em_simps vms_of_def number_on_vm_eq vm_numbers_def)
  have "set_vif_vni_by_idx_on_vm = for_suts (\<lambda>k. thenE (?b k) (on_sut k refresh_bridge_vnis))"
    by (simp add: set_vif_vni_by_idx_on_vm_def thenE_def bindE_assoc)
  then show ?thesis
    using numbering_loop [where b = ?b and g = vm_numbers, OF b] by (simp add: vm_numbers_def)
qed

lemma set_on_host_eq:
  "\<exists>ss'. set_vif_vni_by_idx_on_host (ss, w) = (Inr (), (ss', assign (concat (map host_numbers ss)) w))
     \<and> map su_vms ss' = map su_vms ss"
proof -
  let ?b = "\<lambda>k. bindE (vms_of k) (\<lambda>vms. number_vifs VNI_BASE_BY_IDX_ON_HOST (concat (map vm_vifs vms)))"
  have b: "?b k (ss, w) = (Inr (), (ss, assign (host_numbers (ss ! k)) w))" for k ss w
    by (simp add: em_simps vms_of_def number_vifs_eq host_numbers_def all_vifs_def)
  have "set_vif_vni_by_idx_on_host = for_suts (\<lambda>k. thenE (?b k) (on_sut k refresh_bridge_vnis))"
    by (simp add: set_vif_vni_by_idx_on_host_def thenE_def bindE_assoc)
  then show ?thesis
    using numbering_loop [where b = ?b and g = host_numbers, OF b]
    by (simp add: host_numbers_def all_vifs_def)
qed

section \<open>Tunnel ports\<close>

definition tnls :: "string \<Rightarrow> sut \<Rightarrow> tunnel_port list" where
  "tnls name s = (case get_bridge (su_vswitch s) name of
     None \<Rightarrow> [] | Some i \<Rightarrow> br_tnl_ports (vs_bridges (su_vswitch s) ! i))"

fun every_second :: "'a list \<Rightarrow> 'a list" where
  "every_second (x # y # xs) = y # every_second xs"
| "every_second _ = []"

text \<open>
  One run of the loop over a list that shrinks: the kept ports come first, and the loop goes on after
  the first port of the rest.
\<close>

lemma live_tunnels_every_second:
  assumes "live_tunnels env k i name (length kept) n (ss, w) = (Inr x, (ss', w'))"
    and "k < length ss" "get_bridge (su_vswitch (ss ! k)) name = Some i"
    and "br_tnl_ports (vs_bridges (su_vswitch (ss ! k)) ! i) = kept @ todo"
    and "distinct (kept @ todo)" "length todo \<le> n"
  shows "\<exists>s'. ss' = ss[k := s'] \<and> get_bridge (su_vswitch s') name = Some i
     \<and> br_tnl_ports (vs_bridges (su_vswitch s') ! i) = kept @ every_second todo"
  using assms
proof (induction n arbitrary: kept todo ss w)
  case 0
  then show ?case by (intro exI [of _ "ss ! k"]) (simp add: returns)
next
  case (Suc n)
  show ?case
  proof (cases todo)
    case Nil
    with Suc.prems show ?thesis
      by (intro exI [of _ "ss ! k"]) (auto simp: returns the_bridge_def split: if_splits)
  next
    case (Cons t todo')
    let ?vs = "su_vswitch (ss ! k)"
    obtain y ss1 w1 where
      1: "on_sut k (delete_tunnel_port env name t) (ss, w) = (Inr y, (ss1, w1))"
      and 2: "live_tunnels env k i name (Suc (length kept)) n (ss1, w1) = (Inr x, (ss', w'))"
      using Suc.prems(1, 4) Cons by (auto simp: returns the_bridge_def em_get split: if_splits)
    from 1 obtain vs1 where vs1: "delete_tunnel_port env name t (?vs, w) = (Inr y, (vs1, w1))"
      "ss1 = ss[k := (ss ! k)\<lparr>su_vswitch := vs1\<rparr>]" by (rule ret_on_sut)
    have t: "t \<in> set (br_tnl_ports (vs_bridges ?vs ! i))" using Suc.prems(4) Cons by simp
    note i = get_bridge_Some [OF Suc.prems(3)]
    from delete_tunnel_cases [OF vs1(1) Suc.prems(3) t] have "vs1 = upd_bridge i (drop_tunnel t) ?vs"
      by auto
    then have br: "get_bridge vs1 name = Some i" "br_tnl_ports (vs_bridges vs1 ! i) = kept @ todo'"
      using Suc.prems i Cons by (simp_all add: get_bridge_upd upd_bridge_nth drop_tunnel_def remove1_append)
    show ?thesis
    proof (cases todo')
      case Nil
      with 2 br vs1 Suc.prems(2) Cons show ?thesis
        by (cases n) (auto simp: returns the_bridge_def intro!: exI [of _ "(ss ! k)\<lparr>su_vswitch := vs1\<rparr>"] split: if_splits)
    next
      case kc: (Cons u todo'')
      have "\<exists>s'. ss' = ss1[k := s'] \<and> get_bridge (su_vswitch s') name = Some i
          \<and> br_tnl_ports (vs_bridges (su_vswitch s') ! i) = (kept @ [u]) @ every_second todo''"
        by (rule Suc.IH [of "kept @ [u]" ss1 w1]) (use 2 br vs1 Suc.prems Cons kc in auto)
      with vs1 Cons kc show ?thesis by auto
    qed
  qed
qed

lemma live_frame:
  "live_tunnels env k i name pos n (ss, w) = (Inr x, (ss', w')) \<Longrightarrow> k < length ss \<Longrightarrow> \<exists>s'. ss' = ss[k := s']"
proof (induction n arbitrary: pos ss w)
  case 0
  then show ?case by (intro exI [of _ "ss ! k"]) (simp add: returns)
next
  case (Suc n)
  show ?case
  proof (cases "pos < length (br_tnl_ports (the_bridge ss k i))")
    case False
    with Suc.prems show ?thesis by (intro exI [of _ "ss ! k"]) (simp add: returns)
  next
    case True
    with Suc.prems(1) obtain tp y ss1 w1 where
      1: "on_sut k (delete_tunnel_port env name tp) (ss, w) = (Inr y, (ss1, w1))"
      and 2: "live_tunnels env k i name (Suc pos) n (ss1, w1) = (Inr x, (ss', w'))"
      by (auto simp: returns)
    from 1 obtain vs1 where "ss1 = ss[k := (ss ! k)\<lparr>su_vswitch := vs1\<rparr>]" by (rule ret_on_sut)
    with Suc.IH [OF 2] Suc.prems(2) show ?thesis by auto
  qed
qed

text \<open>
  \<open>grown name ps s s'\<close>: the bridge has got, at the end of its list, tunnel ports with these remote
  addresses and VNIs, and what a deployment reads of the system is as it was.
\<close>

definition vni_keys :: "string \<Rightarrow> sut \<Rightarrow> pyval list" where
  "vni_keys name s = (case get_bridge (su_vswitch s) name of
     None \<Rightarrow> [] | Some i \<Rightarrow> map fst (br_vnis (vs_bridges (su_vswitch s) ! i)))"

definition grown :: "string \<Rightarrow> (pyval \<times> pyval) list \<Rightarrow> sut \<Rightarrow> sut \<Rightarrow> bool" where
  "grown name ps s s' \<longleftrightarrow>
     vs_tep_addr (su_vswitch s') = vs_tep_addr (su_vswitch s)
   \<and> get_bridge (su_vswitch s') name = get_bridge (su_vswitch s) name
   \<and> vni_keys name s' = vni_keys name s
   \<and> (\<exists>tps. tnls name s' = tnls name s @ tps \<and> map (\<lambda>t. (tp_rip t, tp_vni t)) tps = ps)"

lemma grown_refl: "grown name [] s s"
  by (simp add: grown_def)

lemma grown_trans: "grown name ps s s' \<Longrightarrow> grown name qs s' s'' \<Longrightarrow> grown name (ps @ qs) s s''"
  by (auto simp: grown_def)

lemma new_port_grows:
  assumes "new_port env k name ty rip vni (ss, w) = (Inr x, (ss', w'))" "k < length ss"
  shows "\<exists>s'. ss' = ss[k := s'] \<and> grown name [(rip, vni)] (ss ! k) s'"
proof -
  let ?vs = "su_vswitch (ss ! k)"
  from assms(1) obtain tp where "on_sut k (create_tunnel_port env name ty rip vni) (ss, w) = (Inr tp, (ss', w'))"
    by (auto simp: new_port_def returns)
  then obtain vs' where vs': "create_tunnel_port env name ty rip vni (?vs, w) = (Inr tp, (vs', w'))"
    "ss' = ss[k := (ss ! k)\<lparr>su_vswitch := vs'\<rparr>]" by (rule ret_on_sut)
  from vs'(1) show ?thesis
  proof (cases rule: create_tunnel_cases)
    case (made i ofp ids)
    note i = get_bridge_Some [OF made(1)]
    have "grown name [(rip, vni)] (ss ! k) ((ss ! k)\<lparr>su_vswitch := vs'\<rparr>)"
      using made i
      by (simp add: grown_def vni_keys_def tnls_def get_bridge_upd upd_bridge_nth add_tunnel_def take_id_def
          new_tunnel_def)
    with vs' show ?thesis by blast
  qed simp_all
qed

lemma grows_loop:
  assumes "forE xs b (ss, w) = (Inr x, (ss', w'))" "k < length ss"
    and "vni_keys name (ss ! k) = V" "get_bridge (su_vswitch (ss ! k)) name = bo"
    and body: "\<And>x ss w y ss' w'. x \<in> set xs \<Longrightarrow> k < length ss \<Longrightarrow> vni_keys name (ss ! k) = V \<Longrightarrow>
        get_bridge (su_vswitch (ss ! k)) name = bo \<Longrightarrow> b x (ss, w) = (Inr y, (ss', w'))
        \<Longrightarrow> \<exists>s'. ss' = ss[k := s'] \<and> grown name (f x) (ss ! k) s'"
  shows "\<exists>s'. ss' = ss[k := s'] \<and> grown name (concat (map f xs)) (ss ! k) s'"
  using assms
proof (induction xs arbitrary: ss w x)
  case Nil
  then show ?case by (intro exI [of _ "ss ! k"]) (simp add: returns grown_refl)
next
  case (Cons a xs)
  from Cons.prems(1) obtain y ss1 w1 where
    1: "b a (ss, w) = (Inr y, (ss1, w1))" and 2: "forE xs b (ss1, w1) = (Inr x, (ss', w'))"
    by (auto elim!: returns_thenE)
  from Cons.prems(5) [OF _ Cons.prems(2-4) 1] obtain s1 where
    s1: "ss1 = ss[k := s1]" "grown name (f a) (ss ! k) s1" by auto
  have k: "k < length ss1" "ss1 ! k = s1" using s1 Cons.prems(2) by simp_all
  have "\<exists>s'. ss' = ss1[k := s'] \<and> grown name (concat (map f xs)) (ss1 ! k) s'"
    by (rule Cons.IH [OF 2 k(1)]) (use s1 k Cons.prems in \<open>auto simp: grown_def\<close>)
  with s1 k grown_trans show ?case by fastforce
qed

text \<open>The remote addresses and VNIs of the ports a deployment makes on SUT \<open>k\<close>.\<close>

definition rips :: "sut list \<Rightarrow> nat \<Rightarrow> string \<Rightarrow> pyval list" where
  "rips ss k rip_mode =
     (if rip_mode = ''flow'' then [PStr ''flow'']
      else map (\<lambda>r. PStr (ip_str (ia_ipv4 (vs_tep_addr (su_vswitch r))))) (other_suts ss k))"

definition port_vnis :: "string \<Rightarrow> sut \<Rightarrow> string \<Rightarrow> pyval list" where
  "port_vnis name s vni_mode = (if vni_mode = ''flow'' then [PStr ''flow''] else vni_keys name s)"

lemma ports_for_grows:
  assumes "ports_for env k bo name ty rip vni_mode (ss, w) = (Inr x, (ss', w'))" "k < length ss"
    and bo: "get_bridge (su_vswitch (ss ! k)) name = bo"
  shows "\<exists>s'. ss' = ss[k := s'] \<and> grown name (map (\<lambda>v. (rip, v)) (port_vnis name (ss ! k) vni_mode)) (ss ! k) s'"
proof (cases "vni_mode = ''flow''")
  case True
  with assms show ?thesis
    by (auto simp: ports_for_def port_vnis_def dest: new_port_grows)
next
  case False
  from assms(1) False obtain i where i: "bo = Some i"
    "forE (map fst (br_vnis (the_bridge ss k i))) (new_port env k name ty rip) (ss, w) = (Inr x, (ss', w'))"
    by (auto simp: ports_for_def returns attr_of_def split: option.splits)
  have "map fst (br_vnis (the_bridge ss k i)) = vni_keys name (ss ! k)"
    using i(1) bo by (simp add: vni_keys_def the_bridge_def)
  with i(2) have loop: "forE (vni_keys name (ss ! k)) (new_port env k name ty rip) (ss, w) = (Inr x, (ss', w'))"
    by simp
  from grows_loop [where f = "\<lambda>v. [(rip, v)]", OF loop assms(2) refl refl] False show ?thesis
    by (auto simp: port_vnis_def concat_map_singleton dest: new_port_grows)
qed

text \<open>The addresses other systems connect to do not change during the deployment.\<close>

definition teps :: "sut list \<Rightarrow> if_address list" where
  "teps ss = map (\<lambda>s. vs_tep_addr (su_vswitch s)) ss"

lemma rips_teps: "teps ss = teps ss' \<Longrightarrow> rips ss k m = rips ss' k m"
proof -
  assume t: "teps ss = teps ss'"
  then have l: "length ss = length ss'" unfolding teps_def by (rule map_eq_imp_length_eq)
  have "vs_tep_addr (su_vswitch (ss ! i)) = vs_tep_addr (su_vswitch (ss' ! i))" if "i < length ss" for i
    using arg_cong [OF t, of "\<lambda>xs. xs ! i"] that l by (simp add: teps_def)
  then show ?thesis by (auto simp: rips_def other_suts_def l)
qed

lemma teps_upd:
  "k < length zs \<Longrightarrow> vs_tep_addr (su_vswitch s') = vs_tep_addr (su_vswitch (zs ! k)) \<Longrightarrow> teps (zs[k := s']) = teps zs"
  unfolding teps_def by (metis length_map list_update_id map_update nth_map)

definition wanted_ports :: "string \<Rightarrow> pyval list \<Rightarrow> string \<Rightarrow> sut \<Rightarrow> (pyval \<times> pyval) list" where
  "wanted_ports name rs vni_mode s = concat (map (\<lambda>r. map (\<lambda>v. (r, v)) (port_vnis name s vni_mode)) rs)"

text \<open>The body of the loop of \<open>_create_tunnel_ports\<close>.\<close>

definition create_ports_on :: "ssh_env \<Rightarrow> string \<Rightarrow> string \<Rightarrow> string \<Rightarrow> string \<Rightarrow> nat \<Rightarrow> unit tbm" where
  "create_ports_on env name ty rip_mode vni_mode k =
     bindE (getbr k name) (\<lambda>bo.
     if rip_mode \<noteq> ''flow'' then
       bindE (getE (\<lambda>(ss, w). other_suts ss k)) (\<lambda>rs.
       forE rs (\<lambda>r.
         ports_for env k bo name ty (PStr (ip_str (ia_ipv4 (vs_tep_addr (su_vswitch r))))) vni_mode))
     else ports_for env k bo name ty (PStr ''flow'') vni_mode)"

lemma create_tunnel_ports_eq:
  "create_tunnel_ports env name ty rip_mode vni_mode = for_suts (create_ports_on env name ty rip_mode vni_mode)"
  unfolding create_tunnel_ports_def create_ports_on_def by (rule refl)

lemma create_ports_on_grows:
  assumes "create_ports_on env name ty rip_mode vni_mode k (zs, w) = (Inr x, (zs', w'))" "k < length zs"
  shows "\<exists>s'. zs' = zs[k := s'] \<and> grown name (wanted_ports name (rips zs k rip_mode) vni_mode (zs ! k)) (zs ! k) s'"
proof (cases "rip_mode = ''flow''")
  case True
  with assms(1) have "ports_for env k (bridge_of zs k name) name ty (PStr ''flow'') vni_mode (zs, w) = (Inr x, (zs', w'))"
    by (simp add: create_ports_on_def getbr_def em_simps)
  from ports_for_grows [OF this assms(2)] True show ?thesis
    by (simp add: rips_def bridge_of_def wanted_ports_def)
next
  case False
  let ?rip = "\<lambda>r. PStr (ip_str (ia_ipv4 (vs_tep_addr (su_vswitch r))))"
  let ?V = "port_vnis name (zs ! k) vni_mode"
  have loop: "forE (other_suts zs k) (\<lambda>r. ports_for env k (bridge_of zs k name) name ty (?rip r) vni_mode)
      (zs, w) = (Inr x, (zs', w'))"
    using assms(1) False by (simp add: create_ports_on_def getbr_def em_simps)
  have "\<exists>s'. zs' = zs[k := s'] \<and> grown name (concat (map (\<lambda>r. map (\<lambda>v. (?rip r, v)) ?V) (other_suts zs k))) (zs ! k) s'"
  proof (rule grows_loop [OF loop assms(2) refl, where bo = "bridge_of zs k name"])
    fix r ys v y ys' v'
    assume 1: "k < length ys" "vni_keys name (ys ! k) = vni_keys name (zs ! k)"
      "get_bridge (su_vswitch (ys ! k)) name = bridge_of zs k name"
      "ports_for env k (bridge_of zs k name) name ty (?rip r) vni_mode (ys, v) = (Inr y, (ys', v'))"
    have "port_vnis name (ys ! k) vni_mode = ?V" using 1(2) by (simp add: port_vnis_def)
    with ports_for_grows [OF 1(4) 1(1) 1(3)]
    show "\<exists>s'. ys' = ys[k := s'] \<and> grown name (map (\<lambda>v. (?rip r, v)) ?V) (ys ! k) s'" by simp
  qed (simp add: bridge_of_def)
  with False show ?thesis by (simp add: rips_def comp_def wanted_ports_def)
qed

lemma deployed_grown:
  assumes "create_tunnel_ports env name ty rip_mode vni_mode (ss, w) = (Inr (), (ss', w'))"
  shows "length ss' = length ss \<and> (\<forall>k < length ss.
      grown name (wanted_ports name (rips ss k rip_mode) vni_mode (ss ! k)) (ss ! k) (ss' ! k))"
proof (rule for_suts_each [where Q = "\<lambda>zs. teps zs = teps ss", OF assms [unfolded create_tunnel_ports_eq] refl])
  fix k zs w x zs' w'
  assume k: "k < length zs" and t: "teps zs = teps ss"
    and run: "create_ports_on env name ty rip_mode vni_mode k (zs, w) = (Inr x, (zs', w'))"
  from create_ports_on_grows [OF run k] rips_teps [OF t] obtain s' where
    s': "zs' = zs[k := s']" "grown name (wanted_ports name (rips ss k rip_mode) vni_mode (zs ! k)) (zs ! k) s'"
    by auto
  then have "teps zs' = teps ss" using t k teps_upd by (simp add: grown_def)
  with s' show "teps zs' = teps ss
      \<and> (\<exists>s'. zs' = zs[k := s'] \<and> grown name (wanted_ports name (rips ss k rip_mode) vni_mode (zs ! k)) (zs ! k) s')"
    by blast
qed

section \<open>Two hosts in the cooperative environment\<close>

definition sut_a :: sut where
  "sut_a = \<lparr>su_name = ''sut_a'', su_ssh_info = node_h1, su_numas = [], su_pnic_numa_id = Some 0,
     su_vswitch = switch1, su_vms = [], su_cpuinfo = []\<rparr>"

definition sut_t :: sut where
  "sut_t = sut_a\<lparr>su_vswitch := upd_bridge 0 (\<lambda>b. b\<lparr>br_tnl_ports := [tunnel0, tunnel0\<lparr>tp_ofp := 101\<rparr>]\<rparr>) switch1\<rparr>"

definition vm_v :: "nat list \<Rightarrow> vm" where
  "vm_v rs = \<lparr>vm_name = ''vm01'', vm_vifs = rs, vm_ssh_info = node_h1, vm_host_ssh_info = node_h1,
     vm_qmp_sock = [], vm_qga_sock = [], vm_host_cpus = [], vm_smp = [], vm_options = [], vm_ssh_fwd_port = 0,
     vm_serial_port = 0, vm_vnc_port = 0, vm_mem_size = MemMb 0, vm_huge_mnt = [], vm_disk_image = [], vm_numa_id = 0,
     vm_is_ovs_native = True, vm_qemu_bin = [], vm_img_base = []\<rparr>"

lemma sut_a_port:
  assumes "ss ! k = sut_a"
  shows "\<exists>w'. new_port quiet_env k ''br0'' ty rip vni (ss, w)
     = (Inr (), (ss[k := sut_a\<lparr>su_vswitch := upd_bridge 0 (add_tunnel rest_ids (new_tunnel ty rip vni 100)) switch1\<rparr>], w'))"
proof -
  have vs: "su_vswitch sut_a = switch1" by (simp add: sut_a_def)
  obtain w' where "create_tunnel_port quiet_env ''br0'' ty rip vni (switch1, w)
      = (Inr (new_tunnel ty rip vni 100), (upd_bridge 0 (add_tunnel rest_ids (new_tunnel ty rip vni 100)) switch1, w'))"
    using quiet_create_tunnel [OF switch1_bridge] by (rule that)
  with assms vs show ?thesis by (simp add: new_port_def em_simps)
qed

lemma quiet_delete_tunnel:
  assumes "get_bridge vs name = Some i" "tp \<in> set (br_tnl_ports (vs_bridges vs ! i))"
  shows "\<exists>w'. delete_tunnel_port quiet_env name tp (vs, w) = (Inr (), (upd_bridge i (drop_tunnel tp) vs, w'))"
proof -
  obtain r vs' w' where run: "delete_tunnel_port quiet_env name tp (vs, w) = (r, (vs', w'))"
    by (rule prod_cases3)
  have "\<exists>x. r = Inr x"
    using run assms get_bridge_Some [OF assms(1)]
    by (auto simp: delete_tunnel_port_def delete_interface_def em_simps attr_of_def modify_bridge_def upd_bridge_nth)
  with delete_tunnel_cases [OF run assms] run show ?thesis by auto
qed

lemma switch_t_bridge: "get_bridge (su_vswitch sut_t) ''br0'' = Some 0"
  "br_tnl_ports (vs_bridges (su_vswitch sut_t) ! 0) = [tunnel0, tunnel0\<lparr>tp_ofp := 101\<rparr>]"
  by (simp_all add: sut_t_def upd_bridge_def get_bridge_def sut_a_def switch1_def Bridge_def)

lemma sut_t_undeploys: "\<exists>ss' w'. delete_tunnel_ports quiet_env ''br0'' ([sut_t], w) = (Inr (), (ss', w'))"
proof -
  have t: "tunnel0 \<in> set (br_tnl_ports (vs_bridges (su_vswitch sut_t) ! 0))"
    by (simp add: switch_t_bridge)
  obtain w1 where "delete_tunnel_port quiet_env ''br0'' tunnel0 (su_vswitch sut_t, w)
      = (Inr (), (upd_bridge 0 (drop_tunnel tunnel0) (su_vswitch sut_t), w1))"
    using quiet_delete_tunnel [OF switch_t_bridge(1) t] by blast
  moreover have "br_tnl_ports (vs_bridges (upd_bridge 0 (drop_tunnel tunnel0) (su_vswitch sut_t)) ! 0)
      = [tunnel0\<lparr>tp_ofp := 101\<rparr>]"
    using get_bridge_Some [OF switch_t_bridge(1)]
    by (simp add: upd_bridge_nth drop_tunnel_def switch_t_bridge)
  ultimately show ?thesis
    by (simp add: delete_tunnel_ports_def em_simps getbr_def bridge_of_def attr_of_def the_bridge_def
        switch_t_bridge eval_nat_numeral)
qed

section \<open>Properties\<close>

text \<open>
  C27 A tunnel deployment that returns has given the bridge of every system exactly one new port for
  each remote address (each other system's, or the one that takes it from the flow) and each VNI (each
  of the bridge's, or the one that takes it from the flow), remote by remote, after the ports it had.
\<close>

theorem deployment_ports:
  assumes "create_tunnel_ports env name ty rip_mode vni_mode (ss, w) = (Inr (), (ss', w'))" "k < length ss"
  shows "\<exists>tps. tnls name (ss' ! k) = tnls name (ss ! k) @ tps
     \<and> map (\<lambda>t. (tp_rip t, tp_vni t)) tps
        = concat (map (\<lambda>r. map (\<lambda>v. (r, v)) (port_vnis name (ss ! k) vni_mode)) (rips ss k rip_mode))"
  using deployed_grown [OF assms(1)] assms(2) by (simp add: grown_def wanted_ports_def)

theorem deployment_ports_witness:
  "\<exists>ss' w' tp. create_tunnel_ports quiet_env ''br0'' ''gre'' ''non-flow'' ''flow'' ([sut_a, sut_a], world0)
       = (Inr (), (ss', w'))
     \<and> tnls ''br0'' (ss' ! 1) = [tp] \<and> tp_rip tp = PStr (ip_str (ia_ipv4 tep0)) \<and> tp_vni tp = PStr ''flow''"
proof -
  let ?rip = "PStr (ip_str (ia_ipv4 tep0))"
  define s' where "s' = sut_a\<lparr>su_vswitch := upd_bridge 0 (add_tunnel rest_ids (new_tunnel ''gre'' ?rip (PStr ''flow'') 100)) switch1\<rparr>"
  obtain w1 where 1: "new_port quiet_env 0 ''br0'' ''gre'' ?rip (PStr ''flow'') ([sut_a, sut_a], world0)
      = (Inr (), ([s', sut_a], w1))"
    using sut_a_port [of "[sut_a, sut_a]" 0 "''gre''" ?rip "PStr ''flow''" world0] by (auto simp: s'_def)
  obtain w2 where 2: "new_port quiet_env 1 ''br0'' ''gre'' ?rip (PStr ''flow'') ([s', sut_a], w1)
      = (Inr (), ([s', s'], w2))"
    using sut_a_port [of "[s', sut_a]" 1 "''gre''" ?rip "PStr ''flow''" w1] by (auto simp: s'_def)
  have tep: "vs_tep_addr (su_vswitch sut_a) = tep0" "vs_tep_addr (su_vswitch s') = tep0"
    by (simp_all add: s'_def sut_a_def switch1_def switch0_def)
  have run: "create_tunnel_ports quiet_env ''br0'' ''gre'' ''non-flow'' ''flow'' ([sut_a, sut_a], world0)
      = (Inr (), ([s', s'], w2))"
    using 1 2 tep by (simp add: create_tunnel_ports_def em_simps getbr_def other_suts_def ports_for_def)
  from deployment_ports [OF run, of 1] tep have "\<exists>tp. tnls ''br0'' s' = tnls ''br0'' sut_a @ [tp]
      \<and> tp_rip tp = ?rip \<and> tp_vni tp = PStr ''flow''"
    by (auto simp: rips_def port_vnis_def other_suts_def)
  moreover have "tnls ''br0'' sut_a = []"
    by (simp add: tnls_def sut_a_def switch1_bridge) (simp add: switch1_def Bridge_def)
  ultimately show ?thesis using run by auto
qed

text \<open>
  C28 Undeployment loops over the list it removes ports from: on every system it leaves every second
  tunnel port of the bridge in place.
\<close>

theorem undeployment_leaves_ports:
  assumes "delete_tunnel_ports env name (ss, w) = (Inr (), (ss', w'))" "k < length ss"
    and "distinct (tnls name (ss ! k))"
  shows "tnls name (ss' ! k) = every_second (tnls name (ss ! k))"
proof -
  let ?R = "\<lambda>k s s'. distinct (tnls name s) \<longrightarrow> tnls name s' = every_second (tnls name s)"
  have "length ss' = length ss \<and> (\<forall>k < length ss. ?R k (ss ! k) (ss' ! k))"
  proof (rule for_suts_each [where Q = "\<lambda>_. True", OF assms(1) [unfolded delete_tunnel_ports_def] TrueI])
    fix k zs w x zs' w'
    assume k: "k < length zs"
      and run: "bindE (bindE (getbr k name) (\<lambda>bo. liftE (attr_of bo))) (\<lambda>i.
       bindE (getE (\<lambda>(ss, w). length (br_tnl_ports (the_bridge ss k i)))) (\<lambda>n.
       live_tunnels env k i name 0 n)) (zs, w) = (Inr x, (zs', w'))"
    then obtain i where i: "get_bridge (su_vswitch (zs ! k)) name = Some i"
      and "live_tunnels env k i name 0 (length (br_tnl_ports (the_bridge zs k i))) (zs, w) = (Inr x, (zs', w'))"
      by (auto simp: returns getbr_def bridge_of_def attr_of_def split: option.splits)
    then have run': "live_tunnels env k i name (length ([] :: tunnel_port list))
        (length (tnls name (zs ! k))) (zs, w) = (Inr x, (zs', w'))"
      by (simp add: tnls_def the_bridge_def)
    have loc: "\<exists>s'. zs' = zs[k := s']" 
      using live_frame [OF run' k] .
    show "True \<and> (\<exists>s'. zs' = zs[k := s'] \<and> ?R k (zs ! k) s')"
    proof (cases "distinct (tnls name (zs ! k))")
      case True
      with live_tunnels_every_second [OF run' k i, of "tnls name (zs ! k)"] i show ?thesis
        by (auto simp: tnls_def)
    next
      case False
      with loc show ?thesis by auto
    qed
  qed
  with assms show ?thesis by simp
qed

theorem undeployment_leaves_ports_witness:
  "\<exists>ss' w'. delete_tunnel_ports quiet_env ''br0'' ([sut_t], world0) = (Inr (), (ss', w'))
     \<and> tnls ''br0'' (ss' ! 0) = [tunnel0\<lparr>tp_ofp := 101\<rparr>]"
proof -
  obtain ss' w' where run: "delete_tunnel_ports quiet_env ''br0'' ([sut_t], world0) = (Inr (), (ss', w'))"
    using sut_t_undeploys by blast
  have t: "tnls ''br0'' ([sut_t] ! 0) = [tunnel0, tunnel0\<lparr>tp_ofp := 101\<rparr>]"
    by (simp add: tnls_def switch_t_bridge)
  then have "distinct (tnls ''br0'' ([sut_t] ! 0))"
    by (simp add: tunnel0_def new_tunnel_def)
  from undeployment_leaves_ports [OF run _ this] t run show ?thesis by simp
qed

end
