(* ===== verification/Verify_Topology.thy ===== *)
theory Verify_Topology imports Overlay_Props begin

text \<open>
  The verification topologies of \<open>pal.py\<close>: endpoints, entries and topologies, how a topology is found
  on the testbed, and how tests derive one from another.  An endpoint names its system by its position
  in \<open>suts\<close>, its machine by its position in \<open>get_vms()\<close> of that system, and its interface by its
  place in the store, so that equality of endpoints is the identity of the objects.
\<close>

section \<open>Endpoints, entries, criteria\<close>

datatype locality = UNDEF | NUMA | XNUMA | XHOST

record topology_criteria =
  sepc_pnic_loc :: locality
  depc_pnic_loc :: locality
  locc :: locality

definition TopologyCriteria :: topology_criteria where
  "TopologyCriteria = \<lparr>sepc_pnic_loc = UNDEF, depc_pnic_loc = UNDEF, locc = UNDEF\<rparr>"

record endpoint =
  ep_host :: nat
  ep_guest :: nat
  ep_vif :: nat

record vt_entry =
  vte_sep :: endpoint
  dep_numa :: "endpoint list"
  dep_xnuma :: "endpoint list"
  dep_xhost :: "endpoint list"

definition VerifyTopologyEntry :: "endpoint \<Rightarrow> vt_entry" where
  "VerifyTopologyEntry sep = \<lparr>vte_sep = sep, dep_numa = [], dep_xnuma = [], dep_xhost = []\<rparr>"

record verify_topology =
  vt_allow :: "vt_entry list"
  vt_deny :: "vt_entry list"

definition VerifyTopology :: verify_topology where
  "VerifyTopology = \<lparr>vt_allow = [], vt_deny = []\<rparr>"

definition ep_sut :: "sut list \<Rightarrow> endpoint \<Rightarrow> sut" where
  "ep_sut ss ep = ss ! ep_host ep"

definition ep_vm :: "sut list \<Rightarrow> endpoint \<Rightarrow> vm" where
  "ep_vm ss ep = get_vms (ss ! ep_host ep) ! ep_guest ep"

text \<open>At most one destination for each locality, and all of them.\<close>

definition get_deps :: "vt_entry \<Rightarrow> endpoint list" where
  "get_deps e = take 1 (dep_numa e) @ take 1 (dep_xnuma e) @ take 1 (dep_xhost e)"

definition get_full_deps :: "vt_entry \<Rightarrow> endpoint list" where
  "get_full_deps e = dep_numa e @ dep_xnuma e @ dep_xhost e"

text \<open>\<open>_get_vte\<close> and the update of the entry it returns, which the list holds by reference.\<close>

fun get_vte :: "endpoint \<Rightarrow> (vt_entry \<Rightarrow> vt_entry) \<Rightarrow> vt_entry list \<Rightarrow> vt_entry list" where
  "get_vte sep f [] = [f (VerifyTopologyEntry sep)]"
| "get_vte sep f (e # es) = (if sep = vte_sep e then f e # es else e # get_vte sep f es)"

section \<open>Finding a topology\<close>

text \<open>
  The condition on the NIC's locality reads \<open>sut.pnic.numa_id\<close>, but the class \<open>SUT\<close> has no attribute
  \<open>pnic\<close>: with the criterion \<open>NUMA\<close> or \<open>XNUMA\<close> its evaluation raises, otherwise it is false.
\<close>

definition pnic_skip :: "locality \<Rightarrow> bool res" where
  "pnic_skip loc = (if loc = NUMA \<or> loc = XNUMA then Inl AttributeError else Inr False)"

text \<open>The first machine the loop does not skip, with its first interface.\<close>

fun source_ep :: "topology_criteria \<Rightarrow> nat \<Rightarrow> vm list \<Rightarrow> endpoint option res" where
  "source_ep tc g [] = Inr None"
| "source_ep tc g (m # ms) =
     bindR (pnic_skip (sepc_pnic_loc tc)) (\<lambda>skip.
     if skip then source_ep tc (Suc g) ms
     else case vm_vifs m of
       [] \<Rightarrow> Inl IndexError
     | v # _ \<Rightarrow> Inr (Some \<lparr>ep_host = 0, ep_guest = g, ep_vif = v\<rparr>))"

definition add_dep :: "sut list \<Rightarrow> endpoint \<Rightarrow> endpoint \<Rightarrow> vt_entry \<Rightarrow> vt_entry" where
  "add_dep ss sep dep e =
     (if ep_host sep \<noteq> ep_host dep then e\<lparr>dep_xhost := dep_xhost e @ [dep]\<rparr>
      else if vm_numa_id (ep_vm ss sep) \<noteq> vm_numa_id (ep_vm ss dep) then e\<lparr>dep_xnuma := dep_xnuma e @ [dep]\<rparr>
      else e\<lparr>dep_numa := dep_numa e @ [dep]\<rparr>)"

text \<open>One interface of a destination machine.\<close>

definition consider_vif ::
  "sut list \<Rightarrow> (nat \<Rightarrow> vif) \<Rightarrow> endpoint \<Rightarrow> endpoint \<Rightarrow> verify_topology \<Rightarrow> verify_topology res" where
  "consider_vif ss store sep dep vt =
     (if dep = sep then Inr vt
      else bindR (has_same_subnet (store (ep_vif dep)) (store (ep_vif sep))) (\<lambda>same.
        if \<not> same then Inr vt
        else if vif_vni (store (ep_vif dep)) = vif_vni (store (ep_vif sep))
        then Inr (vt\<lparr>vt_allow := get_vte sep (add_dep ss sep dep) (vt_allow vt)\<rparr>)
        else Inr (vt\<lparr>vt_deny := get_vte sep (add_dep ss sep dep) (vt_deny vt)\<rparr>)))"

primrec foldR :: "('a \<Rightarrow> 'b \<Rightarrow> 'b res) \<Rightarrow> 'a list \<Rightarrow> 'b \<Rightarrow> 'b res" where
  "foldR f [] y = Inr y"
| "foldR f (x # xs) y = bindR (f x y) (foldR f xs)"

definition consider_vm ::
  "sut list \<Rightarrow> (nat \<Rightarrow> vif) \<Rightarrow> topology_criteria \<Rightarrow> endpoint \<Rightarrow> nat \<Rightarrow> nat \<Rightarrow> verify_topology \<Rightarrow> verify_topology res" where
  "consider_vm ss store tc sep h g vt =
     (let m = get_vms (ss ! h) ! g; id_sep = vm_numa_id (ep_vm ss sep) in
      if (locc tc = NUMA \<and> vm_numa_id m \<noteq> id_sep) \<or> (locc tc = XNUMA \<and> vm_numa_id m = id_sep) then Inr vt
      else bindR (pnic_skip (depc_pnic_loc tc)) (\<lambda>skip.
        if skip then Inr vt
        else foldR (\<lambda>v. consider_vif ss store sep \<lparr>ep_host = h, ep_guest = g, ep_vif = v\<rparr>) (vm_vifs m) vt))"

definition consider_sut ::
  "sut list \<Rightarrow> (nat \<Rightarrow> vif) \<Rightarrow> topology_criteria \<Rightarrow> endpoint \<Rightarrow> nat \<Rightarrow> verify_topology \<Rightarrow> verify_topology res" where
  "consider_sut ss store tc sep h vt =
     (if (locc tc = XHOST \<and> h = ep_host sep) \<or> ((locc tc = NUMA \<or> locc tc = XNUMA) \<and> h \<noteq> ep_host sep) then Inr vt
      else foldR (consider_vm ss store tc sep h) [0..<length (get_vms (ss ! h))] vt)"

definition verify_topology_get ::
  "sut list \<Rightarrow> (nat \<Rightarrow> vif) \<Rightarrow> topology_criteria \<Rightarrow> verify_topology res" where
  "verify_topology_get ss store tc =
     (if ss = [] then Inl IndexError
      else bindR (source_ep tc 0 (get_vms (ss ! 0))) (\<lambda>so.
        case so of
          None \<Rightarrow> Inl (RuntimeError ''No valid source endpoint is found.'')
        | Some sep \<Rightarrow> foldR (consider_sut ss store tc sep) [0..<length ss] VerifyTopology))"

section \<open>Deriving topologies\<close>

definition verify_topology_allow_originate :: "verify_topology \<Rightarrow> (endpoint \<times> verify_topology) res" where
  "verify_topology_allow_originate vt =
     (case vt_allow vt of
        [] \<Rightarrow> Inl (RuntimeError ''No allowed entry is found.'')
      | e # _ \<Rightarrow>
          let sep = vte_sep e in
          Inr (sep, \<lparr>vt_allow = [e],
            vt_deny = map (\<lambda>d. (VerifyTopologyEntry d)\<lparr>dep_numa := [sep]\<rparr>) (dep_numa e)
                    @ map (\<lambda>d. (VerifyTopologyEntry d)\<lparr>dep_xnuma := [sep]\<rparr>) (dep_xnuma e)
                    @ map (\<lambda>d. (VerifyTopologyEntry d)\<lparr>dep_xhost := [sep]\<rparr>) (dep_xhost e)\<rparr>))"

text \<open>The messages are not f-strings in the code: they say \<open>{loc}\<close> literally.\<close>

definition verify_topology_select_pair :: "verify_topology \<Rightarrow> string \<Rightarrow> verify_topology res" where
  "verify_topology_select_pair vt loc =
     (case vt_allow vt of
        [] \<Rightarrow> Inl (RuntimeError ''No allowed entry is found.'')
      | e # _ \<Rightarrow>
          let new = VerifyTopologyEntry (vte_sep e);
              none = Inl (RuntimeError ''No {loc} pair is found.'')
          in bindR
               (if loc = ''NUMA'' then
                  (if dep_numa e = [] then none else Inr (new\<lparr>dep_numa := [dep_numa e ! 0]\<rparr>))
                else if loc = ''XNUMA'' then
                  (if dep_xnuma e = [] then none else Inr (new\<lparr>dep_xnuma := [dep_xnuma e ! 0]\<rparr>))
                else if loc = ''XHOST'' then
                  (if dep_xhost e = [] then none else Inr (new\<lparr>dep_xhost := [dep_xhost e ! 0]\<rparr>))
                else Inl (RuntimeError ''{loc} pair is not supported.''))
               (\<lambda>new. Inr \<lparr>vt_allow = [new], vt_deny = []\<rparr>))"

definition verify_topology_change_allow_to_deny :: "verify_topology \<Rightarrow> verify_topology res" where
  "verify_topology_change_allow_to_deny vt =
     (if vt_allow vt = [] then Inl (RuntimeError ''No allowed entry is found.'')
      else Inr (vt\<lparr>vt_deny := vt_allow vt, vt_allow := []\<rparr>))"

definition verify_topology_change_deny_to_allow :: "verify_topology \<Rightarrow> verify_topology res" where
  "verify_topology_change_deny_to_allow vt =
     (if vt_deny vt = [] then Inl (RuntimeError ''No denied entry is found.'')
      else Inr (vt\<lparr>vt_allow := vt_deny vt, vt_deny := []\<rparr>))"

end
