(* ===== verification/Topology_Pairs.thy ===== *)
theory Topology_Pairs imports Verify_Topology begin

text \<open>
  What a verification topology says: the set of pairs of endpoints it lists, with their locality, and
  that \<open>verify_topology_get\<close> lists exactly the pairs it should.
\<close>

section \<open>The pairs of a topology\<close>

definition triples :: "vt_entry \<Rightarrow> (endpoint \<times> locality \<times> endpoint) list" where
  "triples e = map (\<lambda>d. (vte_sep e, NUMA, d)) (dep_numa e) @ map (\<lambda>d. (vte_sep e, XNUMA, d)) (dep_xnuma e)
     @ map (\<lambda>d. (vte_sep e, XHOST, d)) (dep_xhost e)"

definition pairs :: "vt_entry list \<Rightarrow> (endpoint \<times> locality \<times> endpoint) set" where
  "pairs es = set (concat (map triples es))"

definition loc_of :: "sut list \<Rightarrow> endpoint \<Rightarrow> endpoint \<Rightarrow> locality" where
  "loc_of ss a b = (if ep_host a \<noteq> ep_host b then XHOST
     else if vm_numa_id (ep_vm ss a) \<noteq> vm_numa_id (ep_vm ss b) then XNUMA else NUMA)"

definition same_subnet :: "(nat \<Rightarrow> vif) \<Rightarrow> endpoint \<Rightarrow> endpoint \<Rightarrow> bool" where
  "same_subnet store a b \<longleftrightarrow> has_same_subnet (store (ep_vif a)) (store (ep_vif b)) = Inr True"

definition same_vni :: "(nat \<Rightarrow> vif) \<Rightarrow> endpoint \<Rightarrow> endpoint \<Rightarrow> bool" where
  "same_vni store a b \<longleftrightarrow> vif_vni (store (ep_vif a)) = vif_vni (store (ep_vif b))"

text \<open>The endpoints the criteria admit as destinations of a source.\<close>

definition endpoints :: "sut list \<Rightarrow> endpoint set" where
  "endpoints ss = {d. ep_host d < length ss \<and> ep_guest d < length (get_vms (ss ! ep_host d))
     \<and> ep_vif d \<in> set (vm_vifs (ep_vm ss d))}"

definition candidates :: "sut list \<Rightarrow> topology_criteria \<Rightarrow> endpoint \<Rightarrow> endpoint set" where
  "candidates ss tc sep = {d \<in> endpoints ss. locc tc = UNDEF \<or> loc_of ss sep d = locc tc}"

definition hits :: "sut list \<Rightarrow> (nat \<Rightarrow> vif) \<Rightarrow> endpoint \<Rightarrow> bool \<Rightarrow> endpoint set
    \<Rightarrow> (endpoint \<times> locality \<times> endpoint) set" where
  "hits ss store sep b A = (\<lambda>d. (sep, loc_of ss sep d, d)) `
     {d \<in> A. d \<noteq> sep \<and> same_subnet store d sep \<and> same_vni store d sep = b}"

lemma pairs_simps [simp]: "pairs [] = {}" "pairs (e # es) = set (triples e) \<union> pairs es"
  by (simp_all add: pairs_def)

lemma triples_blank: "triples (VerifyTopologyEntry sep) = []"
  by (simp add: triples_def VerifyTopologyEntry_def)

lemma triples_add_dep:
  "vte_sep e = sep \<Longrightarrow> set (triples (add_dep ss sep d e)) = insert (sep, loc_of ss sep d, d) (set (triples e))"
  by (auto simp: triples_def add_dep_def loc_of_def)

lemma pairs_get_vte:
  "pairs (get_vte sep (add_dep ss sep d) es) = insert (sep, loc_of ss sep d, d) (pairs es)"
proof (induction es)
  case Nil
  have "vte_sep (VerifyTopologyEntry sep) = sep" by (simp add: VerifyTopologyEntry_def)
  then show ?case by (simp add: triples_add_dep triples_blank)
qed (auto simp: triples_add_dep)

lemma hits_simps [simp]:
  "hits ss store sep b {} = {}" "hits ss store sep b (A \<union> B) = hits ss store sep b A \<union> hits ss store sep b B"
  by (auto simp: hits_def)

lemma hits_UN: "hits ss store sep b (\<Union>x \<in> X. A x) = (\<Union>x \<in> X. hits ss store sep b (A x))"
  by (auto simp: hits_def)

section \<open>The search adds exactly the pairs it should\<close>

definition adds :: "sut list \<Rightarrow> (nat \<Rightarrow> vif) \<Rightarrow> endpoint \<Rightarrow> endpoint set \<Rightarrow> verify_topology \<Rightarrow> verify_topology \<Rightarrow> bool" where
  "adds ss store sep A vt vt' \<longleftrightarrow>
     pairs (vt_allow vt') = pairs (vt_allow vt) \<union> hits ss store sep True A
   \<and> pairs (vt_deny vt') = pairs (vt_deny vt) \<union> hits ss store sep False A"

lemma adds_none: "adds ss store sep {} vt vt"
  by (simp add: adds_def)

lemma adds_foldR:
  assumes "foldR f xs vt = Inr vt'"
    and "\<And>x vt vt'. x \<in> set xs \<Longrightarrow> f x vt = Inr vt' \<Longrightarrow> adds ss store sep (A x) vt vt'"
  shows "adds ss store sep (\<Union>x \<in> set xs. A x) vt vt'"
  using assms
proof (induction xs arbitrary: vt)
  case Nil
  then show ?case by (simp add: adds_none)
next
  case (Cons x xs)
  from Cons.prems(1) obtain vt1 where 1: "f x vt = Inr vt1" "foldR f xs vt1 = Inr vt'"
    by (auto simp: bindR_Inr_iff)
  from Cons.IH [OF 1(2) Cons.prems(2)] Cons.prems(2) [OF _ 1(1)] show ?case
    by (simp add: adds_def Un_assoc Un_left_commute)
qed

lemma consider_vif_adds:
  assumes "consider_vif ss store sep d vt = Inr vt'"
  shows "adds ss store sep {d} vt vt'"
proof (cases "d \<noteq> sep \<and> same_subnet store d sep")
  case False
  then have "hits ss store sep b {d} = {}" for b by (auto simp: hits_def)
  moreover have "vt' = vt"
    using assms False by (auto simp: consider_vif_def bindR_Inr_iff same_subnet_def split: if_splits)
  ultimately show ?thesis by (simp add: adds_def)
next
  case True
  then have "hits ss store sep b {d} = (if same_vni store d sep = b then {(sep, loc_of ss sep d, d)} else {})" for b
    by (auto simp: hits_def)
  moreover have "vt' = (if same_vni store d sep
      then vt\<lparr>vt_allow := get_vte sep (add_dep ss sep d) (vt_allow vt)\<rparr>
      else vt\<lparr>vt_deny := get_vte sep (add_dep ss sep d) (vt_deny vt)\<rparr>)"
    using assms True by (auto simp: consider_vif_def same_subnet_def same_vni_def split: if_splits)
  ultimately show ?thesis by (simp add: adds_def pairs_get_vte)
qed

lemma consider_vm_adds:
  assumes "consider_vm ss store tc sep h g vt = Inr vt'"
    and "h < length ss" "g < length (get_vms (ss ! h))"
    and "locc tc = NUMA \<or> locc tc = XNUMA \<longrightarrow> h = ep_host sep" "locc tc = XHOST \<longrightarrow> h \<noteq> ep_host sep"
  shows "adds ss store sep {d \<in> candidates ss tc sep. ep_host d = h \<and> ep_guest d = g} vt vt'"
proof -
  let ?m = "get_vms (ss ! h) ! g"
  let ?id = "vm_numa_id (ep_vm ss sep)"
  let ?C = "{d \<in> candidates ss tc sep. ep_host d = h \<and> ep_guest d = g}"
  let ?skip = "(locc tc = NUMA \<and> vm_numa_id ?m \<noteq> ?id) \<or> (locc tc = XNUMA \<and> vm_numa_id ?m = ?id)"
  have at: "ep_vm ss d = ?m" if "ep_host d = h" "ep_guest d = g" for d
    using that by (simp add: ep_vm_def)
  show ?thesis
  proof (cases ?skip)
    case True
    then have "?C = {}" using assms(4) at by (auto simp: candidates_def loc_of_def split: if_splits)
    moreover have "vt' = vt" using assms(1) True by (simp add: consider_vm_def Let_def)
    ultimately show ?thesis unfolding \<open>?C = {}\<close> by (simp add: adds_none)
  next
    case False
    then have loc: "locc tc = UNDEF \<or> loc_of ss sep d = locc tc" if "ep_host d = h" "ep_guest d = g" for d
      using assms(4, 5) at [OF that] that by (cases "locc tc") (auto simp: loc_of_def)
    have C: "?C = (\<Union>v \<in> set (vm_vifs ?m). {\<lparr>ep_host = h, ep_guest = g, ep_vif = v\<rparr>})"
    proof -
      have mem: "d \<in> candidates ss tc sep \<longleftrightarrow> ep_vif d \<in> set (vm_vifs ?m)" if "ep_host d = h" "ep_guest d = g" for d
        using loc [OF that] at [OF that] that assms(2, 3) by (auto simp: candidates_def endpoints_def)
      then have C1: "?C = {d. ep_host d = h \<and> ep_guest d = g \<and> ep_vif d \<in> set (vm_vifs ?m)}" by blast
      have eta: "ep_host d = h \<and> ep_guest d = g \<longleftrightarrow> d = \<lparr>ep_host = h, ep_guest = g, ep_vif = ep_vif d\<rparr>" for d
        by (cases d) simp
      show ?thesis
      proof (rule set_eqI)
        fix d
        show "d \<in> ?C \<longleftrightarrow> d \<in> (\<Union>v \<in> set (vm_vifs ?m). {\<lparr>ep_host = h, ep_guest = g, ep_vif = v\<rparr>})"
          unfolding C1 using eta [of d] by (cases d) simp
      qed
    qed
    have "foldR (\<lambda>v. consider_vif ss store sep \<lparr>ep_host = h, ep_guest = g, ep_vif = v\<rparr>) (vm_vifs ?m) vt
        = Inr vt'"
      using assms(1) False by (auto simp: consider_vm_def Let_def bindR_Inr_iff pnic_skip_def split: if_splits)
    from adds_foldR [OF this, of ss store sep "\<lambda>v. {\<lparr>ep_host = h, ep_guest = g, ep_vif = v\<rparr>}"] consider_vif_adds
    show ?thesis unfolding C by auto
  qed
qed

lemma consider_sut_adds:
  assumes "consider_sut ss store tc sep h vt = Inr vt'" "h < length ss"
  shows "adds ss store sep {d \<in> candidates ss tc sep. ep_host d = h} vt vt'"
proof -
  let ?skip = "(locc tc = XHOST \<and> h = ep_host sep) \<or> ((locc tc = NUMA \<or> locc tc = XNUMA) \<and> h \<noteq> ep_host sep)"
  show ?thesis
  proof (cases ?skip)
    case True
    then have none: "{d \<in> candidates ss tc sep. ep_host d = h} = {}"
    proof -
      have "loc_of ss sep d \<noteq> locc tc \<and> locc tc \<noteq> UNDEF" if "ep_host d = h" for d
        using True that by (cases "locc tc") (simp_all add: loc_of_def)
      then show ?thesis unfolding candidates_def by blast
    qed
    have "vt' = vt" using assms(1) unfolding consider_sut_def if_P [OF True] by simp
    then show ?thesis unfolding none by (simp add: adds_none)
  next
    case False
    have run: "foldR (consider_vm ss store tc sep h) [0..<length (get_vms (ss ! h))] vt = Inr vt'"
      using assms(1) unfolding consider_sut_def if_not_P [OF False] .
    have "adds ss store sep (\<Union>g \<in> set [0..<length (get_vms (ss ! h))].
        {d \<in> candidates ss tc sep. ep_host d = h \<and> ep_guest d = g}) vt vt'"
      using False assms(2) by (intro adds_foldR [OF run] consider_vm_adds) auto
    moreover have "(\<Union>g \<in> set [0..<length (get_vms (ss ! h))].
        {d \<in> candidates ss tc sep. ep_host d = h \<and> ep_guest d = g}) = {d \<in> candidates ss tc sep. ep_host d = h}"
      by (auto simp: candidates_def endpoints_def)
    ultimately show ?thesis by simp
  qed
qed

lemma source_ep_first:
  "source_ep tc g ms = Inr (Some sep) \<Longrightarrow> \<exists>m ms' v vs. ms = m # ms' \<and> vm_vifs m = v # vs
     \<and> sep = \<lparr>ep_host = 0, ep_guest = g, ep_vif = v\<rparr>"
  by (cases ms) (auto simp: bindR_Inr_iff pnic_skip_def split: if_splits list.splits)

section \<open>A testbed of two systems\<close>

definition vif_t :: "nat \<Rightarrow> vif" where
  "vif_t i = (vif_no i)\<lparr>vif_addr := Some tep0\<rparr>"

definition suts_t :: "sut list" where
  "suts_t = map (\<lambda>rs. sut_a\<lparr>su_numas := [\<lparr>nu_id = 0, nu_avail_cpus = [], nu_avail_mem = 0, nu_vms = [vm_v rs]\<rparr>]\<rparr>)
     [[0, 2], [1]]"

definition ep_t :: "nat \<Rightarrow> nat \<Rightarrow> endpoint" where
  "ep_t h v = \<lparr>ep_host = h, ep_guest = 0, ep_vif = v\<rparr>"

definition vt_t :: verify_topology where
  "vt_t = \<lparr>vt_allow = [(VerifyTopologyEntry (ep_t 0 0))\<lparr>dep_xhost := [ep_t 1 1]\<rparr>],
     vt_deny = [(VerifyTopologyEntry (ep_t 0 0))\<lparr>dep_numa := [ep_t 0 2]\<rparr>]\<rparr>"

lemma suts_t_simps:
  "length suts_t = 2" "get_vms (suts_t ! 0) = [vm_v [0, 2]]" "get_vms (suts_t ! Suc 0) = [vm_v [1]]" "suts_t \<noteq> []"
  by (simp_all add: suts_t_def get_vms_def)

lemma vif_t_subnet: "has_same_subnet (vif_t i) (vif_t j) = Inr True"
  by (simp add: has_same_subnet_iff vif_t_def)

lemma vif_t_vni: "vif_vni (vif_t i) = (if i < 2 then PInt 200 else PInt 201)"
  by (simp add: vif_t_def vif_no_def)

lemma vm_v_simps: "vm_vifs (vm_v rs) = rs" "vm_numa_id (vm_v rs) = 0"
  by (simp_all add: vm_v_def)

lemma topology_t: "verify_topology_get suts_t vif_t TopologyCriteria = Inr vt_t"
  by (simp add: verify_topology_get_def suts_t_simps vm_v_simps pnic_skip_def TopologyCriteria_def consider_sut_def
      consider_vm_def ep_vm_def consider_vif_def vif_t_subnet vif_t_vni VerifyTopology_def add_dep_def ep_t_def
      VerifyTopologyEntry_def vt_t_def Let_def eval_nat_numeral)

section \<open>The pairs that are found\<close>

lemma topology_pairs:
  assumes "verify_topology_get ss store tc = Inr vt"
  defines "sep \<equiv> \<lparr>ep_host = 0, ep_guest = 0, ep_vif = hd (vm_vifs (hd (get_vms (hd ss))))\<rparr>"
  shows "pairs (vt_allow vt) = hits ss store sep True (candidates ss tc sep)"
    and "pairs (vt_deny vt) = hits ss store sep False (candidates ss tc sep)"
proof -
  from assms(1) have ss: "ss \<noteq> []" by (auto simp: verify_topology_get_def)
  with assms(1) obtain so where so: "source_ep tc 0 (get_vms (ss ! 0)) = Inr (Some so)"
    and run: "foldR (consider_sut ss store tc so) [0..<length ss] VerifyTopology = Inr vt"
    by (auto simp: verify_topology_get_def bindR_Inr_iff split: option.splits)
  have "so = sep" using source_ep_first [OF so] ss by (auto simp: hd_conv_nth sep_def)
  have "adds ss store so (\<Union>h \<in> set [0..<length ss]. {d \<in> candidates ss tc so. ep_host d = h}) VerifyTopology vt"
    using adds_foldR [OF run, of ss store so "\<lambda>h. {d \<in> candidates ss tc so. ep_host d = h}"] consider_sut_adds
    by auto
  moreover have "(\<Union>h \<in> set [0..<length ss]. {d \<in> candidates ss tc so. ep_host d = h}) = candidates ss tc so"
    by (auto simp: candidates_def endpoints_def)
  ultimately show "pairs (vt_allow vt) = hits ss store sep True (candidates ss tc sep)"
    "pairs (vt_deny vt) = hits ss store sep False (candidates ss tc sep)"
    using \<open>so = sep\<close> by (auto simp: adds_def VerifyTopology_def)
qed

section \<open>Properties\<close>

text \<open>
  C10 When \<open>verify_topology_get\<close> returns, the source is the first interface of the first machine of the
  first system, the allow entries list exactly the other endpoints that meet the criterion, share its
  subnet and share its VNI, the deny entries exactly those with another VNI, and every endpoint is
  listed under its true locality.
\<close>

theorem topology_exact:
  assumes "verify_topology_get ss store tc = Inr vt"
  shows "\<exists>sep. sep = \<lparr>ep_host = 0, ep_guest = 0, ep_vif = hd (vm_vifs (hd (get_vms (hd ss))))\<rparr>
     \<and> pairs (vt_allow vt) = hits ss store sep True (candidates ss tc sep)
     \<and> pairs (vt_deny vt) = hits ss store sep False (candidates ss tc sep)"
  using topology_pairs [OF assms] by blast

theorem topology_exact_witness:
  "verify_topology_get suts_t vif_t TopologyCriteria = Inr vt_t
   \<and> (ep_t 0 0, XHOST, ep_t 1 1) \<in> hits suts_t vif_t (ep_t 0 0) True (candidates suts_t TopologyCriteria (ep_t 0 0))"
proof -
  have "\<lparr>ep_host = 0, ep_guest = 0, ep_vif = hd (vm_vifs (hd (get_vms (hd suts_t))))\<rparr> = ep_t 0 0"
    by (simp add: suts_t_def get_vms_def vm_v_simps ep_t_def)
  with topology_exact [OF topology_t]
  have "pairs (vt_allow vt_t) = hits suts_t vif_t (ep_t 0 0) True (candidates suts_t TopologyCriteria (ep_t 0 0))"
    by auto
  moreover have "(ep_t 0 0, XHOST, ep_t 1 1) \<in> pairs (vt_allow vt_t)"
    by (simp add: vt_t_def triples_def VerifyTopologyEntry_def)
  ultimately show ?thesis using topology_t by simp
qed

text \<open>
  C12 \<open>verify_topology_allow_originate\<close> allows what the first entry allows and denies exactly the reverse
  of each of its pairs: every destination as a source towards the old source, with the same locality.
\<close>

theorem originate_reverses:
  assumes "verify_topology_allow_originate vt = Inr (sep, vt')"
  shows "vt_allow vt' = [hd (vt_allow vt)] \<and> sep = vte_sep (hd (vt_allow vt))
     \<and> pairs (vt_deny vt') = {(d, l, s). (s, l, d) \<in> pairs (vt_allow vt')}"
proof -
  from assms obtain e es where e: "vt_allow vt = e # es" "sep = vte_sep e" "vt_allow vt' = [e]"
    "vt_deny vt' = map (\<lambda>d. (VerifyTopologyEntry d)\<lparr>dep_numa := [sep]\<rparr>) (dep_numa e)
                    @ map (\<lambda>d. (VerifyTopologyEntry d)\<lparr>dep_xnuma := [sep]\<rparr>) (dep_xnuma e)
                    @ map (\<lambda>d. (VerifyTopologyEntry d)\<lparr>dep_xhost := [sep]\<rparr>) (dep_xhost e)"
    by (auto simp: verify_topology_allow_originate_def Let_def split: list.splits)
  have "pairs (vt_deny vt') = {(d, l, s). (s, l, d) \<in> set (triples e)}"
    unfolding e(4) pairs_def by (auto simp: triples_def VerifyTopologyEntry_def e(2))
  with e show ?thesis by simp
qed

theorem originate_reverses_witness:
  "\<exists>vt'. verify_topology_allow_originate vt_t = Inr (ep_t 0 0, vt') \<and> (ep_t 1 1, XHOST, ep_t 0 0) \<in> pairs (vt_deny vt')"
proof -
  obtain vt' where run: "verify_topology_allow_originate vt_t = Inr (ep_t 0 0, vt')"
    by (simp add: verify_topology_allow_originate_def vt_t_def Let_def VerifyTopologyEntry_def)
  from originate_reverses [OF run] have "(ep_t 1 1, XHOST, ep_t 0 0) \<in> pairs (vt_deny vt')"
    by (simp add: vt_t_def triples_def VerifyTopologyEntry_def)
  with run show ?thesis by blast
qed

text \<open>
  \<open>verify_topology_select_pair\<close> keeps one single pair, the first one of the first allowed entry at the
  requested locality, and denies nothing.
\<close>

theorem select_pair_single:
  assumes "verify_topology_select_pair vt loc = Inr vt'"
  shows "\<exists>l d. (loc, l) \<in> {(''NUMA'', NUMA), (''XNUMA'', XNUMA), (''XHOST'', XHOST)}
     \<and> pairs (vt_allow vt') = {(vte_sep (hd (vt_allow vt)), l, d)}
     \<and> (vte_sep (hd (vt_allow vt)), l, d) \<in> pairs [hd (vt_allow vt)]
     \<and> concat (map get_deps (vt_allow vt')) = [d] \<and> vt_deny vt' = []"
  using assms
  by (auto simp: verify_topology_select_pair_def Let_def bindR_Inr_iff triples_def get_deps_def VerifyTopologyEntry_def
      split: list.splits if_splits)

theorem select_pair_single_witness:
  "\<exists>vt'. verify_topology_select_pair vt_t ''XHOST'' = Inr vt' \<and> concat (map get_deps (vt_allow vt')) = [ep_t 1 1]"
proof -
  obtain vt' where run: "verify_topology_select_pair vt_t ''XHOST'' = Inr vt'"
    by (simp add: verify_topology_select_pair_def vt_t_def Let_def VerifyTopologyEntry_def)
  from select_pair_single [OF run] have "concat (map get_deps (vt_allow vt')) = [ep_t 1 1]"
    by (auto simp: vt_t_def triples_def VerifyTopologyEntry_def)
  with run show ?thesis by blast
qed

text \<open>
  A criterion on the locality of the NIC never selects anything: with a machine to look at, the
  search ends in \<open>AttributeError\<close>, because systems have no attribute \<open>pnic\<close>.
\<close>

theorem pnic_criterion_fails:
  assumes "ss \<noteq> []" "get_vms (hd ss) \<noteq> []" "sepc_pnic_loc tc \<in> {NUMA, XNUMA}"
  shows "verify_topology_get ss store tc = Inl AttributeError"
  using assms by (cases "get_vms (ss ! 0)")
    (auto simp: verify_topology_get_def pnic_skip_def hd_conv_nth)

theorem pnic_criterion_fails_witness:
  "verify_topology_get suts_t vif_t (TopologyCriteria\<lparr>sepc_pnic_loc := NUMA\<rparr>) = Inl AttributeError"
  by (rule pnic_criterion_fails) (simp_all add: suts_t_def get_vms_def TopologyCriteria_def)

end
