(* ===== verification/Conntrack.thy ===== *)
theory Conntrack imports Topology_Pairs begin

text \<open>
  \<open>conntrack.py\<close>: the flows of the ACL table, which send a protocol through connection tracking and
  drop what is not allowed, and the flows that let only one endpoint originate connections.
\<close>

section \<open>The flows\<close>

definition acl_tbl :: string where
  "acl_tbl = tbl OF_TABLE_ACL"

definition goto_core :: string where
  "goto_core = ''goto_table:'' @ int_str OF_TABLE_CORE"

definition ct_untracked :: string where
  "ct_untracked = fmt [''action=ct'', lpar, ''zone=reg0[0..15],table='', int_str OF_TABLE_ACL, rpar]"

definition track_protos :: "string \<Rightarrow> string list" where
  "track_protos proto = (if proto = ''udp'' then [''tcp'', ''tcp6'', ''udp'', ''udp6''] else [proto, proto @ ''6''])"

text \<open>The four flows of one protocol on one port.\<close>

definition proto_flows :: "pyval \<Rightarrow> pyval \<Rightarrow> string \<Rightarrow> string list" where
  "proto_flows vni ofp p =
     (let on_port = fmt [acl_tbl, '',in_port='', py_str ofp, '',priority=100,'', p, '',''];
          in_zone = fmt [''ct_zone='', py_str vni, '','']
      in [fmt [on_port, ''ct_state=-trk,'', ct_untracked],
          fmt [on_port, in_zone, ''ct_state=+trk+new,action=ct'', lpar, ''commit,zone='', py_str vni, rpar,
               '','', goto_core],
          fmt [on_port, in_zone, ''ct_state=+trk+est,action='', goto_core],
          fmt [on_port, in_zone, ''ct_state=+trk+est+rpl,action='', goto_core]])"

definition generate_flow_track_proto :: "pyval \<Rightarrow> pyval \<Rightarrow> string \<Rightarrow> string list" where
  "generate_flow_track_proto vni ofp proto =
     fmt [acl_tbl, '',in_port='', py_str ofp, '',priority=100,ipv6,ip_frag=later,ct_state=-trk,'', ct_untracked]
     # concat (map (proto_flows vni ofp) (track_protos proto))"

definition acl_default_flows :: "string list" where
  "acl_default_flows =
     [fmt [acl_tbl, '',priority=1,action=drop''],
      fmt [acl_tbl, '',priority=2000,arp,action='', goto_core],
      fmt [acl_tbl, '',priority=2000,icmp6,icmp_type=135,action='', goto_core],
      fmt [acl_tbl, '',priority=2000,icmp6,icmp_type=136,action='', goto_core]]"

definition acl_flows :: "vswitch \<Rightarrow> (nat \<Rightarrow> vif) \<Rightarrow> bridge \<Rightarrow> string \<Rightarrow> string list" where
  "acl_flows vs store br proto =
     acl_default_flows
     @ concat (map (\<lambda>(vni, vifs). concat (map (\<lambda>v. generate_flow_track_proto vni (vif_ofp (store v)) proto) vifs))
         (br_vnis br))
     @ concat (map (\<lambda>(vni, vifs).
         concat (map (\<lambda>tp. generate_flow_track_proto vni (PInt (tp_ofp tp)) proto) (br_tnl_ports br))
         @ concat (map (\<lambda>u. generate_flow_track_proto vni (up_ofp (deref vs u)) proto) (br_uplinks br))) (br_vnis br))"

section \<open>The keywords\<close>

definition acl_setup_allow_proto_on_all_suts :: "ssh_env \<Rightarrow> string \<Rightarrow> string \<Rightarrow> unit tbm" where
  "acl_setup_allow_proto_on_all_suts env name proto =
     for_suts (\<lambda>k.
       thenE (on_sut k (vs_run env (fmt [''ovs-ofctl del-flows '', name, '' '', acl_tbl])))
      (bindE (bindE (getbr k name) (\<lambda>bo. liftE (attr_of bo))) (\<lambda>i.
       bindE (getE (\<lambda>(ss, w). acl_flows (su_vswitch (ss ! k)) (w_vifs w) (the_bridge ss k i) proto)) (\<lambda>flows.
       on_sut k (provision_flows env name flows)))))"

text \<open>A MAC address that is \<open>None\<close> prints as \<open>None\<close>.\<close>

definition mac_str :: "vif \<Rightarrow> string" where
  "mac_str v = (case vif_mac v of None \<Rightarrow> ''None'' | Some m \<Rightarrow> m)"

definition deny_new_flows :: "string \<Rightarrow> string \<Rightarrow> string list" where
  "deny_new_flows mac proto = concat (map (\<lambda>p.
     [fmt [acl_tbl, '',priority=2000,ct_state=+trk+new,dl_dst='', mac, '','', p, '',action=drop''],
      fmt [acl_tbl, '',priority=2000,ct_state=+trk+inv,dl_dst='', mac, '','', p, '',action=drop'']])
     [proto, proto @ ''6''])"

definition acl_setup_allow_originate ::
  "ssh_env \<Rightarrow> string \<Rightarrow> string \<Rightarrow> verify_topology \<Rightarrow> verify_topology tbm" where
  "acl_setup_allow_originate env name proto vt =
     bindE (liftE (verify_topology_allow_originate vt)) (\<lambda>(sep, new_vt).
     bindE (getE (\<lambda>(ss, w). mac_str (w_vifs w (ep_vif sep)))) (\<lambda>mac.
     thenE (on_sut (ep_host sep) (provision_flows env name (deny_new_flows mac proto)))
           (retE new_vt)))"

end
