(* ===== verification/Acl_Spec.thy ===== *)
theory Acl_Spec imports Conntrack begin

text \<open>
  The ACL table as a table: the matches and actions its texts say, the decision it takes on every
  packet, and what follows for connections.  Connection tracking is modelled by its documented meaning
  in Open vSwitch: \<open>ct\<close> looks the packet up in a zone and tags it as new or established, \<open>commit\<close> records
  the connection.
\<close>

section \<open>Packets, matches and actions\<close>

text \<open>
  A packet as the ACL table sees it.  The protocol is the keyword Open vSwitch matches it by
  (\<open>tcp\<close>, \<open>udp6\<close>, \<open>arp\<close>, \<dots>); a later fragment of an IPv6 packet has no layer 4 protocol.
\<close>

record apkt =
  ap_in :: string
  ap_proto :: string
  ap_later6 :: bool
  ap_type :: nat
  ap_src :: string
  ap_dst :: string
  ap_flow :: nat
  ap_trk :: bool
  ap_zone :: string
  ap_new :: bool
  ap_est :: bool
  ap_rpl :: bool
  ap_inv :: bool

datatype ct_match = Untracked | TrkNew | TrkEst | TrkEstRpl | TrkInv

datatype acl_act = ADrop | ACore | ATrack | ACommit string

record aflow =
  af_prio :: nat
  af_in :: "string option"
  af_proto :: "string option"
  af_later6 :: bool
  af_type :: "nat option"
  af_zone :: "string option"
  af_state :: "ct_match option"
  af_dst :: "string option"
  af_act :: acl_act

fun ct_matches :: "ct_match \<Rightarrow> apkt \<Rightarrow> bool" where
  "ct_matches Untracked p = (\<not> ap_trk p)"
| "ct_matches TrkNew p = (ap_trk p \<and> ap_new p)"
| "ct_matches TrkEst p = (ap_trk p \<and> ap_est p)"
| "ct_matches TrkEstRpl p = (ap_trk p \<and> ap_est p \<and> ap_rpl p)"
| "ct_matches TrkInv p = (ap_trk p \<and> ap_inv p)"

definition opt_ok :: "'a option \<Rightarrow> 'a \<Rightarrow> bool" where
  "opt_ok m x = (case m of None \<Rightarrow> True | Some y \<Rightarrow> y = x)"

definition af_matches :: "aflow \<Rightarrow> apkt \<Rightarrow> bool" where
  "af_matches f p = (opt_ok (af_in f) (ap_in p) \<and> opt_ok (af_proto f) (ap_proto p)
     \<and> (af_later6 f \<longrightarrow> ap_later6 p) \<and> opt_ok (af_type f) (ap_type p) \<and> opt_ok (af_zone f) (ap_zone p)
     \<and> (case af_state f of None \<Rightarrow> True | Some m \<Rightarrow> ct_matches m p) \<and> opt_ok (af_dst f) (ap_dst p))"

text \<open>A packet may meet any of the matching flows of the highest priority.\<close>

definition acl_result :: "aflow list \<Rightarrow> apkt \<Rightarrow> acl_act \<Rightarrow> bool" where
  "acl_result fs p a = (\<exists>f \<in> set fs. af_matches f p \<and> af_act f = a
     \<and> (\<forall>g \<in> set fs. af_matches g p \<longrightarrow> af_prio g \<le> af_prio f))"

section \<open>The text of a flow\<close>

fun ct_text :: "ct_match \<Rightarrow> string" where
  "ct_text Untracked = '',ct_state=-trk''"
| "ct_text TrkNew = '',ct_state=+trk+new''"
| "ct_text TrkEst = '',ct_state=+trk+est''"
| "ct_text TrkEstRpl = '',ct_state=+trk+est+rpl''"
| "ct_text TrkInv = '',ct_state=+trk+inv''"

fun acl_act_text :: "acl_act \<Rightarrow> string" where
  "acl_act_text ADrop = '',action=drop''"
| "acl_act_text ACore = '',action='' @ goto_core"
| "acl_act_text ATrack = '','' @ ct_untracked"
| "acl_act_text (ACommit z) = fmt ['',action=ct'', lpar, ''commit,zone='', z, rpar, '','', goto_core]"

definition af_text :: "aflow \<Rightarrow> string" where
  "af_text f =
     (let proto = (case af_proto f of None \<Rightarrow> [] | Some p \<Rightarrow> '','' @ p);
          state = (case af_state f of None \<Rightarrow> [] | Some m \<Rightarrow> ct_text m)
      in fmt [acl_tbl, opt_field ''in_port'' (af_in f), '',priority='', nat_str (af_prio f),
        (case af_dst f of
           Some d \<Rightarrow> fmt [state, '',dl_dst='', d, proto]
         | None \<Rightarrow> fmt [proto, (if af_later6 f then '',ipv6,ip_frag=later'' else []),
             opt_field ''icmp_type'' (map_option nat_str (af_type f)), opt_field ''ct_zone'' (af_zone f), state]),
        acl_act_text (af_act f)])"

section \<open>The table\<close>

definition ablank :: aflow where
  "ablank = \<lparr>af_prio = 100, af_in = None, af_proto = None, af_later6 = False, af_type = None, af_zone = None,
     af_state = None, af_dst = None, af_act = ADrop\<rparr>"

definition acl_default_table :: "aflow list" where
  "acl_default_table =
     [ablank\<lparr>af_prio := 1\<rparr>,
      ablank\<lparr>af_prio := 2000, af_proto := Some ''arp'', af_act := ACore\<rparr>,
      ablank\<lparr>af_prio := 2000, af_proto := Some ''icmp6'', af_type := Some 135, af_act := ACore\<rparr>,
      ablank\<lparr>af_prio := 2000, af_proto := Some ''icmp6'', af_type := Some 136, af_act := ACore\<rparr>]"

definition proto_table :: "string \<Rightarrow> string \<Rightarrow> string \<Rightarrow> aflow list" where
  "proto_table port z p =
     [ablank\<lparr>af_in := Some port, af_proto := Some p, af_state := Some Untracked, af_act := ATrack\<rparr>,
      ablank\<lparr>af_in := Some port, af_proto := Some p, af_zone := Some z, af_state := Some TrkNew, af_act := ACommit z\<rparr>,
      ablank\<lparr>af_in := Some port, af_proto := Some p, af_zone := Some z, af_state := Some TrkEst, af_act := ACore\<rparr>,
      ablank\<lparr>af_in := Some port, af_proto := Some p, af_zone := Some z, af_state := Some TrkEstRpl, af_act := ACore\<rparr>]"

definition track_table :: "string list \<Rightarrow> string \<times> string \<Rightarrow> aflow list" where
  "track_table protos = (\<lambda>(port, z).
     ablank\<lparr>af_in := Some port, af_later6 := True, af_state := Some Untracked, af_act := ATrack\<rparr>
     # concat (map (proto_table port z) protos))"

text \<open>The ports of a bridge with the zones their traffic may be in, in the order of the code.\<close>

definition port_zones :: "vswitch \<Rightarrow> (nat \<Rightarrow> vif) \<Rightarrow> bridge \<Rightarrow> (string \<times> string) list" where
  "port_zones vs store br =
     concat (map (\<lambda>(vni, vifs). map (\<lambda>v. (py_str (vif_ofp (store v)), py_str vni)) vifs) (br_vnis br))
     @ concat (map (\<lambda>(vni, vifs). map (\<lambda>tp. (int_str (tp_ofp tp), py_str vni)) (br_tnl_ports br)
         @ map (\<lambda>u. (py_str (up_ofp (deref vs u)), py_str vni)) (br_uplinks br)) (br_vnis br))"

definition acl_table :: "vswitch \<Rightarrow> (nat \<Rightarrow> vif) \<Rightarrow> bridge \<Rightarrow> string \<Rightarrow> aflow list" where
  "acl_table vs store br proto =
     acl_default_table @ concat (map (track_table (track_protos proto)) (port_zones vs store br))"

definition deny_table :: "string \<Rightarrow> string \<Rightarrow> aflow list" where
  "deny_table mac proto = concat (map (\<lambda>p.
     [ablank\<lparr>af_prio := 2000, af_proto := Some p, af_state := Some TrkNew, af_dst := Some mac\<rparr>,
      ablank\<lparr>af_prio := 2000, af_proto := Some p, af_state := Some TrkInv, af_dst := Some mac\<rparr>])
     [proto, proto @ ''6''])"

section \<open>The texts are the renderings\<close>

lemma nat_str_1 [simp]: "nat_str (Suc 0) = ''1''"
  using digit_chars(2) by (simp add: nat_str_small)

lemma acl_nats [simp]: "nat_str 2000 = ''2000''" "nat_str 135 = ''135''" "nat_str 136 = ''136''"
  by (simp_all add: nat_str_eval)

lemmas af_text_eval = af_text_def ablank_def fmt_def opt_field_def Let_def

lemma default_texts: "map af_text acl_default_table = acl_default_flows"
  by (simp add: acl_default_table_def acl_default_flows_def af_text_eval)

lemma proto_texts: "map af_text (proto_table (py_str ofp) (py_str vni) p) = proto_flows vni ofp p"
  by (simp add: proto_table_def proto_flows_def af_text_eval)

lemma track_texts:
  "map af_text (track_table (track_protos proto) (py_str ofp, py_str vni)) = generate_flow_track_proto vni ofp proto"
  by (simp add: track_table_def generate_flow_track_proto_def map_concat comp_def proto_texts,
      simp add: af_text_eval)

lemma deny_texts: "map af_text (deny_table mac proto) = deny_new_flows mac proto"
  by (simp add: deny_table_def deny_new_flows_def af_text_eval)

end
