(* ===== verification/Acl_Props.thy ===== *)
theory Acl_Props imports Acl_Spec begin

text \<open>
  What the ACL table decides, and what that means for connections: the decision of every packet, that
  the generated texts are those of the table, and that after \<open>acl_setup_allow_originate\<close> connections to
  the protected endpoint are only ever made by that endpoint.
\<close>

section \<open>The decision on a packet\<close>

definition arp_nd :: "apkt \<Rightarrow> bool" where
  "arp_nd p = (ap_proto p = ''arp'' \<or> (ap_proto p = ''icmp6'' \<and> ap_type p \<in> {135, 136}))"

definition acl_decision :: "string list \<Rightarrow> (string \<times> string) list \<Rightarrow> apkt \<Rightarrow> acl_act" where
  "acl_decision protos zones p =
     (if arp_nd p then ACore
      else if ap_in p \<notin> fst ` set zones then ADrop
      else if \<not> ap_trk p then (if ap_later6 p \<or> ap_proto p \<in> set protos then ATrack else ADrop)
      else if ap_proto p \<notin> set protos \<or> (ap_in p, ap_zone p) \<notin> set zones then ADrop
      else if ap_new p then ACommit (ap_zone p)
      else if ap_est p then ACore
      else ADrop)"

text \<open>A connection is new or established, and only a tracked packet is either.\<close>

definition coherent :: "apkt \<Rightarrow> bool" where
  "coherent p = (\<not> (ap_new p \<and> ap_est p) \<and> (ap_new p \<or> ap_est p \<or> ap_rpl p \<or> ap_inv p \<longrightarrow> ap_trk p))"

lemma list_set_cases:
  assumes "x \<in> set (y # ys)"
  obtains "x = y" | "x \<in> set ys"
  using assms by auto

named_theorems acl_eval "evaluating matches of the ACL table"

lemmas [acl_eval] = af_matches_def opt_ok_def ablank_def

lemma default_table_matches:
  "f \<in> set acl_default_table \<Longrightarrow> af_matches f p \<Longrightarrow>
   (af_prio f = 1 \<and> af_act f = ADrop) \<or> (af_prio f = 2000 \<and> af_act f = ACore \<and> arp_nd p)"
  by (auto simp: acl_default_table_def acl_eval arp_nd_def)

lemma default_drop: "\<exists>f \<in> set acl_default_table. af_matches f p \<and> af_prio f = 1 \<and> af_act f = ADrop"
  by (simp add: acl_default_table_def acl_eval)

lemma default_core: "arp_nd p \<Longrightarrow> \<exists>f \<in> set acl_default_table. af_matches f p \<and> af_prio f = 2000 \<and> af_act f = ACore"
  by (auto simp: acl_default_table_def acl_eval arp_nd_def)

text \<open>The action a tracking flow takes on a packet it matches, which only depends on the packet.\<close>

definition track_act :: "string list \<Rightarrow> (string \<times> string) list \<Rightarrow> apkt \<Rightarrow> acl_act option" where
  "track_act protos zones p =
     (if ap_in p \<notin> fst ` set zones then None
      else if \<not> ap_trk p then (if ap_later6 p \<or> ap_proto p \<in> set protos then Some ATrack else None)
      else if ap_proto p \<notin> set protos \<or> (ap_in p, ap_zone p) \<notin> set zones then None
      else if ap_new p then Some (ACommit (ap_zone p))
      else if ap_est p then Some ACore
      else None)"

lemma track_table_prio: "f \<in> set (track_table protos z) \<Longrightarrow> af_prio f = 100"
  by (cases z) (auto simp: track_table_def proto_table_def ablank_def)

lemma proto_table_matches:
  assumes "f \<in> set (proto_table port z q)" "af_matches f p"
  shows "ap_in p = port \<and> ap_proto p = q
     \<and> (if ap_trk p then ap_zone p = z \<and> ((ap_new p \<and> af_act f = ACommit z) \<or> (ap_est p \<and> af_act f = ACore))
        else af_act f = ATrack)"
  using assms unfolding proto_table_def by (elim list_set_cases) (simp_all add: acl_eval)

lemma track_table_matches:
  assumes "coherent p" "z \<in> set zones" "f \<in> set (track_table protos z)" "af_matches f p"
  shows "track_act protos zones p = Some (af_act f)"
proof -
  obtain port zn where z: "z = (port, zn)" by (cases z)
  have inz: "(port, zn) \<in> set zones" "port \<in> fst ` set zones" using assms(2) z by force+
  from assms(3) z consider
      (frag) "f = ablank\<lparr>af_in := Some port, af_later6 := True, af_state := Some Untracked, af_act := ATrack\<rparr>"
    | (proto) q where "q \<in> set protos" "f \<in> set (proto_table port zn q)"
    by (auto simp: track_table_def)
  then show ?thesis
  proof cases
    case frag
    with assms(4) inz show ?thesis by (auto simp: acl_eval track_act_def)
  next
    case proto
    from assms(1, 4) inz proto_table_matches [OF proto(2) assms(4)] proto(1) show ?thesis
      by (cases "ap_trk p"; cases "ap_new p") (simp_all add: track_act_def coherent_def)
  qed
qed

lemma track_act_some:
  assumes "track_act protos zones p = Some a"
  shows "\<exists>z \<in> set zones. \<exists>f \<in> set (track_table protos z). af_matches f p \<and> af_act f = a"
proof (cases "ap_trk p")
  case False
  with assms obtain zn where zn: "(ap_in p, zn) \<in> set zones" and a: "a = ATrack"
    "ap_later6 p \<or> ap_proto p \<in> set protos"
    by (auto simp: track_act_def split: if_splits)
  have "\<exists>f \<in> set (track_table protos (ap_in p, zn)). af_matches f p \<and> af_act f = a"
    using False a by (auto simp: track_table_def proto_table_def acl_eval)
  with zn show ?thesis by blast
next
  case True
  with assms have z: "(ap_in p, ap_zone p) \<in> set zones" and q: "ap_proto p \<in> set protos"
    and a: "(ap_new p \<and> a = ACommit (ap_zone p)) \<or> (ap_est p \<and> a = ACore)"
    by (auto simp: track_act_def split: if_splits)
  have "\<exists>f \<in> set (proto_table (ap_in p) (ap_zone p) (ap_proto p)). af_matches f p \<and> af_act f = a"
    using a True by (auto simp: proto_table_def acl_eval)
  then have "\<exists>f \<in> set (track_table protos (ap_in p, ap_zone p)). af_matches f p \<and> af_act f = a"
    using q by (auto simp: track_table_def)
  with z show ?thesis by blast
qed

lemma acl_decision_track:
  "\<not> arp_nd p \<Longrightarrow> acl_decision protos zones p = (case track_act protos zones p of None \<Rightarrow> ADrop | Some a \<Rightarrow> a)"
  by (simp add: acl_decision_def track_act_def)

lemma acl_table_set:
  "f \<in> set (acl_table vs store br proto) \<longleftrightarrow> f \<in> set acl_default_table
     \<or> (\<exists>z \<in> set (port_zones vs store br). f \<in> set (track_table (track_protos proto) z))"
  by (auto simp: acl_table_def)

lemma acl_result_table:
  assumes "coherent p"
  shows "acl_result (acl_table vs store br proto) p a
     \<longleftrightarrow> a = acl_decision (track_protos proto) (port_zones vs store br) p"
proof -
  let ?T = "set (acl_table vs store br proto)"
  let ?P = "track_protos proto"
  let ?Z = "port_zones vs store br"
  have cases: "(af_prio f = 1 \<and> af_act f = ADrop) \<or> (af_prio f = 2000 \<and> af_act f = ACore \<and> arp_nd p)
      \<or> (af_prio f = 100 \<and> track_act ?P ?Z p = Some (af_act f))" if "f \<in> ?T" "af_matches f p" for f
    using that default_table_matches [of f p] track_table_matches [OF assms] track_table_prio
    unfolding acl_table_set by blast
  have drop: "\<exists>f \<in> ?T. af_matches f p \<and> af_prio f = 1 \<and> af_act f = ADrop"
    using default_drop acl_table_set by blast
  consider (core) "arp_nd p" | (none) "\<not> arp_nd p" "track_act ?P ?Z p = None"
    | (some) b where "\<not> arp_nd p" "track_act ?P ?Z p = Some b" by blast
  then show ?thesis
  proof cases
    case core
    obtain g where g: "g \<in> ?T" "af_matches g p" "af_prio g = 2000" "af_act g = ACore"
      using default_core [OF core] acl_table_set by blast
    have "acl_result (acl_table vs store br proto) p a \<longleftrightarrow> a = ACore"
    proof
      assume "acl_result (acl_table vs store br proto) p a"
      then obtain f where "f \<in> ?T" "af_matches f p" "af_act f = a" "af_prio g \<le> af_prio f"
        using g unfolding acl_result_def by blast
      with cases [of f] g show "a = ACore" by auto
    next
      assume "a = ACore"
      have "af_prio h \<le> 2000" if "h \<in> ?T" "af_matches h p" for h using cases [OF that] by auto
      with g \<open>a = ACore\<close> show "acl_result (acl_table vs store br proto) p a"
        unfolding acl_result_def by metis
    qed
    with core show ?thesis by (simp add: acl_decision_def)
  next
    case none
    from none cases have low: "af_prio f = 1 \<and> af_act f = ADrop" if "f \<in> ?T" "af_matches f p" for f
      using that by fastforce
    have "acl_result (acl_table vs store br proto) p a \<longleftrightarrow> a = ADrop"
      unfolding acl_result_def using low drop by (metis order_refl)
    with none show ?thesis by (simp add: acl_decision_track)
  next
    case some
    obtain g where g: "g \<in> ?T" "af_matches g p" "af_act g = b" "af_prio g = 100"
      using track_act_some [OF some(2)] track_table_prio acl_table_set by metis
    have le: "af_prio h \<le> 100 \<and> (af_prio h = 100 \<longrightarrow> af_act h = b)" if "h \<in> ?T" "af_matches h p" for h
      using cases [OF that] some by auto
    have "acl_result (acl_table vs store br proto) p a \<longleftrightarrow> a = b"
      unfolding acl_result_def using le g by (metis le_antisym)
    with some show ?thesis by (simp add: acl_decision_track)
  qed
qed

lemma track_texts_on:
  "(\<And>x. port x = py_str (q x)) \<Longrightarrow>
   map af_text (concat (map (track_table (track_protos proto)) (map (\<lambda>x. (port x, py_str vni)) xs)))
     = concat (map (\<lambda>x. generate_flow_track_proto vni (q x) proto) xs)"
  by (simp add: map_concat comp_def track_texts)

lemma map_concat_each:
  "(\<And>e. map f (concat (map g (h e))) = k e) \<Longrightarrow> map f (concat (map g (concat (map h es)))) = concat (map k es)"
  by (induction es) simp_all

lemma acl_texts: "acl_flows vs store br proto = map af_text (acl_table vs store br proto)"
proof -
  let ?T = "track_table (track_protos proto)"
  let ?h1 = "\<lambda>(vni, vifs). map (\<lambda>v. (py_str (vif_ofp (store v)), py_str vni)) vifs"
  let ?h2 = "\<lambda>(vni, vifs). map (\<lambda>tp. (int_str (tp_ofp tp), py_str vni)) (br_tnl_ports br)
         @ map (\<lambda>u. (py_str (up_ofp (deref vs u)), py_str vni)) (br_uplinks br)"
  let ?k1 = "\<lambda>(vni, vifs). concat (map (\<lambda>v. generate_flow_track_proto vni (vif_ofp (store v)) proto) vifs)"
  let ?k2 = "\<lambda>(vni, vifs). concat (map (\<lambda>tp. generate_flow_track_proto vni (PInt (tp_ofp tp)) proto) (br_tnl_ports br))
         @ concat (map (\<lambda>u. generate_flow_track_proto vni (up_ofp (deref vs u)) proto) (br_uplinks br))"
  have 1: "map af_text (concat (map ?T (concat (map ?h1 (br_vnis br))))) = concat (map ?k1 (br_vnis br))"
  proof (rule map_concat_each)
    fix e :: "pyval \<times> nat list"
    obtain vni vifs where e: "e = (vni, vifs)" by (cases e)
    show "map af_text (concat (map ?T (?h1 e))) = ?k1 e"
      unfolding e prod.case by (rule track_texts_on) (rule refl)
  qed
  have 2: "map af_text (concat (map ?T (concat (map ?h2 (br_vnis br))))) = concat (map ?k2 (br_vnis br))"
  proof (rule map_concat_each)
    fix e :: "pyval \<times> nat list"
    obtain vni vifs where e: "e = (vni, vifs)" by (cases e)
    have "map af_text (concat (map ?T (map (\<lambda>tp. (int_str (tp_ofp tp), py_str vni)) (br_tnl_ports br))))
        = concat (map (\<lambda>tp. generate_flow_track_proto vni (PInt (tp_ofp tp)) proto) (br_tnl_ports br))"
      by (rule track_texts_on) simp
    moreover have "map af_text (concat (map ?T (map (\<lambda>u. (py_str (up_ofp (deref vs u)), py_str vni)) (br_uplinks br))))
        = concat (map (\<lambda>u. generate_flow_track_proto vni (up_ofp (deref vs u)) proto) (br_uplinks br))"
      by (rule track_texts_on) (rule refl)
    ultimately show "map af_text (concat (map ?T (?h2 e))) = ?k2 e"
      unfolding e prod.case map_append concat_append by (simp only:)
  qed
  show ?thesis
    unfolding acl_flows_def acl_table_def port_zones_def map_append concat_append default_texts
      1 [symmetric] 2 [symmetric] by (rule refl)
qed

section \<open>Connections\<close>

text \<open>
  The table of connections of a zone.  A packet that meets \<open>ct\<close> is looked up in the zone: it is new if
  neither it nor its reverse belongs to a connection.  A packet of the protocol that is then met by
  \<open>ct(commit)\<close> makes a connection.
\<close>

type_synonym conn = "string \<times> string \<times> string \<times> string \<times> nat"

definition conn_of :: "string \<Rightarrow> apkt \<Rightarrow> conn" where
  "conn_of z p = (z, ap_proto p, ap_src p, ap_dst p, ap_flow p)"

definition reply_of :: "string \<Rightarrow> apkt \<Rightarrow> conn" where
  "reply_of z p = (z, ap_proto p, ap_dst p, ap_src p, ap_flow p)"

definition ct_tag :: "conn set \<Rightarrow> string \<Rightarrow> apkt \<Rightarrow> apkt" where
  "ct_tag cts z p =
     (let known = conn_of z p \<in> cts \<or> reply_of z p \<in> cts
      in p\<lparr>ap_trk := True, ap_zone := z, ap_new := \<not> known, ap_est := known,
           ap_rpl := (conn_of z p \<notin> cts \<and> reply_of z p \<in> cts), ap_inv := False\<rparr>)"

definition fresh :: "apkt \<Rightarrow> bool" where
  "fresh p = (\<not> ap_trk p \<and> \<not> ap_new p \<and> \<not> ap_est p \<and> \<not> ap_rpl p \<and> \<not> ap_inv p)"

inductive acl_reach :: "aflow list \<Rightarrow> conn set \<Rightarrow> bool" for fs where
  acl_start: "acl_reach fs {}"
| acl_commit: "acl_reach fs cts \<Longrightarrow> fresh p \<Longrightarrow> acl_result fs p ATrack
    \<Longrightarrow> acl_result fs (ct_tag cts z p) (ACommit z') \<Longrightarrow> acl_reach fs (insert (conn_of z' p) cts)"

text \<open>A packet passes if it goes on to the core table, directly or after tracking.\<close>

definition passes :: "aflow list \<Rightarrow> conn set \<Rightarrow> string \<Rightarrow> apkt \<Rightarrow> bool" where
  "passes fs cts z p = (acl_result fs p ACore
     \<or> (acl_result fs p ATrack \<and> (\<exists>a. acl_result fs (ct_tag cts z p) a \<and> (a = ACore \<or> (\<exists>z'. a = ACommit z')))))"

lemma ct_tag_simps [simp]:
  "ap_in (ct_tag cts z p) = ap_in p" "ap_proto (ct_tag cts z p) = ap_proto p" "ap_trk (ct_tag cts z p)"
  "ap_zone (ct_tag cts z p) = z" "ap_src (ct_tag cts z p) = ap_src p" "ap_dst (ct_tag cts z p) = ap_dst p"
  "ap_type (ct_tag cts z p) = ap_type p" "ap_later6 (ct_tag cts z p) = ap_later6 p"
  "ap_flow (ct_tag cts z p) = ap_flow p" "\<not> ap_inv (ct_tag cts z p)"
  "ap_new (ct_tag cts z p) = (conn_of z p \<notin> cts \<and> reply_of z p \<notin> cts)"
  "ap_est (ct_tag cts z p) = (conn_of z p \<in> cts \<or> reply_of z p \<in> cts)"
  by (simp_all add: ct_tag_def Let_def)

lemma ct_tag_coherent: "coherent (ct_tag cts z p)"
  by (auto simp: coherent_def)

lemma arp_nd_tag [simp]: "arp_nd (ct_tag cts z p) = arp_nd p"
  by (simp add: arp_nd_def)

lemma fresh_coherent: "fresh p \<Longrightarrow> coherent p"
  by (simp add: fresh_def coherent_def)

section \<open>Only one endpoint originates\<close>

definition denied :: "string \<Rightarrow> string \<Rightarrow> apkt \<Rightarrow> bool" where
  "denied mac proto p = (ap_trk p \<and> (ap_new p \<or> ap_inv p) \<and> ap_dst p = mac \<and> ap_proto p \<in> {proto, proto @ ''6''})"

lemma deny_table_matches:
  "f \<in> set (deny_table mac proto) \<Longrightarrow> af_prio f = 2000 \<and> af_act f = ADrop \<and> (af_matches f p \<longrightarrow> denied mac proto p)"
  by (auto simp: deny_table_def acl_eval denied_def)

lemma deny_table_denied: "denied mac proto p \<Longrightarrow> \<exists>f \<in> set (deny_table mac proto). af_matches f p"
  by (auto simp: deny_table_def acl_eval denied_def)

lemma acl_table_prio:
  "\<not> arp_nd p \<Longrightarrow> f \<in> set (acl_table vs store br proto) \<Longrightarrow> af_matches f p \<Longrightarrow> af_prio f \<le> 100"
  using default_table_matches [of f p] track_table_prio [of f] unfolding acl_table_set by fastforce

lemma originate_result:
  assumes "coherent p" "\<not> arp_nd p"
  shows "acl_result (acl_table vs store br proto @ deny_table mac proto) p a
     \<longleftrightarrow> a = (if denied mac proto p then ADrop
              else acl_decision (track_protos proto) (port_zones vs store br) p)"
proof (cases "denied mac proto p")
  case False
  then have "acl_result (acl_table vs store br proto @ deny_table mac proto) p a
      \<longleftrightarrow> acl_result (acl_table vs store br proto) p a"
    using deny_table_matches unfolding acl_result_def set_append by blast
  with False assms(1) show ?thesis by (simp add: acl_result_table)
next
  case True
  obtain g where g: "g \<in> set (deny_table mac proto)" "af_matches g p" "af_prio g = 2000" "af_act g = ADrop"
    using deny_table_denied [OF True] deny_table_matches by blast
  have "acl_result (acl_table vs store br proto @ deny_table mac proto) p a \<longleftrightarrow> a = ADrop"
  proof
    assume "acl_result (acl_table vs store br proto @ deny_table mac proto) p a"
    then obtain f where f: "f \<in> set (acl_table vs store br proto) \<union> set (deny_table mac proto)"
      "af_matches f p" "af_act f = a"
      "\<forall>h \<in> set (acl_table vs store br proto) \<union> set (deny_table mac proto). af_matches h p \<longrightarrow> af_prio h \<le> af_prio f"
      unfolding acl_result_def set_append by blast
    have "2000 \<le> af_prio f" using f(4) g by fastforce
    with f show "a = ADrop" using acl_table_prio [OF assms(2), of f] deny_table_matches [of f] by fastforce
  next
    assume "a = ADrop"
    have "af_prio h \<le> 2000"
      if "h \<in> set (acl_table vs store br proto) \<union> set (deny_table mac proto)" "af_matches h p" for h
      using that acl_table_prio [OF assms(2), of h] deny_table_matches [of h] by fastforce
    with g \<open>a = ADrop\<close> show "acl_result (acl_table vs store br proto @ deny_table mac proto) p a"
      unfolding acl_result_def set_append by (metis UnCI)
  qed
  with True show ?thesis by simp
qed

lemma no_conns_to:
  assumes "acl_reach (acl_table vs store br proto @ deny_table mac proto) cts"
    and "c \<in> cts" "c = (z, q, src, mac, n)" "q \<in> {proto, proto @ ''6''}"
  shows False
  using assms
proof (induction arbitrary: c z q src n rule: acl_reach.induct)
  case acl_start
  then show ?case by simp
next
  case (acl_commit cts p zt zc)
  let ?fs = "acl_table vs store br proto @ deny_table mac proto"
  show ?case
  proof (cases "c \<in> cts")
    case True
    with acl_commit show ?thesis by blast
  next
    case False
    with acl_commit have c: "conn_of zc p = (z, q, src, mac, n)" by simp
    have nd: "\<not> arp_nd p"
    proof
      assume nd: "arp_nd p"
      have "acl_result (acl_table vs store br proto) p ACore"
        using nd fresh_coherent [OF acl_commit(2)] by (simp add: acl_result_table acl_decision_def)
      then obtain g where "g \<in> set ?fs" "af_matches g p" "af_prio g = 2000"
        using default_core [OF nd] acl_table_set by fastforce
      with acl_commit(3) obtain f where "f \<in> set ?fs" "af_matches f p" "af_act f = ATrack" "2000 \<le> af_prio f"
        unfolding acl_result_def by metis
      then show False
        using default_table_matches [of f p] track_table_prio [of f] deny_table_matches [of f]
        by (fastforce simp: acl_table_set)
    qed
    from acl_commit(4) nd have "\<not> denied mac proto (ct_tag cts zt p)"
      and "ACommit zc = acl_decision (track_protos proto) (port_zones vs store br) (ct_tag cts zt p)"
      by (auto simp: originate_result ct_tag_coherent split: if_splits)
    moreover from this(2) have "ap_new (ct_tag cts zt p)"
      by (auto simp: acl_decision_def split: if_splits)
    ultimately show False using c acl_commit(8) by (auto simp: denied_def conn_of_def)
  qed
qed

lemma ret_provision:
  assumes "provision_flows env name flows s = (Inr x, s')"
  shows "fst s' = fst s \<and> w_sent (snd s') = w_sent (snd s)
     @ map (ovs_cmd (fst s)) (map (add_flow_cmd name) flows @ [fmt [''ovs-ofctl dump-flows '', name]])"
proof -
  have loop: "forE flows (\<lambda>f. vs_run env (add_flow_cmd name f)) s = (Inr y, s1) \<Longrightarrow>
      fst s1 = fst s \<and> w_sent (snd s1) = w_sent (snd s) @ map (ovs_cmd (fst s)) (map (add_flow_cmd name) flows)"
    for y s1
  proof (induction flows arbitrary: s)
    case Nil
    then show ?case by (simp add: returns)
  next
    case (Cons f fs)
    from Cons.prems obtain z s2 where 1: "vs_run env (add_flow_cmd name f) s = (Inr z, s2)"
      "forE fs (\<lambda>f. vs_run env (add_flow_cmd name f)) s2 = (Inr y, s1)"
      by (auto elim!: returns_thenE)
    from Cons.IH [OF 1(2)] ret_run [OF 1(1)] show ?case by simp
  qed
  from assms obtain y s1 where
    1: "forE flows (\<lambda>f. vs_run env (add_flow_cmd name f)) s = (Inr y, s1)"
       "vs_run env (fmt [''ovs-ofctl dump-flows '', name]) s1 = (Inr x, s')"
    unfolding provision_flows_def by (auto elim!: returns_thenE)
  from loop [OF 1(1)] ret_run [OF 1(2)] show ?thesis by simp
qed

section \<open>A connection in the testbed\<close>

definition pkt_a :: apkt where
  "pkt_a = \<lparr>ap_in = ''11'', ap_proto = ''tcp'', ap_later6 = False, ap_type = 0, ap_src = ''00:00:00:01:01:01'', ap_dst = ''m1'',
     ap_flow = 1, ap_trk = False, ap_zone = [], ap_new = False, ap_est = False, ap_rpl = False, ap_inv = False\<rparr>"

definition pkt_reply :: apkt where
  "pkt_reply = pkt_a\<lparr>ap_in := ''12'', ap_src := ''m1'', ap_dst := ''00:00:00:01:01:01''\<rparr>"

lemma zones_b: "set (port_zones switch_b vif_no bridge0)
    = {(''11'', ''200''), (''12'', ''200''), (''13'', ''201''), (''100'', ''200''), (''1'', ''200''), (''100'', ''201''), (''1'', ''201'')}"
proof -
  have fields: "br_vnis bridge0 = [(PInt 200, [0, 1]), (PInt 201, [2])]" "br_tnl_ports bridge0 = [tunnel0]"
    "br_uplinks bridge0 = [Phys 0]" "tp_ofp tunnel0 = 100" "up_ofp (deref switch_b (Phys 0)) = PInt 1"
    "\<And>v. vif_ofp (vif_no v) = PStr (nat_str (11 + v))"
    by (simp_all add: bridge0_def Bridge_def tunnel0_def new_tunnel_def switch_b_def Uplink_def vif_no_def
        VhostUserInterface_def deref_def)
  have strs: "int_str 200 = ''200''" "int_str 201 = ''201''" "int_str 100 = ''100''" "int_str 1 = ''1''"
    "nat_str 11 = ''11''" "nat_str 12 = ''12''" "nat_str 13 = ''13''"
    by (simp_all add: int_str_small nat_str_eval)
  show ?thesis
    by (simp add: port_zones_def fields strs insert_commute)
qed

lemma tcp_protos: "track_protos ''tcp'' = [''tcp'', ''tcp6'']"
  by (simp add: track_protos_def)

lemmas acl_b = originate_result fresh_coherent ct_tag_coherent acl_decision_def zones_b tcp_protos denied_def
  arp_nd_def pkt_a_def pkt_reply_def fresh_def conn_of_def reply_of_def

abbreviation fs_b :: "aflow list" where
  "fs_b \<equiv> acl_table switch_b vif_no bridge0 ''tcp'' @ deny_table ''00:00:00:01:01:01'' ''tcp''"

lemma reach_b: "acl_reach fs_b {conn_of ''200'' pkt_a}"
  by (rule acl_commit [OF acl_start, where z = "''200''" and p = pkt_a and z' = "''200''"]) (simp_all add: acl_b)

lemma reply_passes_b: "passes fs_b {conn_of ''200'' pkt_a} ''200'' pkt_reply"
  by (simp add: passes_def acl_b)

section \<open>Properties\<close>

text \<open>
  C9 The texts of the ACL table are those of the specified table, and that table takes one decision on
  every packet: ARP and neighbour discovery go on, other packets only on the bridge's ports; the allowed
  protocols are tracked, a new connection in the zone of the port is committed to that zone, packets of
  established ones go on, and everything else is dropped.
\<close>

theorem acl_flows_decide:
  assumes "coherent p"
  shows "acl_flows vs store br proto = map af_text (acl_table vs store br proto)
     \<and> (acl_result (acl_table vs store br proto) p a
          \<longleftrightarrow> a = acl_decision (track_protos proto) (port_zones vs store br) p)"
  using assms by (simp add: acl_texts acl_result_table)

theorem acl_flows_decide_witness:
  "acl_result (acl_table switch_b vif_no bridge0 ''tcp'') pkt_a ATrack
   \<and> \<not> acl_result (acl_table switch_b vif_no bridge0 ''tcp'') (pkt_a\<lparr>ap_proto := ''udp''\<rparr>) ATrack"
proof -
  have "coherent pkt_a" "coherent (pkt_a\<lparr>ap_proto := ''udp''\<rparr>)" by (simp_all add: coherent_def pkt_a_def)
  from this [THEN acl_flows_decide, of switch_b vif_no bridge0 "''tcp''" ATrack] show ?thesis
    by (simp add: acl_b)
qed

text \<open>What the keyword sends, and to which host.\<close>

lemma originate_sends:
  assumes "acl_setup_allow_originate env name proto vt (ss, w) = (Inr vt', (ss', w'))"
  shows "\<exists>sep. verify_topology_allow_originate vt = Inr (sep, vt')
     \<and> w_sent w' = w_sent w @ map (ovs_cmd (su_vswitch (ss ! ep_host sep)))
         (map (add_flow_cmd name \<circ> af_text) (deny_table (mac_str (w_vifs w (ep_vif sep))) proto)
          @ [fmt [''ovs-ofctl dump-flows '', name]])"
proof -
  from assms obtain sep s1 where sep: "verify_topology_allow_originate vt = Inr (sep, vt')"
    and run: "on_sut (ep_host sep) (provision_flows env name (deny_new_flows (mac_str (w_vifs w (ep_vif sep))) proto)) (ss, w)
      = (Inr (), (ss', w'))"
    by (auto simp: acl_setup_allow_originate_def returns)
  from run obtain vs' where "provision_flows env name (deny_new_flows (mac_str (w_vifs w (ep_vif sep))) proto)
      (su_vswitch (ss ! ep_host sep), w) = (Inr (), (vs', w'))" by (rule ret_on_sut)
  from ret_provision [OF this] sep show ?thesis
    by (auto simp: deny_texts [symmetric])
qed

text \<open>What passes towards the protected endpoint, in every state connection tracking reaches from empty.\<close>

lemma passes_answers:
  assumes "acl_reach (acl_table vs store br proto @ deny_table mac proto) cts"
    and "fresh p" "ap_dst p = mac" "ap_proto p \<in> {proto, proto @ ''6''}" "\<not> arp_nd p"
    and "passes (acl_table vs store br proto @ deny_table mac proto) cts z p"
  shows "reply_of z p \<in> cts"
proof -
  let ?fs = "acl_table vs store br proto @ deny_table mac proto"
  have "\<not> acl_result ?fs p ACore"
    using assms(2, 5) by (simp add: originate_result fresh_coherent) (simp add: acl_decision_def fresh_def denied_def)
  with assms(6) obtain a where a: "acl_result ?fs (ct_tag cts z p) a" "a \<noteq> ADrop"
    unfolding passes_def by auto
  then have "\<not> denied mac proto (ct_tag cts z p)"
    using assms(5) by (auto simp: originate_result ct_tag_coherent)
  then have "conn_of z p \<in> cts \<or> reply_of z p \<in> cts"
    using assms(3, 4) by (auto simp: denied_def)
  moreover have "conn_of z p \<notin> cts"
    using no_conns_to [OF assms(1), of "conn_of z p" z "ap_proto p" "ap_src p" "ap_flow p"] assms(3, 4)
    by (auto simp: conn_of_def)
  ultimately show ?thesis by blast
qed



end
