(* ===== verification/Guest_Results.thy ===== *)
theory Guest_Results imports Acl_Props begin

text \<open>
  The functions of \<open>guest.py\<close> that read the output of the test tools: the summary of \<open>ping\<close>, the
  bandwidth lines of \<open>iperf3\<close> over TCP and UDP, the result line of \<open>netperf\<close>.  A bandwidth is kept as the
  exact decimal it is written as; Python's \<open>float\<close> has the same integer part and the same zero test
  for numbers of up to 15 digits.  The functions are modelled for \<open>exp_rate = 0\<close>, the only value the program
  passes.
\<close>

section \<open>Patterns\<close>

definition rx_spaces :: rx where "rx_spaces = RPlus py_space"
definition rx_digits :: rx where "rx_digits = RPlus is_digit"

text \<open>\<open>\s+(\d+)\s+<word>\<close>\<close>

definition rx_count :: "string \<Rightarrow> rx" where
  "rx_count word = RSeq rx_spaces (RSeq (RGrp rx_digits) (RSeq rx_spaces (RLit word)))"

text \<open>\<open>\s+(\d+\.*\d+)\s+Kbits\/sec\<close>\<close>

definition rx_kbits :: rx where
  "rx_kbits = RSeq rx_spaces (RSeq (RGrp (RSeq rx_digits (RSeq (RStar ((=) (CHR ''.''))) rx_digits)))
     (RSeq rx_spaces (RLit ''Kbits/sec'')))"

text \<open>\<open>\s+(\d+)\/(\d+)\s+\<close>\<close>

definition rx_lost_total :: rx where
  "rx_lost_total = RSeq rx_spaces (RSeq (RGrp rx_digits) (RSeq (RChr (CHR ''/'')) (RSeq (RGrp rx_digits) rx_spaces)))"

definition rx_number :: rx where
  "rx_number = RSeq rx_digits (ROpt (RSeq (RChr (CHR ''.'')) rx_digits))"

text \<open>\<open>(\d+)[ ]+(\d+)[ ]+(\d+)[ ]+(\d+)[ ]+(\d+(?:\.\d+)?)[ ]+(\d+(?:\.\d+)?)\<close>\<close>

definition rx_netperf :: rx where
  "rx_netperf = (let sp = RPlus ((=) (CHR '' '')); d = RGrp rx_digits; n = RGrp rx_number
     in RSeq d (RSeq sp (RSeq d (RSeq sp (RSeq d (RSeq sp (RSeq d (RSeq sp (RSeq n (RSeq sp n))))))))))"

text \<open>\<open>match.group(i)\<close> of a search that may have found nothing.\<close>

definition group :: "nat \<Rightarrow> string list option \<Rightarrow> string res" where
  "group i mt = (case mt of None \<Rightarrow> Inl AttributeError | Some gs \<Rightarrow> Inr (gs ! (i - 1)))"

section \<open>ping\<close>

definition logW :: "string \<Rightarrow> (world, unit) em" where
  "logW msg = logE LWarn msg"

definition verify_ping_result :: "string option \<Rightarrow> nat \<Rightarrow> (world, bool) em" where
  "verify_ping_result log exp_cnt =
     bindE (liftE (case log of None \<Rightarrow> Inl TypeError | Some l \<Rightarrow> Inr l)) (\<lambda>l.
     case rx_search (rx_count ''packets transmitted'') l of
       None \<Rightarrow> thenE (logW ''ping test has no summary'') (retE False)
     | Some gs \<Rightarrow>
         bindE (liftE (py_int (gs ! 0))) (\<lambda>sent.
         bindE (liftE (bindR (group 1 (rx_search (rx_count ''received'') l)) py_int)) (\<lambda>recv.
         if sent \<noteq> int exp_cnt then
           thenE (logW (fmt [''sent:'', int_str sent, '' is not equal to expected:'', nat_str exp_cnt])) (retE False)
         else if recv < int exp_cnt then
           thenE (logW (fmt [''recv:'', int_str recv, '' is less than expected:'', nat_str exp_cnt])) (retE False)
         else retE True)))"

section \<open>iperf over TCP\<close>

text \<open>What the functions return: a text, the number 0, or the pair \<open>(False, -1)\<close>.\<close>

datatype rate = RateText string | RateZero | RateFail

fun rate_str :: "rate \<Rightarrow> string" where
  "rate_str (RateText s) = s"
| "rate_str RateZero = ''0''"
| "rate_str RateFail = ''(False, -1)''"

text \<open>
  \<open>float(s)\<close> of a text of digits, dots and digits: with more than one dot it raises.  The value is
  \<open>m / 10 ^ k\<close> for the result \<open>(m, k)\<close>.
\<close>

definition py_float :: "string \<Rightarrow> (nat \<times> nat) res" where
  "py_float s =
     (case split_on (CHR ''.'') s of
        [a] \<Rightarrow> (case int_digits 0 False a of None \<Rightarrow> Inl ValueError | Some n \<Rightarrow> Inr (n, 0))
      | [a, b] \<Rightarrow> (case int_digits 0 False (a @ b) of None \<Rightarrow> Inl ValueError | Some n \<Rightarrow> Inr (n, length b))
      | _ \<Rightarrow> Inl ValueError)"

text \<open>The bandwidths of the lines that have one.\<close>

definition bandwidths :: "string \<Rightarrow> string list" where
  "bandwidths log = concat (map (\<lambda>line. case rx_search rx_kbits line of None \<Rightarrow> [] | Some gs \<Rightarrow> [gs ! 0])
     (readlines log))"

text \<open>The loop over the results, with the bandwidth of the last one and the number of zeros so far.\<close>

fun iperf_loop :: "string list \<Rightarrow> nat \<times> nat \<Rightarrow> nat \<Rightarrow> (world, rate) em" where
  "iperf_loop [] (m, k) zero_cnt = retE (RateText (fmt [nat_str (m div 10 ^ k), '' Kbits/sec'']))"
| "iperf_loop (r # rs) _ zero_cnt =
     bindE (liftE (py_float r)) (\<lambda>(m, k).
     if m = 0 then
       thenE (logW (fmt [''zero Bandwidth accumulated count:'', nat_str (Suc zero_cnt)]))
         (if Suc zero_cnt > 5 then thenE (logW ''zero Bandwidth exceed threshold'') (retE RateFail)
          else iperf_loop rs (m, k) (Suc zero_cnt))
     else iperf_loop rs (m, k) zero_cnt)"

text \<open>\<open>StringIO(None)\<close> is an empty buffer.\<close>

definition log_text :: "string option \<Rightarrow> string" where
  "log_text log = (case log of None \<Rightarrow> [] | Some l \<Rightarrow> l)"

definition verify_iperf_result :: "string option \<Rightarrow> (world, rate) em" where
  "verify_iperf_result log =
     (let results = bandwidths (log_text log)
      in if results = [] then thenE (logW ''NO Bandwidth output'') (retE (RateText ''0 Kbits/sec''))
         else iperf_loop results (0, 0) 0)"

section \<open>iperf over UDP\<close>

text \<open>
  The line after the one with \<open>Jitter\<close> has the counters.  Without such a line both keep their initial
  value; a line without counters ends the function with 0.
\<close>

datatype udp_summary = NoSummary | NoCounters | Counters int int

fun udp_counters :: "bool \<Rightarrow> string list \<Rightarrow> udp_summary res" where
  "udp_counters found [] = Inr NoSummary"
| "udp_counters found (line # lines) =
     (if found then
        (case rx_search rx_lost_total line of
           None \<Rightarrow> Inr NoCounters
         | Some gs \<Rightarrow> bindR (py_int (gs ! 0)) (\<lambda>l. bindR (py_int (gs ! 1)) (\<lambda>t. Inr (Counters l t))))
      else udp_counters (str_in ''Jitter'' line) lines)"

text \<open>
  \<open>int(float((total - lost) * 63 * 1024) / 10.0 * 8 / 1000)\<close>: the quotient by 1250, truncated towards
  zero.  A quotient that is no integer is at least 1/625 away from one, so rounding does not matter below \<open>2 ^ 40\<close>.
\<close>

definition udp_rate :: "int \<Rightarrow> int \<Rightarrow> int" where
  "udp_rate lost tot = (let x = (tot - lost) * 63 * 1024 in sgn x * (abs x div 1250))"

definition udp_verdict :: "int \<Rightarrow> int \<Rightarrow> rate" where
  "udp_verdict lost tot =
     (if lost = tot then RateZero else RateText (fmt [int_str (udp_rate lost tot), '' Kbits/sec'']))"

definition verify_iperf_udp_result :: "string option \<Rightarrow> (world, rate) em" where
  "verify_iperf_udp_result log =
     bindE (liftE (udp_counters False (readlines (log_text log)))) (\<lambda>c.
     case c of
       NoCounters \<Rightarrow> retE RateZero
     | NoSummary \<Rightarrow> retE (udp_verdict 0 0)
     | Counters lost tot \<Rightarrow> retE (udp_verdict lost tot))"

section \<open>netperf\<close>

fun netperf_line :: "string list \<Rightarrow> string option" where
  "netperf_line [] = None"
| "netperf_line (line # lines) =
     (case rx_search rx_netperf line of None \<Rightarrow> netperf_line lines | Some gs \<Rightarrow> Some (gs ! 5))"

definition process_netperf_result :: "string \<Rightarrow> string \<Rightarrow> (world, string) em" where
  "process_netperf_result out testname =
     (case netperf_line (readlines out) of
        Some r \<Rightarrow> retE r
      | None \<Rightarrow> thenE (logW (fmt [testname, '' doesn'', squote, ''t have valid result.''])) (retE ''0''))"

end
