(* ===== verification/Guest.thy ===== *)
theory Guest imports Guest_Results begin

text \<open>
  The class \<open>Guest\<close> of \<open>guest.py\<close>: running commands in a machine and on its host, configuring its
  interfaces, and the connectivity, throughput and file transfer tests.  A guest is the record of its
  machine; its methods act on the world.
\<close>

type_synonym answer = "int option \<times> string option \<times> string option"

section \<open>Running commands\<close>

definition guest_kill_process :: "ssh_env \<Rightarrow> vm \<Rightarrow> string \<Rightarrow> (world, unit) em" where
  "guest_kill_process env m proc_name = kill_process env (vm_ssh_info m) proc_name"

text \<open>\<open>exec_cmd\<close> with its triple of values, which are all \<open>None\<close> if the call could not be made.\<close>

definition exec_triple :: "ssh_env \<Rightarrow> node \<Rightarrow> string \<Rightarrow> nat \<Rightarrow> bool \<Rightarrow> (world, answer) em" where
  "exec_triple env n cmd timeout sudo =
     bindE (exec_cmd env (Some n) (CmdStr cmd) (Some timeout) sudo False) (\<lambda>res.
     retE (case res of None \<Rightarrow> (None, None, None) | Some (rc, out, er) \<Rightarrow> (Some rc, Some out, Some er)))"

definition logX :: "string \<Rightarrow> (world, unit) em" where
  "logX msg = logE LError msg"

definition guest_execute ::
  "ssh_env \<Rightarrow> vm \<Rightarrow> string \<Rightarrow> nat \<Rightarrow> bool \<Rightarrow> bool option \<Rightarrow> (world, int \<times> string option \<times> string option) em" where
  "guest_execute env m cmd timeout sudo exp_fail =
     (let timeout' = (if exp_fail = Some True then 30 else timeout) in
      bindE (tryE (exec_triple env (vm_ssh_info m) cmd timeout' sudo)
               (\<lambda>e. if e = SSHTimeout then retE (Some (- 1), Some [], Some []) else raiseE e))
        (\<lambda>(rc, out, er).
           if rc = None \<or> rc \<noteq> Some 0 then
             thenE (whenE (exp_fail = Some False) (logX (fmt [''Execute cmd failed on '', vm_name m, '' : '', cmd])))
                   (retE (- 1, out, er))
           else
             thenE (whenE (exp_fail = Some True) (logX (fmt [''Execute cmd should fail on '', vm_name m, '' : '', cmd])))
                   (retE (0, out, er))))"

text \<open>\<open>self.execute(cmd)\<close> with its default arguments, and the same with its result dropped.\<close>

definition guest_exec :: "ssh_env \<Rightarrow> vm \<Rightarrow> string \<Rightarrow> (world, int \<times> string option \<times> string option) em" where
  "guest_exec env m cmd = guest_execute env m cmd 30 True (Some False)"

definition guest_run :: "ssh_env \<Rightarrow> vm \<Rightarrow> string \<Rightarrow> (world, unit) em" where
  "guest_run env m cmd = thenE (guest_exec env m cmd) (retE ())"

definition guest_execute_batch :: "ssh_env \<Rightarrow> vm \<Rightarrow> string list \<Rightarrow> (world, unit) em" where
  "guest_execute_batch env m cmds = forE cmds (guest_run env m)"

definition guest_execute_host :: "ssh_env \<Rightarrow> vm \<Rightarrow> string \<Rightarrow> nat \<Rightarrow> (world, int \<times> string option \<times> string option) em" where
  "guest_execute_host env m cmd timeout =
     bindE (exec_triple env (vm_host_ssh_info m) cmd timeout True) (\<lambda>(rc, out, er).
     if rc = None \<or> rc \<noteq> Some 0 then
       raiseE (RuntimeError (fmt [''Execute host cmd failed on '', nd_host (vm_host_ssh_info m), '' : '', cmd]))
     else retE (0, out, er))"

definition guest_run_host :: "ssh_env \<Rightarrow> vm \<Rightarrow> string \<Rightarrow> (world, unit) em" where
  "guest_run_host env m cmd = thenE (guest_execute_host env m cmd 30) (retE ())"

definition guest_execute_host_batch :: "ssh_env \<Rightarrow> vm \<Rightarrow> string list \<Rightarrow> nat \<Rightarrow> (world, unit) em" where
  "guest_execute_host_batch env m cmds timeout =
     forE cmds (\<lambda>cmd. thenE (guest_execute_host env m cmd timeout) (retE ()))"

section \<open>Configuration\<close>

definition add_vif :: "nat \<Rightarrow> vm \<Rightarrow> vm" where
  "add_vif r m = m\<lparr>vm_vifs := vm_vifs m @ [r]\<rparr>"

definition virtio :: "vif \<Rightarrow> string" where
  "virtio v = ''virtio'' @ (case vif_idx v of None \<Rightarrow> ''None'' | Some i \<Rightarrow> int_str i)"

definition configure_vif :: "ssh_env \<Rightarrow> vm \<Rightarrow> nat \<Rightarrow> (world, unit) em" where
  "configure_vif env m r =
     bindE (readE (\<lambda>w. bindR (attr_of (vif_addr (w_vifs w r))) (\<lambda>a. Inr (w_vifs w r, a)))) (\<lambda>(v, a).
     thenE (guest_execute_batch env m
              [fmt [''ip -4 addr add '', ipv4_str_with_prefix a, '' dev '', virtio v],
               fmt [''ip -6 addr add '', ipv6_str_with_prefix a, '' dev '', virtio v],
               fmt [''ip link set '', virtio v, '' up'']])
           (whenE (vif_qpair v > 1)
              (forE [2..vif_qpair v] (\<lambda>q.
                 guest_run env m (fmt [''ethtool -L '', virtio v, '' combined '', int_str q])))))"

definition configure_interface :: "ssh_env \<Rightarrow> vm \<Rightarrow> (world, unit) em" where
  "configure_interface env m =
     thenE (guest_run env m ''ip addr list'') (forE (vm_vifs m) (configure_vif env m))"

definition configure_mtu :: "ssh_env \<Rightarrow> vm \<Rightarrow> int \<Rightarrow> (world, unit) em" where
  "configure_mtu env m mtu =
     forE (vm_vifs m) (\<lambda>r.
       bindE (getE (\<lambda>w. virtio (w_vifs w r))) (\<lambda>dev.
       guest_run env m (fmt [''ip link set '', dev, '' mtu '', int_str mtu])))"

definition configure :: "ssh_env \<Rightarrow> vm \<Rightarrow> (world, unit) em" where
  "configure env m = configure_interface env m"

section \<open>ping\<close>

text \<open>The verdict is not used; \<open>not exp_fail\<close> also holds of \<open>None\<close>.\<close>

definition exec_ping :: "ssh_env \<Rightarrow> vm \<Rightarrow> string \<Rightarrow> nat \<Rightarrow> bool option \<Rightarrow> (world, unit) em" where
  "exec_ping env m cmd cnt exp_fail =
     bindE (guest_execute env m cmd 30 True exp_fail) (\<lambda>(rc, out, er).
     whenE (exp_fail \<noteq> Some True) (thenE (verify_ping_result out cnt) (retE ())))"

definition ping_cmds :: "string \<Rightarrow> nat \<Rightarrow> ipaddr \<Rightarrow> string list" where
  "ping_cmds ping cnt ip = map (\<lambda>size. fmt [ping, '' -c '', nat_str cnt, '' -i 0.3'', size, '' '', ip_str ip])
     [[], '' -s 1600'', '' -s 3200'']"

definition ping_ipv4_addr :: "ssh_env \<Rightarrow> vm \<Rightarrow> ipaddr \<Rightarrow> bool option \<Rightarrow> (world, unit) em" where
  "ping_ipv4_addr env m ip exp_fail = forE (ping_cmds ''ping'' 5 ip) (\<lambda>cmd. exec_ping env m cmd 5 exp_fail)"

definition ping_ipv6_addr :: "ssh_env \<Rightarrow> vm \<Rightarrow> ipaddr \<Rightarrow> bool option \<Rightarrow> (world, unit) em" where
  "ping_ipv6_addr env m ip exp_fail = forE (ping_cmds ''ping -6'' 5 ip) (\<lambda>cmd. exec_ping env m cmd 5 exp_fail)"

section \<open>netperf\<close>

definition v6_option :: "bool \<Rightarrow> string" where
  "v6_option ipv4 = (if ipv4 then [] else ''-6'')"

definition start_netperf_server :: "ssh_env \<Rightarrow> vm \<Rightarrow> bool \<Rightarrow> (world, unit) em" where
  "start_netperf_server env m ipv4 = guest_run env m (''netserver '' @ v6_option ipv4)"

definition stop_netperf_server :: "ssh_env \<Rightarrow> vm \<Rightarrow> (world, unit) em" where
  "stop_netperf_server env m = kill_process env (vm_ssh_info m) ''netserver''"

text \<open>The pair \<open>(True, result)\<close>, or \<open>None\<close> for \<open>(False, -1)\<close>.\<close>

definition run_netperf_client :: "ssh_env \<Rightarrow> vm \<Rightarrow> ipaddr \<Rightarrow> string \<Rightarrow> (world, string option) em" where
  "run_netperf_client env m server_ip testname =
     bindE (guest_exec env m (fmt [''netperf -H '', ip_str server_ip, '' -l 10 -t '', testname])) (\<lambda>(rc, out, er).
     if rc \<noteq> 0 then retE None
     else bindE (process_netperf_result (log_text out) testname) (\<lambda>r. retE (Some r)))"

definition execute_netperf :: "bool \<Rightarrow> ssh_env \<Rightarrow> vm \<Rightarrow> vm \<Rightarrow> ipaddr \<Rightarrow> string \<Rightarrow> (world, string) em" where
  "execute_netperf ipv4 env m server_vm server_ip testname =
     thenE (start_netperf_server env server_vm ipv4)
    (bindE (run_netperf_client env m server_ip testname) (\<lambda>r.
     thenE (stop_netperf_server env server_vm)
       (case r of
          None \<Rightarrow> raiseE (RuntimeError ''NetPerf Not Successful'')
        | Some s \<Rightarrow> retE (fmt [if ipv4 then ''TCP_RR ipv4 '' else ''TCP_RR ipv6 '', s, '' Tran/sec'']))))"

definition execute_netperf_ipv4 :: "ssh_env \<Rightarrow> vm \<Rightarrow> vm \<Rightarrow> ipaddr \<Rightarrow> string \<Rightarrow> (world, string) em" where
  "execute_netperf_ipv4 = execute_netperf True"

definition execute_netperf_ipv6 :: "ssh_env \<Rightarrow> vm \<Rightarrow> vm \<Rightarrow> ipaddr \<Rightarrow> string \<Rightarrow> (world, string) em" where
  "execute_netperf_ipv6 = execute_netperf False"

section \<open>iperf\<close>

definition start_iperf_server :: "ssh_env \<Rightarrow> vm \<Rightarrow> bool \<Rightarrow> (world, unit) em" where
  "start_iperf_server env m ipv4 = guest_run env m (fmt [''iperf3 '', v6_option ipv4, '' -s -D''])"

definition stop_iperf_server :: "ssh_env \<Rightarrow> vm \<Rightarrow> (world, unit) em" where
  "stop_iperf_server env m = kill_process env (vm_ssh_info m) ''iperf3''"

fun ip_is_v4 :: "ipaddr \<Rightarrow> bool" where
  "ip_is_v4 (IPv4Address _) = True"
| "ip_is_v4 (IPv6Address _) = False"

definition iperf_cmd :: "ipaddr \<Rightarrow> int \<Rightarrow> string \<Rightarrow> int \<Rightarrow> string" where
  "iperf_cmd server_ip bw proto parallel =
     (let options = v6_option (ip_is_v4 server_ip) @ (if bw \<noteq> 0 then fmt ['' -b '', int_str bw, ''K ''] else []);
          udp_options = (if proto = ''udp'' then ''-u -l 63k'' else []);
          parallel_options = (if parallel > 1 then ''-P '' @ int_str parallel else [])
      in fmt [''iperf3 '', options, '' -c '', ip_str server_ip, '' -t 10 -f k '', udp_options, '' '', parallel_options])"

definition run_iperf_client ::
  "ssh_env \<Rightarrow> vm \<Rightarrow> ipaddr \<Rightarrow> int \<Rightarrow> string \<Rightarrow> int \<Rightarrow> bool option \<Rightarrow> (world, rate) em" where
  "run_iperf_client env m server_ip bw proto parallel exp_fail =
     bindE (guest_execute env m (iperf_cmd server_ip bw proto parallel) 50 True exp_fail) (\<lambda>(rc, out, er).
     if exp_fail = Some True then retE RateZero
     else if proto = ''udp'' then verify_iperf_udp_result out
     else verify_iperf_result out)"

definition execute_iperf ::
  "bool \<Rightarrow> ssh_env \<Rightarrow> vm \<Rightarrow> vm \<Rightarrow> ipaddr \<Rightarrow> int \<Rightarrow> string \<Rightarrow> int \<Rightarrow> bool option \<Rightarrow> (world, string) em" where
  "execute_iperf ipv4 env m server_vm server_ip bw proto parallel exp_fail =
     thenE (start_iperf_server env server_vm ipv4)
    (bindE (run_iperf_client env m server_ip bw proto parallel exp_fail) (\<lambda>rate.
     thenE (stop_iperf_server env server_vm)
       (retE (fmt [proto, if ipv4 then '' ipv4'' else '' ipv6'', '' throughput: '', rate_str rate]))))"

definition execute_iperf_ipv4 ::
  "ssh_env \<Rightarrow> vm \<Rightarrow> vm \<Rightarrow> ipaddr \<Rightarrow> int \<Rightarrow> string \<Rightarrow> int \<Rightarrow> bool option \<Rightarrow> (world, string) em" where
  "execute_iperf_ipv4 = execute_iperf True"

definition execute_iperf_ipv6 ::
  "ssh_env \<Rightarrow> vm \<Rightarrow> vm \<Rightarrow> ipaddr \<Rightarrow> int \<Rightarrow> string \<Rightarrow> int \<Rightarrow> bool option \<Rightarrow> (world, string) em" where
  "execute_iperf_ipv6 = execute_iperf False"

section \<open>File transfer\<close>

definition make_file :: "ssh_env \<Rightarrow> vm \<Rightarrow> string \<Rightarrow> (world, unit) em" where
  "make_file env m fname = guest_run env m (fmt [''dd if=/dev/urandom of=./'', fname, '' bs=1k count=1k''])"

definition rm_file :: "ssh_env \<Rightarrow> vm \<Rightarrow> string \<Rightarrow> (world, unit) em" where
  "rm_file env m fname = guest_run env m (''rm '' @ fname)"

definition some_text :: "string option \<Rightarrow> bool" where
  "some_text x = (x \<noteq> None \<and> x \<noteq> Some [])"

definition compare_files :: "ssh_env \<Rightarrow> vm \<Rightarrow> string \<Rightarrow> string \<Rightarrow> (world, unit) em" where
  "compare_files env m file1 file2 =
     bindE (guest_exec env m (fmt [''diff '', file1, '' '', file2])) (\<lambda>(rc, out, er).
     whenE (some_text out \<or> some_text er) (logX ''test files are not identical''))"

definition transfer :: "ssh_env \<Rightarrow> vm \<Rightarrow> vm \<Rightarrow> string list \<Rightarrow> (world, unit) em" where
  "transfer env m server_vm cmds =
     thenE (make_file env m ''tfile'')
    (thenE (guest_execute_batch env m cmds)
    (thenE (compare_files env m ''tfile'' ''tfile_local'')
    (thenE (rm_file env m ''tfile'')
    (thenE (rm_file env m ''tfile_local'')
           (rm_file env server_vm ''/tmp/tfile_remote'')))))"

definition execute_tftp :: "ssh_env \<Rightarrow> vm \<Rightarrow> vm \<Rightarrow> ipaddr \<Rightarrow> (world, unit) em" where
  "execute_tftp env m server_vm server_ip =
     transfer env m server_vm
       [fmt [''tftp '', ip_str server_ip, '' -c put tfile tfile_remote''],
        fmt [''tftp '', ip_str server_ip, '' -c get tfile_remote tfile_local'']]"

definition ftp_base :: "ipaddr \<Rightarrow> bool \<Rightarrow> string" where
  "ftp_base server_ip active =
     (let ipv4 = ip_is_v4 server_ip in
      fmt [''sudo curl '',
        (if active then ''--ftp-port - '' @ (if ipv4 then ''--disable-eprt '' else [])
         else ''--ftp-pasv '' @ (if ipv4 then ''--disable-epsv '' else [])),
        ''ftp://'', (if ipv4 then ip_str server_ip else fmt [''['', ip_str server_ip, '']''])])"

definition execute_ftp :: "ssh_env \<Rightarrow> vm \<Rightarrow> vm \<Rightarrow> ipaddr \<Rightarrow> bool \<Rightarrow> (world, unit) em" where
  "execute_ftp env m server_vm server_ip active =
     (let base = ftp_base server_ip active; user = fmt ['' --user '', dquote, ''cne:cne'', dquote] in
      transfer env m server_vm
        [fmt [base, ''/tfile_remote'', user, '' -T ./tfile --ftp-create-dirs''],
         fmt [base, ''/tfile_remote'', user, '' -o ./tfile_local --ftp-create-dirs'']])"

end
