(* ===== verification/Guest_Props.thy ===== *)
theory Guest_Props imports Guest begin

text \<open>
  What the guest layer promises: the commands a guest sends, when an outcome is reported as an error,
  what a positive verdict on a \<open>ping\<close> output means, and the result of an \<open>iperf3\<close> run.
\<close>

section \<open>The language of a pattern\<close>

text \<open>\<open>rx_spans r u gs\<close>: the pattern matches exactly the text \<open>u\<close>, with these groups.\<close>

fun rx_spans :: "rx \<Rightarrow> string \<Rightarrow> string list \<Rightarrow> bool" where
  "rx_spans (RCls p) u gs \<longleftrightarrow> (\<exists>c. u = [c] \<and> p c) \<and> gs = []"
| "rx_spans (RStar p) u gs \<longleftrightarrow> list_all p u \<and> gs = []"
| "rx_spans (RSeq a b) u gs \<longleftrightarrow>
     (\<exists>u1 u2 g1 g2. u = u1 @ u2 \<and> gs = g1 @ g2 \<and> rx_spans a u1 g1 \<and> rx_spans b u2 g2)"
| "rx_spans (ROpt a) u gs \<longleftrightarrow> rx_spans a u gs \<or> (u = [] \<and> gs = [])"
| "rx_spans (RGrp a) u gs \<longleftrightarrow> (\<exists>hs. rx_spans a u hs \<and> gs = hs @ [u])"

lemma rx_run_spans:
  "(t, hs) \<in> set (rx_run r s gs) \<Longrightarrow> \<exists>u hs'. s = u @ t \<and> hs = gs @ hs' \<and> rx_spans r u hs'"
proof (induction r arbitrary: s gs t hs)
  case (RCls p)
  then show ?case by (cases s) (auto split: if_splits)
next
  case (RStar p)
  then show ?case using star_rests_suffix by fastforce
next
  case (RSeq a b)
  then obtain t1 h1 where 1: "(t1, h1) \<in> set (rx_run a s gs)" and 2: "(t, hs) \<in> set (rx_run b t1 h1)"
    by auto
  from RSeq.IH(1) [OF 1] RSeq.IH(2) [OF 2] show ?case by fastforce
next
  case (ROpt a)
  then show ?case by fastforce
next
  case (RGrp a)
  then obtain h where h: "(t, h) \<in> set (rx_run a s gs)" "hs = h @ [take (length s - length t) s]" by auto
  from RGrp.IH [OF h(1)] h(2) show ?case by fastforce
qed

lemma rx_search_spans: "rx_search r s = Some gs \<Longrightarrow> \<exists>a u b. s = a @ u @ b \<and> rx_spans r u gs"
proof (induction s)
  case Nil
  then obtain t ts where "rx_run r [] [] = (t, gs) # ts" by (auto split: list.splits prod.splits)
  then have "(t, gs) \<in> set (rx_run r [] [])" by simp
  from rx_run_spans [OF this] show ?case by auto
next
  case (Cons c cs)
  show ?case
  proof (cases "rx_run r (c # cs) []")
    case Nil
    with Cons obtain a u b where "cs = a @ u @ b" "rx_spans r u gs" by auto
    then show ?thesis by (metis append_Cons)
  next
    case (Cons q qs)
    with Cons.prems obtain t where "(t, gs) \<in> set (rx_run r (c # cs) [])" by (cases q) auto
    from rx_run_spans [OF this] show ?thesis by (metis append_Nil)
  qed
qed

lemma spans_plus: "rx_spans (RPlus p) u gs \<longleftrightarrow> list_all p u \<and> u \<noteq> [] \<and> gs = []"
proof (cases u)
  case (Cons c v)
  have "(\<exists>u1 u2. c # v = u1 @ u2 \<and> (\<exists>d. u1 = [d] \<and> p d) \<and> list_all p u2) \<longleftrightarrow> p c \<and> list_all p v"
    by (auto intro: exI [of _ "[c]"])
  with Cons show ?thesis by (auto simp: RPlus_def)
qed (auto simp: RPlus_def)

lemma spans_lit: "rx_spans (RLit w) u gs \<longleftrightarrow> u = w \<and> gs = []"
proof (induction w arbitrary: u gs rule: RLit.induct)
  case 1
  then show ?case by (cases u) auto
qed (auto simp: RChr_def)

text \<open>A text that has a count of something: blanks, digits, blanks and the word.\<close>

definition counts :: "string \<Rightarrow> string \<Rightarrow> int \<Rightarrow> bool" where
  "counts word s n \<longleftrightarrow> (\<exists>a b ds c e. s = a @ b @ ds @ c @ word @ e
     \<and> list_all py_space b \<and> b \<noteq> [] \<and> list_all is_digit ds \<and> ds \<noteq> [] \<and> list_all py_space c \<and> c \<noteq> []
     \<and> py_int ds = Inr n)"

lemma search_counts: "rx_search (rx_count word) s = Some gs \<Longrightarrow> py_int (gs ! 0) = Inr n \<Longrightarrow> counts word s n"
proof -
  assume 1: "rx_search (rx_count word) s = Some gs" and 2: "py_int (gs ! 0) = Inr n"
  from rx_search_spans [OF 1] obtain a u b where u: "s = a @ u @ b" "rx_spans (rx_count word) u gs" by blast
  then obtain x ds y where "u = x @ ds @ y @ word" "gs = [ds]" "list_all py_space x \<and> x \<noteq> []"
    "list_all is_digit ds \<and> ds \<noteq> []" "list_all py_space y \<and> y \<noteq> []"
    by (auto simp: rx_count_def rx_spaces_def rx_digits_def spans_plus spans_lit)
  with u 2 show "counts word s n" unfolding counts_def
    by (intro exI [of _ a] exI [of _ x] exI [of _ ds] exI [of _ y] exI [of _ b]) simp
qed

section \<open>Commands\<close>

lemma exec_triple_sends:
  assumes "exec_triple env n cmd t sudo w = (r, w')"
  shows "(w_sent w' = w_sent w \<or> w_sent w' = w_sent w @ [(n, wire sudo (CmdStr cmd))])
     \<and> (\<forall>rc out er. r = Inr (Some rc, out, er) \<longrightarrow> w_sent w' = w_sent w @ [(n, wire sudo (CmdStr cmd))])"
proof -
  obtain r1 w1 where 1: "exec_cmd env (Some n) (CmdStr cmd) (Some t) sudo False w = (r1, w1)" by fastforce
  with assms have "w' = w1" "\<And>rc out er. r = Inr (Some rc, out, er) \<Longrightarrow> \<exists>x. r1 = Inr (Some x)"
    by (auto simp: exec_triple_def em_simps split: sum.splits option.splits)
  with exec_cmd_sends [OF 1] show ?thesis by blast
qed

lemma logE_sent [simp]: "w_sent (snd (logE l msg w)) = w_sent w"
  by (simp add: logE_def em_simps)

lemma exec_triple_clock: "exec_triple env n cmd t sudo w = (r, w') \<Longrightarrow> w_clock w \<le> w_clock w'"
  by (auto simp: exec_triple_def em_simps split: prod.splits sum.splits dest: exec_cmd_clock)

lemma guest_execute_clock: "guest_execute env m cmd t sudo ef w = (r, w') \<Longrightarrow> w_clock w \<le> w_clock w'"
proof -
  assume run: "guest_execute env m cmd t sudo ef w = (r, w')"
  obtain r1 w1 where 1: "exec_triple env (vm_ssh_info m) cmd (if ef = Some True then 30 else t) sudo w = (r1, w1)"
    by fastforce
  have "w_clock (snd (guest_execute env m cmd t sudo ef w)) = w_clock w1"
    using 1 by (cases r1) (auto simp: guest_execute_def Let_def em_simps logX_def logE_def split: prod.splits)
  with run exec_triple_clock [OF 1] show ?thesis by simp
qed

lemma guest_execute_sends:
  "w_sent (snd (guest_execute env m cmd t sudo ef w)) = w_sent w
   \<or> w_sent (snd (guest_execute env m cmd t sudo ef w)) = w_sent w @ [(vm_ssh_info m, wire sudo (CmdStr cmd))]"
proof -
  obtain r w1 where 1: "exec_triple env (vm_ssh_info m) cmd (if ef = Some True then 30 else t) sudo w = (r, w1)"
    by fastforce
  have "w_sent (snd (guest_execute env m cmd t sudo ef w)) = w_sent w1"
    using 1 by (cases r) (auto simp: guest_execute_def Let_def em_simps logX_def logE_def split: prod.splits)
  with exec_triple_sends [OF 1] show ?thesis by simp
qed

interpretation guest_runner: cmd_runner
  "\<lambda>c. guest_execute env m c t sudo ef" w_sent "\<lambda>c. (vm_ssh_info m, wire sudo (CmdStr c))" for env m t sudo ef
  by unfold_locales (rule guest_execute_sends)

interpretation guest_host_runner: strict_runner
  "\<lambda>c. guest_execute_host env m c t" w_sent "\<lambda>c. (vm_host_ssh_info m, wire True (CmdStr c))" for env m t
proof
  fix c s
  obtain r w1 where 1: "exec_triple env (vm_host_ssh_info m) c t True s = (r, w1)" by fastforce
  have w: "snd (guest_execute_host env m c t s) = w1"
    using 1 by (cases r) (auto simp: guest_execute_host_def em_simps split: prod.splits)
  with exec_triple_sends [OF 1]
  show "w_sent (snd (guest_execute_host env m c t s)) = w_sent s \<or>
      w_sent (snd (guest_execute_host env m c t s)) = w_sent s @ [(vm_host_ssh_info m, wire True (CmdStr c))]"
    by simp
  show "w_sent (snd (guest_execute_host env m c t s)) = w_sent s @ [(vm_host_ssh_info m, wire True (CmdStr c))]"
    if "fst (guest_execute_host env m c t s) = Inr y" for y
  proof -
    have "\<exists>rc out er. r = Inr (Some rc, out, er)"
      using that 1 by (cases r) (auto simp: guest_execute_host_def em_simps split: prod.splits if_splits)
    with exec_triple_sends [OF 1] w show ?thesis by auto
  qed
qed

text \<open>A guest in the cooperative environment.\<close>

lemma echo_guest_execute [simp]:
  "cmd \<noteq> [] \<Longrightarrow> guest_execute (echo_env f) m cmd t sudo ef w =
     (let a = f (wire sudo (CmdStr cmd)); w1 = quiet_next (vm_ssh_info m) sudo (CmdStr cmd) w;
          bad = (if fst a = 0 then ef = Some True else ef = Some False) in
      (Inr (if fst a = 0 then 0 else - 1, Some (snd a), Some []),
       if bad then w1\<lparr>w_log := w_log w1 @ [(LError, fmt [if fst a = 0 then ''Execute cmd should fail on ''
         else ''Execute cmd failed on '', vm_name m, '' : '', cmd])]\<rparr> else w1))"
  by (auto simp: guest_execute_def Let_def exec_triple_def em_simps logX_def logE_def)

section \<open>The bandwidth of a run\<close>

lemma iperf_loop_result:
  "map py_float rs = map Inr vs \<Longrightarrow>
   fst (iperf_loop rs v z w) = Inr
     (if vs \<noteq> [] \<and> z + length (filter (\<lambda>(m, k). m = 0) vs) > 5 \<and> \<not> (z > 5 \<and> filter (\<lambda>(m, k). m = 0) vs = [])
      then RateFail
      else RateText (fmt [nat_str (let (m, k) = last (v # vs) in m div 10 ^ k), '' Kbits/sec'']))"
proof (induction rs arbitrary: v vs z w)
  case Nil
  then show ?case by (cases v) (simp add: em_simps)
next
  case (Cons r rs)
  then obtain m k vs' where vs: "vs = (m, k) # vs'" "py_float r = Inr (m, k)" "map py_float rs = map Inr vs'"
    by (cases vs) auto
  show ?case
  proof (cases "m = 0")
    case False
    with vs Cons.IH [OF vs(3), of "(m, k)" z w] show ?thesis
      by (cases v) (simp add: em_simps)
  next
    case True
    obtain w1 where w1: "logW (fmt [''zero Bandwidth accumulated count:'', nat_str (Suc z)]) w = (Inr (), w1)"
      by (simp add: logW_def logE_def em_simps)
    show ?thesis
    proof (cases "Suc z > 5")
      case big: True
      obtain w2 where "logW ''zero Bandwidth exceed threshold'' w1 = (Inr (), w2)"
        by (simp add: logW_def logE_def em_simps)
      with True vs w1 big show ?thesis by (cases v) (simp add: em_simps)
    next
      case False
      with True vs w1 Cons.IH [OF vs(3), of "(m, k)" "Suc z" w1] show ?thesis
        by (cases v) (simp add: em_simps)
    qed
  qed
qed

section \<open>Properties\<close>

text \<open>
  C38 A positive verdict on a \<open>ping\<close> output is never given without reason: the output states that exactly
  the expected number of packets was sent and states a number received that is at least that.
\<close>

theorem ping_verdict_sound:
  assumes "verify_ping_result (Some l) cnt w = (Inr True, w')"
  shows "counts ''packets transmitted'' l (int cnt) \<and> (\<exists>n. counts ''received'' l n \<and> n \<ge> int cnt) \<and> w' = w"
proof -
  from assms obtain gs where 1: "rx_search (rx_count ''packets transmitted'') l = Some gs"
    by (auto simp: verify_ping_result_def returns logW_def split: option.splits)
  with assms obtain sent hs n where 2: "py_int (gs ! 0) = Inr sent" "rx_search (rx_count ''received'') l = Some hs"
      "py_int (hs ! 0) = Inr n" "sent = int cnt" "n \<ge> int cnt" "w' = w"
    by (auto simp: verify_ping_result_def returns group_def bindR_Inr_iff split: option.splits if_splits)
  from search_counts [OF 1 2(1)] search_counts [OF 2(2, 3)] 2 show ?thesis by auto
qed

definition ping_out :: string where
  "ping_out = fmt [[nl], ''5 packets transmitted, 5 received, 0% packet loss'']"

lemma ping_out_verdict: "verify_ping_result (Some ping_out) 5 w = (Inr True, w)"
proof -
  have "rx_search (rx_count ''packets transmitted'') ping_out = Some [''5'']"
    "rx_search (rx_count ''received'') ping_out = Some [''5'']"
    by (simp_all add: ping_out_def fmt_def nl_def rx_count_def rx_spaces_def rx_digits_def RPlus_def RChr_def
        py_space_def is_digit_def Let_def)
  moreover have "py_int ''5'' = Inr 5"
    using py_int_nat_str [of 5] by (simp add: nat_str_eval)
  ultimately show ?thesis
    by (simp add: verify_ping_result_def em_simps group_def)
qed

theorem ping_verdict_sound_witness: "counts ''packets transmitted'' ping_out 5"
  using ping_verdict_sound [OF ping_out_verdict [of world0]] by simp

text \<open>
  The result of a TCP run is the integer part of the last bandwidth \<open>iperf3\<close> printed, unless more than
  five of its lines show a bandwidth of zero; then it is the failure pair.
\<close>

theorem iperf_result_last:
  assumes "map py_float (bandwidths l) = map Inr vs" "vs \<noteq> []"
  shows "fst (verify_iperf_result (Some l) w) = Inr
     (if length (filter (\<lambda>(m, k). m = 0) vs) > 5 then RateFail
      else RateText (fmt [nat_str (let (m, k) = last vs in m div 10 ^ k), '' Kbits/sec'']))"
proof -
  have "bandwidths l \<noteq> []" using assms by auto
  with iperf_loop_result [OF assms(1), of "(0, 0)" 0 w] assms(2) show ?thesis
    by (simp add: verify_iperf_result_def log_text_def Let_def)
qed

definition iperf_out :: string where
  "iperf_out = fmt [''  0.00-1.00   sec  1.13 GBytes  123.75 Kbits/sec'', [nl], ''x 0.00 Kbits/sec'', [nl], ''s 96 Kbits/sec'']"

lemma iperf_out_bandwidths: "bandwidths iperf_out = [''123.75'', ''0.00'', ''96'']"
  by (simp add: bandwidths_def iperf_out_def fmt_def nl_def rx_kbits_def rx_spaces_def rx_digits_def RPlus_def RChr_def
      py_space_def is_digit_def Let_def)

theorem iperf_result_last_witness:
  "fst (verify_iperf_result (Some iperf_out) world0) = Inr (RateText ''96 Kbits/sec'')"
proof -
  have "map py_float (bandwidths iperf_out) = map Inr [(12375, 2), (0, 2), (96, 0)]"
    by (simp add: iperf_out_bandwidths py_float_def is_digit_def digit_val_def Let_def)
  from iperf_result_last [OF this] show ?thesis
    by (simp add: nat_str_eval fmt_def)
qed

end
