(* ===== verification/Py_Json.thy ===== *)
theory Py_Json imports Ovs_Objects begin

text \<open>
  The reader of Python's \<open>json\<close> module, as far as the answers of QEMU's machine protocol need it:
  objects, arrays, strings with their escapes, integers and the three literals.  A number with a fraction or an
  exponent keeps its text.  Everything that is not JSON raises \<open>JSONDecodeError\<close>, a \<open>ValueError\<close>.
\<close>

datatype json =
    JNull
  | JBool bool
  | JInt int
  | JFloat string
  | JStr string
  | JArr "json list"
  | JObj "(string \<times> json) list"

type_synonym 'a jparser = "string \<Rightarrow> ('a \<times> string) res"

definition js_space :: "char \<Rightarrow> bool" where
  "js_space c = (c = CHR '' '' \<or> c = CHR 0x09 \<or> c = CHR 0x0A \<or> c = CHR 0x0D)"

definition js_skip :: "string \<Rightarrow> string" where
  "js_skip s = dropWhile js_space s"

lemma js_skip_le: "length (js_skip s) \<le> length s"
  by (simp add: js_skip_def length_dropWhile_le)

definition js_escape :: "char \<Rightarrow> char option" where
  "js_escape c =
     (if c = CHR 0x22 \<or> c = CHR 0x5C \<or> c = CHR ''/'' then Some c
      else if c = CHR ''b'' then Some (CHR 0x08) else if c = CHR ''f'' then Some (CHR 0x0C)
      else if c = CHR ''n'' then Some (CHR 0x0A) else if c = CHR ''r'' then Some (CHR 0x0D)
      else if c = CHR ''t'' then Some (CHR 0x09) else None)"

text \<open>The rest of a string after its opening quote; \<open>\u\<close> escapes, which QEMU's answers do not have, are not read.\<close>

fun js_string :: "string jparser" where
  "js_string [] = Inl ValueError"
| "js_string (c # cs) =
     (if c = CHR 0x22 then Inr ([], cs)
      else if c = CHR 0x5C then
        (case cs of
           [] \<Rightarrow> Inl ValueError
         | d # ds \<Rightarrow>
             (case js_escape d of
                None \<Rightarrow> Inl ValueError
              | Some e \<Rightarrow> bindR (js_string ds) (\<lambda>(s, r). Inr (e # s, r))))
      else if (of_char c :: nat) < 32 then Inl ValueError
      else bindR (js_string cs) (\<lambda>(s, r). Inr (c # s, r)))"

text \<open>A number: an optional sign, digits without a leading zero, and possibly a fraction and an exponent.\<close>

definition js_digits :: "string \<Rightarrow> string \<times> string" where
  "js_digits s = (takeWhile is_digit s, dropWhile is_digit s)"

definition js_frac :: "string \<Rightarrow> string \<times> string" where
  "js_frac s = (case s of
     [] \<Rightarrow> ([], s)
   | c # cs \<Rightarrow> (case js_digits cs of (ds, r) \<Rightarrow> if c = CHR ''.'' \<and> ds \<noteq> [] then (c # ds, r) else ([], s)))"

definition js_exp :: "string \<Rightarrow> string \<times> string" where
  "js_exp s = (case s of
     [] \<Rightarrow> ([], s)
   | c # cs \<Rightarrow>
       if c \<noteq> CHR ''e'' \<and> c \<noteq> CHR ''E'' then ([], s)
       else (let (sg, cs') = (case cs of [] \<Rightarrow> ([], cs) | d # ds \<Rightarrow> if d = CHR ''+'' \<or> d = CHR ''-'' then ([d], ds) else ([], cs));
                 (ds, r) = js_digits cs'
             in if ds = [] then ([], s) else (c # sg @ ds, r)))"

definition js_number :: "json jparser" where
  "js_number s =
     (let (neg, s1) = (case s of [] \<Rightarrow> ([], s) | c # cs \<Rightarrow> if c = CHR ''-'' then ([c], cs) else ([], s));
          (ds0, r0) = js_digits s1;
          (ds, r1) = (case s1 of [] \<Rightarrow> ([], s1) | c # cs \<Rightarrow> if c = CHR ''0'' then ([c], cs) else (ds0, r0));
          (fr, r2) = js_frac r1; (ex, r3) = js_exp r2
      in if ds = [] then Inl ValueError
         else if fr = [] \<and> ex = [] then bindR (py_int (neg @ ds)) (\<lambda>i. Inr (JInt i, r3))
         else Inr (JFloat (neg @ ds @ fr @ ex), r3))"

text \<open>An object with a key twice keeps the later value at the place of the first.\<close>

fun js_put :: "string \<Rightarrow> json \<Rightarrow> (string \<times> json) list \<Rightarrow> (string \<times> json) list" where
  "js_put k v [] = [(k, v)]"
| "js_put k v ((l, w) # kvs) = (if k = l then (k, v) # kvs else (l, w) # js_put k v kvs)"

text \<open>
  A value, the elements of an array after \<open>[\<close> or a comma, the members of an object likewise.  Every
  step has consumed at least one character when it goes on, which the tests of the lengths say.
\<close>

datatype js_task = TVal | TElems "json list" | TMembers "(string \<times> json) list"

function js_run :: "js_task \<Rightarrow> json jparser" where
  "js_run TVal s =
     (case s of
        [] \<Rightarrow> Inl ValueError
      | c # cs \<Rightarrow>
          if c = CHR 0x22 then bindR (js_string cs) (\<lambda>(x, r). Inr (JStr x, r))
          else if c = CHR ''{'' then
            (case js_skip cs of
               [] \<Rightarrow> Inl ValueError
             | d # ds \<Rightarrow> if d = CHR ''}'' then Inr (JObj [], ds) else js_run (TMembers []) (d # ds))
          else if c = CHR ''['' then
            (case js_skip cs of
               [] \<Rightarrow> Inl ValueError
             | d # ds \<Rightarrow> if d = CHR '']'' then Inr (JArr [], ds) else js_run (TElems []) (d # ds))
          else if starts_with ''null'' s then Inr (JNull, drop 4 s)
          else if starts_with ''true'' s then Inr (JBool True, drop 4 s)
          else if starts_with ''false'' s then Inr (JBool False, drop 5 s)
          else js_number s)"
| "js_run (TElems acc) s =
     bindR (js_run TVal s) (\<lambda>(v, r).
       case js_skip r of
         [] \<Rightarrow> Inl ValueError
       | d # ds \<Rightarrow>
           if d = CHR '']'' then Inr (JArr (acc @ [v]), ds)
           else if d = CHR '','' \<and> length (js_skip ds) < length s then js_run (TElems (acc @ [v])) (js_skip ds)
           else Inl ValueError)"
| "js_run (TMembers acc) s =
     (case s of
        [] \<Rightarrow> Inl ValueError
      | q # qs \<Rightarrow>
          if q \<noteq> CHR 0x22 then Inl ValueError
          else bindR (js_string qs) (\<lambda>(k, r).
            case js_skip r of
              [] \<Rightarrow> Inl ValueError
            | d # ds \<Rightarrow>
                if d \<noteq> CHR '':'' \<or> \<not> length (js_skip ds) < length s then Inl ValueError
                else bindR (js_run TVal (js_skip ds)) (\<lambda>(v, r2).
                  case js_skip r2 of
                    [] \<Rightarrow> Inl ValueError
                  | e # es \<Rightarrow>
                      if e = CHR ''}'' then Inr (JObj (js_put k v acc), es)
                      else if e = CHR '','' \<and> length (js_skip es) < length s
                      then js_run (TMembers (js_put k v acc)) (js_skip es)
                      else Inl ValueError)))"
  by pat_completeness auto

termination
proof (relation "measures [\<lambda>(t, s). length s, \<lambda>(t, s). case t of TVal \<Rightarrow> 0 | _ \<Rightarrow> 1]")
  fix s :: string and x :: char and xs d ds
  assume "js_skip xs = d # ds"
  then have "length (d # ds) \<le> length xs" using js_skip_le [of xs] by simp
  then show "s = x # xs \<Longrightarrow> ((TMembers [], d # ds), (TVal, s)) \<in> measures [\<lambda>(t, s). length s, \<lambda>(t, s). case t of TVal \<Rightarrow> 0 | _ \<Rightarrow> 1]"
    and "s = x # xs \<Longrightarrow> ((TElems [], d # ds), (TVal, s)) \<in> measures [\<lambda>(t, s). length s, \<lambda>(t, s). case t of TVal \<Rightarrow> 0 | _ \<Rightarrow> 1]"
    by simp_all
qed simp_all

declare js_run.simps [simp del]

text \<open>\<open>json.loads(s)\<close>\<close>

definition json_loads :: "string \<Rightarrow> json res" where
  "json_loads s = bindR (js_run TVal (js_skip s)) (\<lambda>(v, r). if js_skip r = [] then Inr v else Inl ValueError)"

text \<open>\<open>x[key]\<close> of a value read, and the list it is iterated over as.\<close>

fun json_item :: "json \<Rightarrow> string \<Rightarrow> json res" where
  "json_item (JObj kvs) k = (case map_of kvs k of None \<Rightarrow> Inl (KeyError k) | Some v \<Rightarrow> Inr v)"
| "json_item _ k = Inl TypeError"

fun json_list :: "json \<Rightarrow> json list res" where
  "json_list (JArr xs) = Inr xs"
| "json_list (JObj kvs) = Inr (map (JStr \<circ> fst) kvs)"
| "json_list (JStr s) = Inr (map (\<lambda>c. JStr [c]) s)"
| "json_list _ = Inl TypeError"

text \<open>\<open>x.get(key)\<close>, where a missing key gives \<open>None\<close> as the value \<open>null\<close> does; only objects have the method.\<close>

fun json_get :: "json \<Rightarrow> string \<Rightarrow> json res" where
  "json_get (JObj kvs) k = Inr (case map_of kvs k of None \<Rightarrow> JNull | Some v \<Rightarrow> v)"
| "json_get _ k = Inl AttributeError"

text \<open>\<open>json.dumps(x)\<close>; a number that is no integer keeps the text it was read from.\<close>

definition js_quote :: "char \<Rightarrow> string" where
  "js_quote c = (let n = (of_char c :: nat); b = CHR 0x5C in
     if c = CHR 0x22 \<or> c = b then [b, c]
     else if n = 8 then [b, CHR ''b''] else if n = 12 then [b, CHR ''f'']
     else if n = 10 then [b, CHR ''n''] else if n = 13 then [b, CHR ''r'']
     else if n = 9 then [b, CHR ''t'']
     else if n < 32 \<or> 127 < n then b # CHR ''u'' # pad0 4 (hex_str n) else [c])"

fun json_dumps :: "json \<Rightarrow> string" where
  "json_dumps JNull = ''null''"
| "json_dumps (JBool b) = (if b then ''true'' else ''false'')"
| "json_dumps (JInt i) = int_str i"
| "json_dumps (JFloat s) = s"
| "json_dumps (JStr s) = fmt [dquote, concat (map js_quote s), dquote]"
| "json_dumps (JArr xs) = fmt [''['', join_with '', '' (map json_dumps xs), '']'']"
| "json_dumps (JObj kvs) = fmt [''{'', join_with '', '' (map (\<lambda>(k, v).
     fmt [dquote, concat (map js_quote k), dquote, '': '', json_dumps v]) kvs), ''}'']"

lemma json_loads_example:
  "json_loads (fmt [''{'', dquote, ''a'', dquote, '': [1, {}], '', dquote, ''b'', dquote, '': -20}''])
     = Inr (JObj [(''a'', JArr [JInt 1, JObj []]), (''b'', JInt (- 20))])"
  by (simp add: json_loads_def js_run.simps js_skip_def js_space_def fmt_def dquote_def js_number_def js_digits_def
      js_frac_def js_exp_def is_digit_def py_int_def strip_def lstrip_def py_space_def digit_val_def Let_def)

end
