(* ===== verification/Vm.thy ===== *)
theory Vm imports Guest_Props Py_Json begin

text \<open>
  The class \<open>VirtualMachine\<close> of \<open>vm.py\<close>: the options QEMU is started with, the machine protocol, waiting
  for the machine to boot, pinning its processors, starting and stopping it.
\<close>

section \<open>Construction\<close>

definition VM_MEM_SIZE :: int where "VM_MEM_SIZE = 1024"
definition VM_VIFS_NUM :: nat where "VM_VIFS_NUM = 2"
definition VM_CPU_NUM :: int where "VM_CPU_NUM = 1"

text \<open>
  The object before its image is copied.  The memory size is kept as the number of KB the constructor
  divides by 1024.
\<close>

definition new_vm ::
  "string \<Rightarrow> int \<Rightarrow> int \<Rightarrow> int list \<Rightarrow> string \<Rightarrow> node \<Rightarrow> string \<Rightarrow> bool \<Rightarrow> vm" where
  "new_vm name vm_idx mem_kb host_cpus huge_mnt host test_root_dir ovs_native =
     (let n = int_str (int (length host_cpus)) in
      \<lparr>vm_name = name, vm_vifs = [],
       vm_ssh_info = \<lparr>nd_host = nd_host host, nd_port = 10022 + vm_idx, nd_username = ''cne'',
          nd_password = Some ''cne'', nd_priv_key = None\<rparr>,
       vm_host_ssh_info = host,
       vm_qmp_sock = ''/tmp/qmp.sock'' @ int_str vm_idx,
       vm_qga_sock = ''/tmp/qga.sock'' @ int_str vm_idx,
       vm_host_cpus = host_cpus,
       vm_smp = fmt [''-smp '', n, '',sockets='', n, '',cores=1,threads=1''],
       vm_options = ''-cpu host -daemonize -enable-kvm -machine pc-i440fx-2.8,accel=kvm,usb=off,mem-merge=off -net nic,model=virtio '',
       vm_ssh_fwd_port = 10022 + vm_idx,
       vm_serial_port = 4556 + vm_idx,
       vm_vnc_port = vm_idx,
       vm_mem_size = MemKb mem_kb,
       vm_huge_mnt = huge_mnt,
       vm_disk_image = ''/tmp/vm.img.'' @ int_str vm_idx,
       vm_numa_id = 0,
       vm_is_ovs_native = ovs_native,
       vm_qemu_bin = path_join test_root_dir ''bin/qemu/qemu-system-x86_64'',
       vm_img_base = path_join test_root_dir ''cne-ovs-sit-vm-1.0.img''\<rparr>)"

definition VirtualMachine ::
  "ssh_env \<Rightarrow> string \<Rightarrow> int \<Rightarrow> int \<Rightarrow> int list \<Rightarrow> string \<Rightarrow> node \<Rightarrow> string \<Rightarrow> bool \<Rightarrow> (world, vm) em" where
  "VirtualMachine env name vm_idx mem_kb host_cpus huge_mnt host test_root_dir ovs_native =
     (let m = new_vm name vm_idx mem_kb host_cpus huge_mnt host test_root_dir ovs_native in
      thenE (guest_run_host env m (fmt [''cp '', vm_img_base m, '' '', vm_disk_image m])) (retE m))"

section \<open>Setters\<close>

definition qemu_set_ssh_fwd_port :: "int \<Rightarrow> vm \<Rightarrow> vm" where
  "qemu_set_ssh_fwd_port port m =
     m\<lparr>vm_ssh_fwd_port := port, vm_ssh_info := (vm_ssh_info m)\<lparr>nd_port := port\<rparr>\<rparr>"

definition qemu_set_serial_port :: "int \<Rightarrow> vm \<Rightarrow> vm" where
  "qemu_set_serial_port port m = m\<lparr>vm_serial_port := port\<rparr>"

definition qemu_set_mem_size :: "pyval \<Rightarrow> vm \<Rightarrow> vm res" where
  "qemu_set_mem_size mem_size m = bindR (py_int_of mem_size) (\<lambda>n. Inr (m\<lparr>vm_mem_size := MemMb n\<rparr>))"

definition qemu_set_huge_mnt :: "string \<Rightarrow> vm \<Rightarrow> vm" where
  "qemu_set_huge_mnt mnt m = m\<lparr>vm_huge_mnt := mnt\<rparr>"

definition qemu_set_disk_image :: "string \<Rightarrow> vm \<Rightarrow> vm" where
  "qemu_set_disk_image img m = m\<lparr>vm_disk_image := img\<rparr>"

section \<open>Interfaces\<close>

definition opt_str :: "string option \<Rightarrow> string" where
  "opt_str x = (case x of None \<Rightarrow> ''None'' | Some s \<Rightarrow> s)"

definition idx_str :: "vif \<Rightarrow> string" where
  "idx_str v = (case vif_idx v of None \<Rightarrow> ''None'' | Some i \<Rightarrow> int_str i)"

definition device_option :: "vif \<Rightarrow> string" where
  "device_option v =
     fmt ['' -device virtio-net-pci,netdev=vhost'', idx_str v, '',mac='', opt_str (vif_mac v),
       (if \<not> vif_offload v then '',csum=off,gso=off,guest_tso4=off,guest_tso6=off,guest_ecn=off'' else []),
       (if vif_qpair v > 1 then fmt ['',mq=on,vectors='', int_str (vif_qpair v * 2 + 2)] else [])]"

definition generate_vhost_user_if_option :: "vm \<Rightarrow> vif \<Rightarrow> vif" where
  "generate_vhost_user_if_option m v =
     (let netdev =
        (if \<not> vm_is_ovs_native m then
           fmt [vif_qemu_option v, '' -chardev socket,id=vhuchar'', idx_str v, '',path='', opt_str (vif_sock v),
             (if vif_client_mode v then '',server'' else []),
             '' -netdev vhost-user,id=vhost'', idx_str v, '',chardev=vhuchar'', idx_str v,
             (if vif_qpair v > 1 then '',queues='' @ int_str (vif_qpair v) else [])]
         else
           fmt ['' -netdev tap,id=vhost'', idx_str v, '',vhost=on,ifname='', vif_name v,
             '',script='', opt_str (vif_ifup v), '',downscript='', opt_str (vif_ifdown v)])
      in v\<lparr>vif_qemu_option := netdev @ device_option v\<rparr>)"

definition add_vhost_user_if :: "vm \<Rightarrow> nat \<Rightarrow> (world, vm) em" where
  "add_vhost_user_if m r = thenE (upd_vif r (generate_vhost_user_if_option m)) (retE (add_vif r m))"

definition reconfigure_vhost_user_if :: "vm \<Rightarrow> nat \<Rightarrow> bool \<Rightarrow> int \<Rightarrow> (world, unit) em" where
  "reconfigure_vhost_user_if m r offload qpair =
     upd_vif r (\<lambda>v. generate_vhost_user_if_option m (v\<lparr>vif_qemu_option := [], vif_offload := offload, vif_qpair := qpair\<rparr>))"

section \<open>The machine protocol\<close>

definition qmp_cmd :: "vm \<Rightarrow> string \<Rightarrow> string" where
  "qmp_cmd m cmd =
     (let q = CHR 0x5C # dquote in
      fmt [''echo '', dquote, ''{ '', q, ''execute'', q, '': '', q, ''qmp_capabilities'', q, '' }{ '', q, ''execute'', q, '': '',
        q, cmd, q, '' }'', dquote, '' | sudo -S socat - UNIX-CONNECT:'', vm_qmp_sock m])"

text \<open>A return code other than 0 has already raised in \<open>execute_host\<close>.\<close>

definition qemu_qmp_exec :: "ssh_env \<Rightarrow> vm \<Rightarrow> string \<Rightarrow> (world, json) em" where
  "qemu_qmp_exec env m cmd =
     bindE (guest_execute_host env m (qmp_cmd m cmd) 30) (\<lambda>(rc, out, er).
     if rc \<noteq> 0 then
       raiseE (RuntimeError (fmt [''QMP execute '', dquote, cmd, dquote, '' failed on '', nd_host (vm_host_ssh_info m)]))
     else
       let out_list = splitlines (log_text out) in
       if length out_list < 3 then
         raiseE (RuntimeError (''Invalid QMP output on '' @ nd_host (vm_host_ssh_info m)))
       else liftE (json_loads (out_list ! 2)))"

text \<open>\<open>hex(1 << int(cpu))\<close>; a negative shift count raises.\<close>

definition cpu_mask :: "int \<Rightarrow> string res" where
  "cpu_mask cpu = (if cpu < 0 then Inl ValueError else Inr (py_hex (2 ^ nat cpu)))"

text \<open>The text of a value in a \<open>format\<close> call, for values that are no containers; a thread id is an integer.\<close>

fun json_str :: "json \<Rightarrow> string" where
  "json_str (JInt i) = int_str i"
| "json_str (JStr s) = s"
| "json_str (JFloat s) = s"
| "json_str JNull = ''None''"
| "json_str (JBool b) = (if b then ''True'' else ''False'')"
| "json_str _ = []"

definition taskset_cmd :: "int \<Rightarrow> json \<Rightarrow> string res" where
  "taskset_cmd host_cpu qemu_cpu =
     bindR (cpu_mask host_cpu) (\<lambda>mask.
     bindR (json_item qemu_cpu ''thread_id'') (\<lambda>tid. Inr (fmt [''taskset -p '', mask, '' '', json_str tid])))"

definition pin_cpu :: "ssh_env \<Rightarrow> vm \<Rightarrow> json \<Rightarrow> int \<Rightarrow> (world, unit) em" where
  "pin_cpu env m qemu_cpu host_cpu =
     bindE (liftE (taskset_cmd host_cpu qemu_cpu)) (\<lambda>cmd.
     bindE (guest_execute_host env m cmd 30) (\<lambda>(rc, out, er).
     if rc \<noteq> 0 then raiseE (RuntimeError (''Set affinity failed on '' @ nd_host (vm_host_ssh_info m)))
     else retE ()))"

definition qemu_set_affinity :: "ssh_env \<Rightarrow> vm \<Rightarrow> (world, unit) em" where
  "qemu_set_affinity env m =
     bindE (qemu_qmp_exec env m ''query-cpus'') (\<lambda>out.
     bindE (liftE (bindR (json_item out ''return'') json_list)) (\<lambda>qemu_cpus.
     if length qemu_cpus \<noteq> length (vm_host_cpus m) then raiseE ValueError
     else forE (zip qemu_cpus (vm_host_cpus m)) (\<lambda>(qemu_cpu, host_cpu). pin_cpu env m qemu_cpu host_cpu)))"

text \<open>The guest agent is reached over \<open>self._ssh\<close>, which stays \<open>None\<close>: it has no \<open>exec_command\<close>.\<close>

definition qemu_qga_flush :: "(world, json) em" where
  "qemu_qga_flush = raiseE AttributeError"

definition qemu_qga_exec :: "string \<Rightarrow> (world, json) em" where
  "qemu_qga_exec cmd = raiseE AttributeError"

section \<open>Starting\<close>

text \<open>\<open>_wait_until_vm_boot\<close>: one try, whose exceptions for a machine that is not up yet give the status -1.\<close>

definition try_boot :: "ssh_env \<Rightarrow> vm \<Rightarrow> (world, int) em" where
  "try_boot env m =
     tryE (bindE (guest_execute env m ''pwd'' 5 True None) (\<lambda>(rc, out, er). retE rc))
       (\<lambda>e. case e of SSHTimeout \<Rightarrow> retE (- 1) | IOError _ \<Rightarrow> retE (- 1) | _ \<Rightarrow> raiseE e)"

lemma try_boot_clock: "try_boot env m w = (r, w') \<Longrightarrow> w_clock w \<le> w_clock w'"
proof -
  assume run: "try_boot env m w = (r, w')"
  obtain r1 w1 where 1: "guest_execute env m ''pwd'' 5 True None w = (r1, w1)" by fastforce
  have "snd (try_boot env m w) = w1"
    using 1 by (cases r1) (auto simp: try_boot_def em_simps split: prod.splits err.splits)
  with run guest_execute_clock [OF 1] show ?thesis by simp
qed

text \<open>
  The loop: check the clock, try, sleep five seconds after a failed try.  It ends because a try never turns the
  clock back, so that the time left before the timeout decreases.
\<close>

function boot_loop :: "ssh_env \<Rightarrow> vm \<Rightarrow> nat \<Rightarrow> nat \<Rightarrow> (world, unit) em" where
  "boot_loop env m start timeout w =
     (if w_clock w - start > 10 * timeout then
        (Inl (RuntimeError (fmt [''timeout, VM '', vm_disk_image m, '' not booted on '', nd_host (vm_host_ssh_info m)])), w)
      else
        case try_boot env m w of
          (Inl e, w1) \<Rightarrow> (Inl e, w1)
        | (Inr rc, w1) \<Rightarrow>
            if rc \<noteq> 0 then boot_loop env m start timeout (w1\<lparr>w_clock := w_clock w1 + 50\<rparr>) else (Inr (), w1))"
  by pat_completeness auto
termination
  by (relation "measure (\<lambda>(env, m, start, timeout, w). start + 10 * timeout + 1 - w_clock w)")
    (auto dest!: try_boot_clock [OF sym])

declare boot_loop.simps [simp del]

definition wait_until_vm_boot :: "ssh_env \<Rightarrow> vm \<Rightarrow> nat \<Rightarrow> (world, unit) em" where
  "wait_until_vm_boot env m timeout = bindE (getE w_clock) (\<lambda>start. boot_loop env m start timeout)"

text \<open>
  The text of \<open>kb / 1024\<close>: the fraction has at most ten decimal places, which \<open>repr\<close> shows in full for
  results of up to 16 digits.
\<close>

fun mem_str :: "mem_size \<Rightarrow> string" where
  "mem_str (MemMb n) = int_str n"
| "mem_str (MemKb kb) =
     (let frac = rstrip_char (CHR ''0'') (pad0 10 (nat_str (nat (kb mod 1024) * 9765625)))
      in fmt [int_str (kb div 1024), ''.'', if frac = [] then ''0'' else frac])"

definition qemu_cmd :: "(nat \<Rightarrow> vif) \<Rightarrow> vm \<Rightarrow> string" where
  "qemu_cmd store m =
     (let mem = mem_str (vm_mem_size m) in
      fmt [''numactl --cpunodebind '', int_str (vm_numa_id m), '' --membind '', int_str (vm_numa_id m), '' '',
        vm_qemu_bin m, '' '', vm_smp m,
        '' -object memory-backend-file,id=mem,size='', mem, ''M,mem-path='', vm_huge_mnt m, '',share=on -m '', mem,
        '' -numa node,memdev=mem'',
        '' -net user,hostfwd=tcp::'', int_str (vm_ssh_fwd_port m), ''-:22 '',
        vm_options m, '' '', concat (map (\<lambda>r. vif_qemu_option (store r)) (vm_vifs m)),
        '' -hda '', vm_disk_image m,
        '' -qmp unix:'', vm_qmp_sock m, '',server,nowait'',
        '' -chardev socket,host=127.0.0.1,port='', int_str (vm_serial_port m),
        '',id=gnc0,server,nowait -device isa-serial,chardev=gnc0'',
        '' -chardev socket,path='', vm_qga_sock m, '',server,nowait,id=qga0 -device isa-serial,chardev=qga0'',
        '' -monitor none -display none -vnc :'', int_str (vm_vnc_port m)])"

definition qemu_start :: "ssh_env \<Rightarrow> vm \<Rightarrow> (world, unit) em" where
  "qemu_start env m =
     bindE (getE (\<lambda>w. qemu_cmd (w_vifs w) m)) (\<lambda>cmd.
     thenE (guest_execute_host env m cmd 300)
    (thenE (wait_until_vm_boot env m 300)
    (thenE (qemu_set_affinity env m) (configure env m))))"

section \<open>Stopping\<close>

definition qemu_clear_socks :: "ssh_env \<Rightarrow> vm \<Rightarrow> (world, unit) em" where
  "qemu_clear_socks env m =
     thenE (guest_run_host env m (fmt [''fuser -k '', int_str (vm_serial_port m), ''/tcp'']))
           (forE [vm_qmp_sock m, vm_qga_sock m] (\<lambda>sock. guest_run_host env m (''rm -f '' @ sock)))"

definition qemu_guest_poweroff :: "ssh_env \<Rightarrow> vm \<Rightarrow> (world, unit) em" where
  "qemu_guest_poweroff env m =
     thenE (guest_run env m ''poweroff'') (thenE (sleepE 20) (qemu_clear_socks env m))"

text \<open>A command of the machine protocol whose answer may report an error.\<close>

definition qmp_checked :: "string \<Rightarrow> string \<Rightarrow> ssh_env \<Rightarrow> vm \<Rightarrow> (world, unit) em" where
  "qmp_checked cmd what env m =
     bindE (qemu_qmp_exec env m cmd) (\<lambda>out.
     bindE (liftE (json_get out ''error'')) (\<lambda>e.
     whenE (e \<noteq> JNull) (raiseE (RuntimeError
       (fmt [''QEMU '', what, '' failed on '', nd_host (vm_host_ssh_info m), '', error: '', json_dumps e])))))"

definition qemu_quit :: "ssh_env \<Rightarrow> vm \<Rightarrow> (world, unit) em" where
  "qemu_quit = qmp_checked ''quit'' ''quit''"

definition qemu_system_powerdown :: "ssh_env \<Rightarrow> vm \<Rightarrow> (world, unit) em" where
  "qemu_system_powerdown = qmp_checked ''system_powerdown'' ''system powerdown''"

definition qemu_system_reset :: "ssh_env \<Rightarrow> vm \<Rightarrow> (world, unit) em" where
  "qemu_system_reset = qmp_checked ''system_reset'' ''system reset''"

text \<open>The description of the host has no key \<open>host_cpus\<close>, which the first line of \<open>qemu_cleanup\<close> reads.\<close>

definition qemu_cleanup :: "(world, unit) em" where
  "qemu_cleanup = raiseE (KeyError ''host_cpus'')"

section \<open>Active queues\<close>

text \<open>\<open>(\d+)\s+PCI\<close>\<close>

definition rx_interrupts :: rx where
  "rx_interrupts = RSeq (RGrp rx_digits) (RSeq rx_spaces (RLit ''PCI''))"

fun count_active :: "string list \<Rightarrow> int \<Rightarrow> int res" where
  "count_active [] n = Inr n"
| "count_active (line # lines) n =
     bindR (group 1 (rx_search rx_interrupts line)) (\<lambda>g.
     bindR (py_int g) (\<lambda>interrupts. count_active lines (if interrupts > 100 then n + 1 else n)))"

definition verify_active_rxq :: "ssh_env \<Rightarrow> vm \<Rightarrow> vif \<Rightarrow> (world, unit) em" where
  "verify_active_rxq env m v =
     bindE (guest_exec env m (''readlink /sys/class/net/virtio'' @ idx_str v)) (\<lambda>(rc0, out0, er0).
     bindE (liftE (case out0 of None \<Rightarrow> Inl TypeError
              | Some s \<Rightarrow> Inr (snd (path_split (fst (path_split (fst (path_split s)))))))) (\<lambda>dev_name.
     let cmd = fmt [''cat /proc/interrupts |grep '', dev_name, '' |grep input''] in
     bindE (guest_exec env m cmd) (\<lambda>(rc, out, er).
     thenE (whenE (rc \<noteq> 0) (logW (cmd @ '' failed'')))
    (bindE (liftE (count_active (readlines (log_text out)) 0)) (\<lambda>active_q.
     whenE (active_q < vif_qpair v)
       (logX (fmt [''active_q:'', int_str active_q, '' configured queue:'', int_str (vif_qpair v)])))))))"

end
