(* ===== verification/Vm_Props.thy ===== *)
theory Vm_Props imports Vm begin

text \<open>
  Booting and pinning a machine: the wait for the boot ends, and the processors of a machine are pinned
  one by one to the processors of the host it was given.
\<close>

section \<open>The wait for the boot\<close>

text \<open>A try by the outcome of the command over SSH.\<close>

abbreviation boot_cmd :: "ssh_env \<Rightarrow> vm \<Rightarrow> (world, (int \<times> string \<times> string) option) em" where
  "boot_cmd env m \<equiv> exec_cmd env (Some (vm_ssh_info m)) (CmdStr ''pwd'') (Some 5) True False"

definition not_up :: "err \<Rightarrow> bool" where
  "not_up e \<longleftrightarrow> e = SSHTimeout \<or> (\<exists>x. e = IOError x)"

lemma try_boot_eq:
  "try_boot env m w = (case boot_cmd env m w of
     (Inl e, w') \<Rightarrow> (if not_up e then Inr (- 1) else Inl e, w')
   | (Inr None, w') \<Rightarrow> (Inr (- 1), w')
   | (Inr (Some (rc, out, er)), w') \<Rightarrow> (Inr (if rc = 0 then 0 else - 1), w'))"
  by (auto simp: try_boot_def guest_execute_def exec_triple_def em_simps not_up_def
      split: prod.splits sum.splits option.splits err.splits)

text \<open>How the loop ends, by its own induction.\<close>

definition boot_outcome :: "ssh_env \<Rightarrow> vm \<Rightarrow> nat \<Rightarrow> nat \<Rightarrow> unit res \<times> world \<Rightarrow> bool" where
  "boot_outcome env m start timeout = (\<lambda>(r, w'). case r of
     Inr _ \<Rightarrow> \<exists>w1 out er. start \<le> w_clock w1 \<and> w_clock w1 \<le> start + 10 * timeout \<and> boot_cmd env m w1 = (Inr (Some (0, out, er)), w')
   | Inl e \<Rightarrow> e = RuntimeError (fmt [''timeout, VM '', vm_disk_image m, '' not booted on '', nd_host (vm_host_ssh_info m)])
         \<and> 10 * timeout < w_clock w' - start
       \<or> \<not> not_up e \<and> (\<exists>w1. boot_cmd env m w1 = (Inl e, w')))"

lemma boot_loop_outcome:
  "start \<le> w_clock w \<Longrightarrow> boot_outcome env m start timeout (boot_loop env m start timeout w)"
proof (induction env m start timeout w rule: boot_loop.induct)
  case (1 env m start timeout w)
  show ?case
  proof (cases "w_clock w - start > 10 * timeout")
    case True
    then show ?thesis by (simp add: boot_loop.simps boot_outcome_def)
  next
    case now: False
    obtain r w1 where t: "try_boot env m w = (r, w1)" by fastforce
    show ?thesis
    proof (cases "\<exists>rc. r = Inr rc \<and> rc \<noteq> 0")
      case True
      then obtain rc where rc: "try_boot env m w = (Inr rc, w1)" "rc \<noteq> 0" using t by blast
      have "boot_outcome env m start timeout (boot_loop env m start timeout (w1\<lparr>w_clock := w_clock w1 + 50\<rparr>))"
        using 1(1) [OF now, of "Inr rc" w1 rc] rc 1(2) try_boot_clock [OF rc(1)] by simp
      with rc now show ?thesis by (subst boot_loop.simps) simp
    next
      case False
      with t now 1(2) show ?thesis
        by (subst boot_loop.simps) (auto simp: boot_outcome_def try_boot_eq split: prod.splits sum.splits option.splits if_splits)
    qed
  qed
qed

text \<open>
  If the machine answers after at most \<open>n\<close> events on the network, every failed try before leaves an event and
  takes at most \<open>d\<close>, and the time is enough for that many tries, then the loop never meets its timeout.
\<close>

lemma boot_loop_returns:
  assumes "\<And>w1. length (w_events w1) < n \<Longrightarrow> \<exists>rc w2. try_boot env m w1 = (Inr rc, w2)
      \<and> length (w_events w1) < length (w_events w2) \<and> w_clock w2 \<le> w_clock w1 + d"
    and "\<And>w1. n \<le> length (w_events w1) \<Longrightarrow> \<exists>w2. try_boot env m w1 = (Inr 0, w2)"
    and "start \<le> w_clock w" "w_clock w - start + (n - length (w_events w)) * (d + 50) \<le> 10 * timeout"
  shows "\<exists>w'. boot_loop env m start timeout w = (Inr (), w')"
  using assms(3,4)
proof (induction "n - length (w_events w)" arbitrary: w rule: less_induct)
  case less
  have now: "\<not> w_clock w - start > 10 * timeout" using less.prems(2) by simp
  show ?case
  proof (cases "length (w_events w) < n")
    case False
    with assms(2) [of w] now show ?thesis by (subst boot_loop.simps) auto
  next
    case True
    then obtain rc w2 where 1: "try_boot env m w = (Inr rc, w2)" "length (w_events w) < length (w_events w2)"
      "w_clock w2 \<le> w_clock w + d" using assms(1) by blast
    let ?w3 = "w2\<lparr>w_clock := w_clock w2 + 50\<rparr>"
    have "n - length (w_events w2) + 1 \<le> n - length (w_events w)" using True 1(2) by simp
    then have "(n - length (w_events w2) + 1) * (d + 50) \<le> (n - length (w_events w)) * (d + 50)" by (rule mult_le_mono1)
    then have rest: "(n - length (w_events w2)) * (d + 50) + (d + 50) \<le> (n - length (w_events w)) * (d + 50)"
      by (simp only: add_mult_distrib mult_1)
    have w3: "w_clock ?w3 = w_clock w2 + 50" "w_events ?w3 = w_events w2" by simp_all
    have "\<exists>w'. boot_loop env m start timeout ?w3 = (Inr (), w')"
    proof (rule less.hyps)
      show "n - length (w_events ?w3) < n - length (w_events w)" unfolding w3 using True 1(2) by linarith
      show "start \<le> w_clock ?w3" unfolding w3 using less.prems(1) try_boot_clock [OF 1(1)] by linarith
      show "w_clock ?w3 - start + (n - length (w_events ?w3)) * (d + 50) \<le> 10 * timeout"
        unfolding w3 using rest less.prems 1(3) by linarith
    qed
    with now 1(1) show ?thesis by (subst boot_loop.simps) auto
  qed
qed

section \<open>Pinning\<close>

lemma ret_guest_host:
  assumes "guest_execute_host env m cmd t w = (Inr x, w')"
  shows "w_sent w' = w_sent w @ [(vm_host_ssh_info m, wire True (CmdStr cmd))]"
  using guest_host_runner.run_strict [where env = env and m = m and t = t and c = cmd and s = w and r = x] assms by simp

definition pin_cmds :: "int list \<Rightarrow> json list \<Rightarrow> string list res" where
  "pin_cmds cpus threads = collectR (\<lambda>(q, h). bindR (taskset_cmd h q) (\<lambda>c. Inr [c])) (zip threads cpus)"

lemma ret_pin:
  assumes "pin_cpu env m q h w = (Inr x, w')"
  obtains c where "taskset_cmd h q = Inr c" "w_sent w' = w_sent w @ [(vm_host_ssh_info m, wire True (CmdStr c))]"
proof -
  from assms obtain c y where "taskset_cmd h q = Inr c" "guest_execute_host env m c 30 w = (Inr y, w')"
    by (auto simp: pin_cpu_def returns split: if_splits)
  with ret_guest_host that show thesis by blast
qed

lemma affinity_loop:
  assumes "forE ps (\<lambda>(q, h). pin_cpu env m q h) w = (Inr x, w')"
  shows "\<exists>cs. collectR (\<lambda>(q, h). bindR (taskset_cmd h q) (\<lambda>c. Inr [c])) ps = Inr cs
     \<and> w_sent w' = w_sent w @ map (\<lambda>c. (vm_host_ssh_info m, wire True (CmdStr c))) cs"
  using assms
proof (induction ps arbitrary: w)
  case Nil
  then show ?case by (simp add: returns)
next
  case (Cons p ps)
  obtain q h where p: "p = (q, h)" by (cases p)
  from Cons.prems obtain w1 where 1: "pin_cpu env m q h w = (Inr (), w1)"
    and 2: "forE ps (\<lambda>(q, h). pin_cpu env m q h) w1 = (Inr x, w')"
    unfolding p by (auto elim!: returns_thenE)
  from 1 obtain c where "taskset_cmd h q = Inr c" "w_sent w1 = w_sent w @ [(vm_host_ssh_info m, wire True (CmdStr c))]"
    by (rule ret_pin)
  with Cons.IH [OF 2] p show ?case by auto
qed

section \<open>A machine in the cooperative environment\<close>

definition vm_p :: vm where
  "vm_p = new_vm ''vm_01_01'' 1 1048576 [3, 5] ''/mnt'' node_h1 ''/root'' False"

definition qmp_out :: string where
  "qmp_out = fmt [''{}'', [nl], ''{}'', [nl], ''{'', dquote, ''return'', dquote, '': [{'', dquote, ''thread_id'', dquote,
     '': 42}, {'', dquote, ''thread_id'', dquote, '': 43}]}'']"

lemma qmp_out_read: "splitlines qmp_out ! 2 = drop 6 qmp_out" "length (splitlines qmp_out) = 3"
  "json_loads (drop 6 qmp_out) = Inr (JObj [(''return'', JArr [JObj [(''thread_id'', JInt 42)], JObj [(''thread_id'', JInt 43)]])])"
  by (simp_all add: qmp_out_def fmt_def nl_def dquote_def line_break_def Let_def,
      simp add: json_loads_def js_run.simps js_skip_def js_space_def js_number_def js_digits_def
        js_frac_def js_exp_def is_digit_def py_int_def strip_def lstrip_def py_space_def digit_val_def Let_def)

lemma taskset_example: "taskset_cmd 3 (JObj [(''thread_id'', JInt 42)]) = Inr ''taskset -p 0x8 42''"
  "taskset_cmd 5 (JObj [(''thread_id'', JInt 43)]) = Inr ''taskset -p 0x20 43''"
  by (simp_all add: taskset_cmd_def cpu_mask_def py_hex_def hex_str.simps fmt_def int_str_small nat_str_eval)

lemma echo_guest_host [simp]:
  "cmd \<noteq> [] \<Longrightarrow> fst (f (wire True (CmdStr cmd))) = 0 \<Longrightarrow>
   guest_execute_host (echo_env f) m cmd t w
     = (Inr (0, Some (snd (f (wire True (CmdStr cmd)))), Some []), quiet_next (vm_host_ssh_info m) True (CmdStr cmd) w)"
  by (simp add: guest_execute_host_def exec_triple_def em_simps)

lemma vm_p_pins: "\<exists>w'. qemu_set_affinity (echo_env (\<lambda>_. (0, qmp_out))) vm_p w = (Inr (), w')"
proof -
  have cpus: "vm_host_cpus vm_p = [3, 5]" by (simp add: vm_p_def new_vm_def Let_def)
  have "qmp_cmd vm_p ''query-cpus'' \<noteq> []" by (simp add: qmp_cmd_def Let_def)
  then show ?thesis
    by (simp add: qemu_set_affinity_def qemu_qmp_exec_def em_simps Let_def log_text_def qmp_out_read cpus pin_cpu_def
        taskset_example)
qed

section \<open>Properties\<close>

text \<open>
  C40 The wait for the boot always ends.  When it returns, a command in the machine, begun within the time, has
  given the exit status 0; it raises the timeout only after the time has passed, and any other exception is one
  that the command raised and that does not mean that the machine is not up yet.
\<close>

theorem boot_wait_ends:
  "case wait_until_vm_boot env m timeout w of
     (Inr _, w') \<Rightarrow> \<exists>w1 out er. w_clock w \<le> w_clock w1 \<and> w_clock w1 \<le> w_clock w + 10 * timeout
       \<and> exec_cmd env (Some (vm_ssh_info m)) (CmdStr ''pwd'') (Some 5) True False w1 = (Inr (Some (0, out, er)), w')
   | (Inl e, w') \<Rightarrow>
       e = RuntimeError (fmt [''timeout, VM '', vm_disk_image m, '' not booted on '', nd_host (vm_host_ssh_info m)])
         \<and> 10 * timeout < w_clock w' - w_clock w
       \<or> e \<noteq> SSHTimeout \<and> (\<forall>x. e \<noteq> IOError x)
         \<and> (\<exists>w1. exec_cmd env (Some (vm_ssh_info m)) (CmdStr ''pwd'') (Some 5) True False w1 = (Inl e, w'))"
  using boot_loop_outcome [of "w_clock w" w env m timeout]
  by (auto simp: wait_until_vm_boot_def em_simps boot_outcome_def not_up_def split: prod.splits sum.splits)

text \<open>
  C21 A machine that boots is found: if the command \<open>pwd\<close> succeeds in it after at most \<open>n\<close> events on the network,
  every one before fails or finds the machine not up yet, with a new event and within \<open>d\<close>, and there is time for
  that many tries with their pauses of five seconds, then the wait returns, and it does so after a success.
\<close>

theorem boot_wait_succeeds:
  assumes "\<And>w1. length (w_events w1) < n \<Longrightarrow>
      \<exists>r w2. exec_cmd env (Some (vm_ssh_info m)) (CmdStr ''pwd'') (Some 5) True False w1 = (r, w2)
        \<and> (\<forall>e. r = Inl e \<longrightarrow> e = SSHTimeout \<or> (\<exists>x. e = IOError x))
        \<and> length (w_events w1) < length (w_events w2) \<and> w_clock w2 \<le> w_clock w1 + d"
    and "\<And>w1. n \<le> length (w_events w1) \<Longrightarrow>
      \<exists>out er w2. exec_cmd env (Some (vm_ssh_info m)) (CmdStr ''pwd'') (Some 5) True False w1 = (Inr (Some (0, out, er)), w2)"
    and "(n - length (w_events w)) * (d + 50) \<le> 10 * timeout"
  shows "\<exists>w1 out er w'. wait_until_vm_boot env m timeout w = (Inr (), w')
    \<and> exec_cmd env (Some (vm_ssh_info m)) (CmdStr ''pwd'') (Some 5) True False w1 = (Inr (Some (0, out, er)), w')"
proof -
  have "\<exists>w'. boot_loop env m (w_clock w) timeout w = (Inr (), w')"
  proof (rule boot_loop_returns [where n = n and d = d])
    fix w1 :: world
    show "\<exists>rc w2. try_boot env m w1 = (Inr rc, w2) \<and> length (w_events w1) < length (w_events w2)
        \<and> w_clock w2 \<le> w_clock w1 + d" if "length (w_events w1) < n"
      using assms(1) [OF that] by (auto simp: try_boot_eq not_up_def split: sum.splits option.splits)
    show "\<exists>w2. try_boot env m w1 = (Inr 0, w2)" if "n \<le> length (w_events w1)"
      using assms(2) [OF that] by (auto simp: try_boot_eq)
  qed (use assms(3) in simp_all)
  then obtain w' where w': "boot_loop env m (w_clock w) timeout w = (Inr (), w')" by blast
  with boot_loop_outcome [of "w_clock w" w env m timeout] show ?thesis
    by (auto simp: wait_until_vm_boot_def em_simps boot_outcome_def)
qed

text \<open>A machine whose shell answers only after three events.\<close>

definition booting_env :: ssh_env where
  "booting_env = quiet_env\<lparr>e_chan := (\<lambda>es c cmd. answer_chan (if length es < 3 then 255 else 0, []))\<rparr>"

lemmas booting_simps = em_simps exec_cmd_def exec_cmd_on_def with_ssh_def exec_command_sudo_def exec_command_def
  obtain_session_def open_session_def send_cmd_eq finallyE_def connect_eq ssh_open_new_def Let_def add_event_def

lemma booting_exec:
  "\<exists>k w'. exec_cmd booting_env (Some nd) (CmdStr ''pwd'') t True False w = (Inr (Some (if k < 3 then 255 else 0, [], [])), w')
     \<and> w_clock w' = w_clock w \<and> length (w_events w) \<le> k \<and> k < length (w_events w')"
proof (cases "w_conns w (node_hash booting_env nd)")
  case None
  then show ?thesis
    by (intro exI [of _ "Suc (length (w_events w))"]) (simp add: booting_env_def booting_simps)
next
  case (Some c)
  then show ?thesis
    by (intro exI [of _ "length (w_events w)"]) (simp add: booting_env_def booting_simps)
qed

theorem boot_wait_succeeds_witness:
  "\<exists>w'. wait_until_vm_boot booting_env vm_p 15 world0 = (Inr (), w')"
proof -
  have "\<exists>w1 out er w'. wait_until_vm_boot booting_env vm_p 15 world0 = (Inr (), w')
    \<and> boot_cmd booting_env vm_p w1 = (Inr (Some (0, out, er)), w')"
  proof (rule boot_wait_succeeds [where n = 3 and d = 0])
    fix w1 :: world
    obtain k w2 where t: "boot_cmd booting_env vm_p w1 = (Inr (Some (if k < 3 then 255 else 0, [], [])), w2)"
      "w_clock w2 = w_clock w1" "length (w_events w1) \<le> k" "k < length (w_events w2)"
      using booting_exec by blast
    then show "\<exists>r w2. boot_cmd booting_env vm_p w1 = (r, w2) \<and> (\<forall>e. r = Inl e \<longrightarrow> e = SSHTimeout \<or> (\<exists>x. e = IOError x))
        \<and> length (w_events w1) < length (w_events w2) \<and> w_clock w2 \<le> w_clock w1 + 0" by auto
    show "\<exists>out er w2. boot_cmd booting_env vm_p w1 = (Inr (Some (0, out, er)), w2)" if "3 \<le> length (w_events w1)"
      using t that by auto
  qed simp
  then show ?thesis by blast
qed

text \<open>
  When the pinning returns, QEMU reported as many processor threads as the machine was given host
  processors, and after the query each thread was pinned, in order, to its processor's mask.
\<close>

theorem affinity_pins_each:
  assumes "qemu_set_affinity env m w = (Inr (), w')"
  shows "\<exists>threads cs. length threads = length (vm_host_cpus m) \<and> pin_cmds (vm_host_cpus m) threads = Inr cs
     \<and> w_sent w' = w_sent w @ map (\<lambda>c. (vm_host_ssh_info m, wire True (CmdStr c))) (qmp_cmd m ''query-cpus'' # cs)"
proof -
  from assms obtain out threads w1 where q: "qemu_qmp_exec env m ''query-cpus'' w = (Inr out, w1)"
    and l: "length threads = length (vm_host_cpus m)"
    and 1: "forE (zip threads (vm_host_cpus m)) (\<lambda>(q, h). pin_cpu env m q h) w1 = (Inr (), w')"
    by (auto simp: qemu_set_affinity_def returns split: if_splits)
  from q obtain y where "guest_execute_host env m (qmp_cmd m ''query-cpus'') 30 w = (Inr y, w1)"
    by (auto simp: qemu_qmp_exec_def returns Let_def split: if_splits)
  from ret_guest_host [OF this] affinity_loop [OF 1] l show ?thesis
    by (auto simp: pin_cmds_def)
qed

theorem affinity_pins_each_witness:
  "\<exists>w'. qemu_set_affinity (echo_env (\<lambda>_. (0, qmp_out))) vm_p world0 = (Inr (), w') \<and> length (w_sent w') = 3"
proof -
  obtain w' where run: "qemu_set_affinity (echo_env (\<lambda>_. (0, qmp_out))) vm_p world0 = (Inr (), w')"
    using vm_p_pins by blast
  from affinity_pins_each [OF run] obtain threads cs where *: "length threads = length (vm_host_cpus vm_p)"
    "pin_cmds (vm_host_cpus vm_p) threads = Inr cs" "length (w_sent w') = 1 + length cs" by auto
  have cpus: "vm_host_cpus vm_p = [3, 5]" by (simp add: vm_p_def new_vm_def Let_def)
  with * obtain a b where "threads = [a, b]" by (auto simp: length_Suc_conv)
  with * cpus have "length cs = 2" by (auto simp: pin_cmds_def bindR_Inr_iff)
  with * run show ?thesis by simp
qed

end
