(* ===== verification/Pal.thy ===== *)
theory Pal imports Vm_Props begin

text \<open>
  The keywords of \<open>pal.py\<close> that act on all systems under test or run the verification of a topology:
  bridges, interfaces, MTUs, VLANs and machines, and the ping, throughput and performance tests.
\<close>

section \<open>Keywords on all systems\<close>

definition create_bridge_on_all_suts :: "ssh_env \<Rightarrow> string \<Rightarrow> unit tbm" where
  "create_bridge_on_all_suts env name =
     for_suts (\<lambda>k. thenE (on_sut k (create_bridge env name)) (retE ()))"

definition delete_bridge_on_all_suts :: "ssh_env \<Rightarrow> string \<Rightarrow> unit tbm" where
  "delete_bridge_on_all_suts env name = for_suts (\<lambda>k. on_sut k (delete_bridge env name))"

definition setup_uplink_bridge_on_all_suts :: "ssh_env \<Rightarrow> string \<Rightarrow> bool \<Rightarrow> unit tbm" where
  "setup_uplink_bridge_on_all_suts env name bond = for_suts (\<lambda>k. on_sut k (create_uplink_bridge env name bond))"

definition teardown_uplink_bridge_on_all_suts :: "ssh_env \<Rightarrow> string \<Rightarrow> unit tbm" where
  "teardown_uplink_bridge_on_all_suts env name = for_suts (\<lambda>k. on_sut k (delete_uplink_bridge env name))"

definition bump_uplink_mtu_on_all_suts :: "ssh_env \<Rightarrow> int \<Rightarrow> unit tbm" where
  "bump_uplink_mtu_on_all_suts env mtu = for_suts (\<lambda>k. on_sut k (set_uplink_mtu env mtu))"

definition flush_revalidator_on_all_suts :: "ssh_env \<Rightarrow> unit tbm" where
  "flush_revalidator_on_all_suts env = for_suts (\<lambda>k. on_sut k (vs_run env ''ovs-appctl revalidator/purge''))"

definition flush_conntrack_on_all_suts :: "ssh_env \<Rightarrow> unit tbm" where
  "flush_conntrack_on_all_suts env =
     for_suts (\<lambda>k. thenE (on_sut k (vs_run env ''ovs-appctl dpctl/flush-conntrack''))
                         (on_sut k (vs_run env ''ovs-appctl dpctl/dump-conntrack -m'')))"

definition set_port_vlan_on_all_suts :: "ssh_env \<Rightarrow> string \<Rightarrow> pyval \<Rightarrow> unit tbm" where
  "set_port_vlan_on_all_suts env port_name vlan_id = for_suts (\<lambda>k. on_sut k (set_port_vlan env port_name vlan_id))"

section \<open>Keywords on all machines\<close>

text \<open>\<open>for vm in sut.get_vms()\<close> within the loop over the systems.\<close>

definition for_vms :: "(nat \<Rightarrow> vm \<Rightarrow> unit tbm) \<Rightarrow> unit tbm" where
  "for_vms b = for_suts (\<lambda>k. bindE (getE (\<lambda>(ss, w). get_vms (ss ! k))) (\<lambda>vms. forE vms (b k)))"

definition add_vif_ports_on_all_suts :: "ssh_env \<Rightarrow> string \<Rightarrow> unit tbm" where
  "add_vif_ports_on_all_suts env name =
     for_vms (\<lambda>k m. forE (vm_vifs m) (\<lambda>r. on_sut k (create_vhost_user_interface env name r)))"

definition delete_vif_ports_on_all_suts :: "ssh_env \<Rightarrow> string \<Rightarrow> unit tbm" where
  "delete_vif_ports_on_all_suts env name =
     for_vms (\<lambda>k m. forE (vm_vifs m) (\<lambda>r.
       bindE (getE (\<lambda>(ss, w). vif_name (w_vifs w r))) (\<lambda>port. on_sut k (delete_interface env name port))))"

definition start_vms_on_all_suts :: "ssh_env \<Rightarrow> unit tbm" where
  "start_vms_on_all_suts env = for_vms (\<lambda>k m. on_snd (qemu_start env m))"

definition stop_vms_on_all_suts :: "ssh_env \<Rightarrow> unit tbm" where
  "stop_vms_on_all_suts env = for_vms (\<lambda>k m. on_snd (qemu_guest_poweroff env m))"

definition set_vm_mtu_on_all_suts :: "ssh_env \<Rightarrow> int \<Rightarrow> unit tbm" where
  "set_vm_mtu_on_all_suts env mtu = for_vms (\<lambda>k m. on_snd (configure_mtu env m mtu))"

section \<open>Tests of a topology\<close>

text \<open>
  The tests change neither the systems nor the interfaces, so the systems are an argument and the
  computations act on the world.  The loops run over the sources and destinations of a list of entries.
\<close>

definition dep_addr :: "(if_address \<Rightarrow> ipaddr) \<Rightarrow> endpoint \<Rightarrow> (world, ipaddr) em" where
  "dep_addr f dep = readE (\<lambda>w. bindR (attr_of (vif_addr (w_vifs w (ep_vif dep)))) (\<lambda>a. Inr (f a)))"

definition vt_pairs :: "vt_entry list \<Rightarrow> (endpoint \<times> endpoint) list" where
  "vt_pairs es = concat (map (\<lambda>e. map (\<lambda>d. (vte_sep e, d)) (get_deps e)) es)"

definition ping_pair :: "ssh_env \<Rightarrow> sut list \<Rightarrow> bool option \<Rightarrow> endpoint \<times> endpoint \<Rightarrow> (world, unit) em" where
  "ping_pair env ss exp_fail = (\<lambda>(sep, dep).
     thenE (bindE (dep_addr ia_ipv4 dep) (\<lambda>ip. ping_ipv4_addr env (ep_vm ss sep) ip exp_fail))
           (bindE (dep_addr ia_ipv6 dep) (\<lambda>ip. ping_ipv6_addr env (ep_vm ss sep) ip exp_fail)))"

definition execute_ping_verification :: "ssh_env \<Rightarrow> sut list \<Rightarrow> verify_topology \<Rightarrow> (world, unit) em" where
  "execute_ping_verification env ss vt =
     thenE (forE (vt_pairs (vt_allow vt)) (ping_pair env ss (Some False)))
           (forE (vt_pairs (vt_deny vt)) (ping_pair env ss (Some True)))"

definition iperf_pair ::
  "ssh_env \<Rightarrow> sut list \<Rightarrow> string \<Rightarrow> int \<Rightarrow> bool \<Rightarrow> endpoint \<times> endpoint \<Rightarrow> (world, string list) em" where
  "iperf_pair env ss proto parallel exp_fail = (\<lambda>(sep, dep).
     bindE (bindE (dep_addr ia_ipv4 dep)
       (\<lambda>ip. execute_iperf_ipv4 env (ep_vm ss sep) (ep_vm ss dep) ip 0 proto parallel (Some exp_fail))) (\<lambda>r4.
     bindE (bindE (dep_addr ia_ipv6 dep)
       (\<lambda>ip. execute_iperf_ipv6 env (ep_vm ss sep) (ep_vm ss dep) ip 0 proto parallel (Some exp_fail))) (\<lambda>r6.
     retE [r4, r6])))"

definition execute_iperf_verification ::
  "ssh_env \<Rightarrow> sut list \<Rightarrow> verify_topology \<Rightarrow> string \<Rightarrow> int \<Rightarrow> (world, string list) em" where
  "execute_iperf_verification env ss vt proto parallel =
     bindE (collectE (vt_pairs (vt_allow vt)) (iperf_pair env ss proto parallel False)) (\<lambda>results.
     thenE (forE (vt_pairs (vt_deny vt)) (\<lambda>p. thenE (iperf_pair env ss proto 1 True p) (retE ())))
           (retE results))"

definition netperf_pair :: "ssh_env \<Rightarrow> sut list \<Rightarrow> endpoint \<times> endpoint \<Rightarrow> (world, string list) em" where
  "netperf_pair env ss = (\<lambda>(sep, dep).
     bindE (bindE (dep_addr ia_ipv4 dep)
       (\<lambda>ip. execute_netperf_ipv4 env (ep_vm ss sep) (ep_vm ss dep) ip ''TCP_RR'')) (\<lambda>r4.
     bindE (bindE (dep_addr ia_ipv6 dep)
       (\<lambda>ip. execute_netperf_ipv6 env (ep_vm ss sep) (ep_vm ss dep) ip ''TCP_RR'')) (\<lambda>r6.
     retE [r4, r6])))"

definition execute_performance_test :: "ssh_env \<Rightarrow> sut list \<Rightarrow> verify_topology \<Rightarrow> (world, string list) em" where
  "execute_performance_test env ss vt =
     collectE (vt_pairs (vt_allow vt)) (\<lambda>p.
       bindE (iperf_pair env ss ''tcp'' 1 False p) (\<lambda>r1.
       bindE (netperf_pair env ss p) (\<lambda>r2. retE (r1 @ r2))))"

end
