(* ===== verification/Pal_Props.thy ===== *)
theory Pal_Props imports Pal begin

text \<open>
  What the verification keywords report: the ping verification logs one error for each ping that
  contradicts the topology, whatever the pings say, and raises only on an output it cannot read; the
  performance test returns its results in order.
\<close>

section \<open>Counting the errors logged\<close>

definition errors :: "world \<Rightarrow> nat" where
  "errors w = length (filter (\<lambda>(l, msg). l = LError) (w_log w))"

lemma errors_simps [simp]:
  "errors (quiet_next n sudo cmd w) = errors w"
  "errors (w\<lparr>w_log := w_log w @ [(l, msg)]\<rparr>) = errors w + (if l = LError then 1 else 0)"
  "errors (quiet_next n sudo cmd w\<lparr>w_log := w_log w @ [(l, msg)]\<rparr>) = errors w + (if l = LError then 1 else 0)"
  by (simp_all add: errors_def)

text \<open>
  What \<open>m\<close> does wherever the interfaces are \<open>store\<close>: if \<open>ok\<close> it returns, leaves the interfaces alone and logs
  \<open>n\<close> errors, else it raises \<open>AttributeError\<close>.
\<close>

definition logs :: "(nat \<Rightarrow> vif) \<Rightarrow> (world, unit) em \<Rightarrow> bool \<Rightarrow> nat \<Rightarrow> bool" where
  "logs store m ok n \<longleftrightarrow>
     (\<forall>w. w_vifs w = store \<longrightarrow>
        (if ok then \<exists>w'. m w = (Inr (), w') \<and> w_vifs w' = store \<and> errors w' = errors w + n
         else \<exists>w'. m w = (Inl AttributeError, w')))"

lemma logs_ret: "logs store (retE ()) True 0"
  by (simp add: logs_def em_simps)

lemma logs_then: "logs store m p a \<Longrightarrow> logs store n q b \<Longrightarrow> logs store (thenE m n) (p \<and> q) (a + b)"
  by (cases p) (fastforce simp: logs_def em_simps)+

lemma logs_bind:
  assumes "\<And>w. w_vifs w = store \<Longrightarrow>
    \<exists>x w1. m w = (Inr x, w1) \<and> w_vifs w1 = store \<and> errors w1 = errors w + a \<and> logs store (f x) ok b"
  shows "logs store (bindE m f) ok (a + b)"
  using assms by (cases ok) (fastforce simp: logs_def em_simps)+

lemma logs_for:
  "(\<And>x. x \<in> set xs \<Longrightarrow> logs store (b x) (ok x) (g x)) \<Longrightarrow> logs store (forE xs b) (\<forall>x \<in> set xs. ok x) (sum_list (map g xs))"
proof (induction xs)
  case (Cons x xs)
  with logs_then [of store "b x" "ok x" "g x" "forE xs b" "\<forall>x \<in> set xs. ok x" "sum_list (map g xs)"] show ?case by simp
qed (simp add: logs_ret)

lemma sum_filter: "sum_list (map (\<lambda>x. if p x then 1 else 0) xs) = length (filter p xs)"
  by (induction xs) simp_all

lemma sum_filter_concat:
  "sum_list (map (\<lambda>x. length (filter p (g x))) xs) = length (filter p (concat (map g xs)))"
  by (induction xs) simp_all

section \<open>One ping\<close>

text \<open>An output without the summary, or with both of its counts.\<close>

definition ping_readable :: "string \<Rightarrow> bool" where
  "ping_readable out \<longleftrightarrow>
     rx_search (rx_count ''packets transmitted'') out = None \<or> rx_search (rx_count ''received'') out \<noteq> None"

lemma int_digits_total: "list_all is_digit ds \<Longrightarrow> d \<or> ds \<noteq> [] \<Longrightarrow> \<exists>n. int_digits acc d ds = Some n"
  by (induction ds arbitrary: acc d) auto

lemma py_int_digits:
  assumes "list_all is_digit ds" "ds \<noteq> []"
  shows "\<exists>n. py_int ds = Inr n"
proof -
  obtain c cs where ds: "ds = c # cs" using assms(2) by (cases ds) auto
  with assms have c: "is_digit c" by simp
  have "strip ds = ds"
    using list_all_hd_last [OF assms] assms(2) is_digit_not_space by (intro strip_id) auto
  moreover have "c \<noteq> CHR ''-''" "c \<noteq> CHR ''+''" using c by (auto simp: is_digit_def)
  moreover obtain n where "int_digits 0 False ds = Some n" using int_digits_total assms by blast
  ultimately show ?thesis unfolding ds by (simp add: py_int_def del: int_digits.simps)
qed

lemma search_number:
  assumes "rx_search (rx_count word) s = Some gs"
  obtains n where "py_int (gs ! 0) = Inr n"
proof -
  from assms obtain a u b where "rx_spans (rx_count word) u gs" by (blast dest: rx_search_spans)
  then obtain ds where "list_all is_digit ds" "ds \<noteq> []" "gs ! 0 = ds"
    by (auto simp: rx_count_def rx_spaces_def rx_digits_def spans_plus spans_lit)
  with py_int_digits that show thesis by metis
qed

lemma verdict_logs:
  "logs store (thenE (verify_ping_result (Some out) cnt) (retE ())) (ping_readable out) 0"
proof (cases "rx_search (rx_count ''packets transmitted'') out")
  case None
  then show ?thesis by (simp add: logs_def ping_readable_def verify_ping_result_def em_simps logW_def logE_def)
next
  case (Some gs)
  obtain m where m: "py_int (gs ! 0) = Inr m" using search_number Some by metis
  show ?thesis
  proof (cases "rx_search (rx_count ''received'') out")
    case None
    with Some m show ?thesis by (simp add: logs_def ping_readable_def verify_ping_result_def em_simps group_def)
  next
    case hs: (Some hs)
    obtain n where "py_int (hs ! 0) = Inr n" using search_number hs by metis
    with Some m hs show ?thesis
      by (simp add: logs_def ping_readable_def verify_ping_result_def em_simps logW_def logE_def group_def)
  qed
qed

definition contradicts :: "(cmd_arg \<Rightarrow> int \<times> string) \<Rightarrow> bool \<Rightarrow> cmd_arg \<Rightarrow> bool" where
  "contradicts f exp_fail c \<longleftrightarrow> (fst (f c) = 0) = exp_fail"

text \<open>Only where success is expected the output is read.\<close>

definition read_fine :: "(cmd_arg \<Rightarrow> int \<times> string) \<Rightarrow> bool \<Rightarrow> cmd_arg \<Rightarrow> bool" where
  "read_fine f exp_fail c \<longleftrightarrow> exp_fail \<or> ping_readable (snd (f c))"

lemma exec_ping_logs:
  assumes "cmd \<noteq> []"
  shows "logs store (exec_ping (echo_env f) m cmd cnt (Some ef)) (read_fine f ef (wire True (CmdStr cmd)))
     (if contradicts f ef (wire True (CmdStr cmd)) then 1 else 0)"
proof -
  let ?c = "wire True (CmdStr cmd)"
  have run: "\<exists>rc er w1. guest_execute (echo_env f) m cmd 30 True (Some ef) w = (Inr (rc, Some (snd (f ?c)), er), w1)
      \<and> w_vifs w1 = w_vifs w \<and> errors w1 = errors w + (if contradicts f ef ?c then 1 else 0)" for w
    using assms by (simp add: Let_def contradicts_def)
  have verdict: "logs store (whenE (Some ef \<noteq> Some True) (thenE (verify_ping_result (Some (snd (f ?c))) cnt) (retE ())))
      (read_fine f ef ?c) 0"
    using verdict_logs [of store "snd (f ?c)" cnt] logs_ret [of store] by (cases ef) (simp_all add: whenE_def read_fine_def)
  have "\<exists>x w1. guest_execute (echo_env f) m cmd 30 True (Some ef) w = (Inr x, w1) \<and> w_vifs w1 = store
      \<and> errors w1 = errors w + (if contradicts f ef ?c then 1 else 0)
      \<and> logs store (case x of (rc, out, er) \<Rightarrow> whenE (Some ef \<noteq> Some True) (thenE (verify_ping_result out cnt) (retE ())))
          (read_fine f ef ?c) 0"
    if "w_vifs w = store" for w
    using run [of w] verdict that by fastforce
  from logs_bind [OF this] show ?thesis by (simp add: exec_ping_def)
qed

definition pair_pings :: "(nat \<Rightarrow> vif) \<Rightarrow> endpoint \<times> endpoint \<Rightarrow> cmd_arg list" where
  "pair_pings store p = (case vif_addr (store (ep_vif (snd p))) of None \<Rightarrow> []
     | Some a \<Rightarrow> map (\<lambda>c. wire True (CmdStr c)) (ping_cmds ''ping'' 5 (ia_ipv4 a) @ ping_cmds ''ping -6'' 5 (ia_ipv6 a)))"

definition pings :: "(nat \<Rightarrow> vif) \<Rightarrow> vt_entry list \<Rightarrow> cmd_arg list" where
  "pings store es = concat (map (pair_pings store) (vt_pairs es))"

lemma ping_cmds_ne: "c \<in> set (ping_cmds s cnt ip) \<Longrightarrow> c \<noteq> []"
  by (auto simp: ping_cmds_def fmt_def)

lemma ping_loop_logs:
  fixes s cnt ip
  defines "cs \<equiv> map (\<lambda>c. wire True (CmdStr c)) (ping_cmds s cnt ip)"
  shows "logs store (forE (ping_cmds s cnt ip) (\<lambda>cmd. exec_ping (echo_env f) m cmd cnt (Some ef)))
     (\<forall>c \<in> set cs. read_fine f ef c) (length (filter (contradicts f ef) cs))"
  using logs_for [of "ping_cmds s cnt ip" store "\<lambda>cmd. exec_ping (echo_env f) m cmd cnt (Some ef)",
      OF exec_ping_logs [OF ping_cmds_ne]]
  by (simp add: cs_def sum_filter [of "\<lambda>c. contradicts f ef (wire True (CmdStr c))"] filter_map comp_def)

lemma dep_addr_logs:
  assumes "vif_addr (store (ep_vif d)) = Some a" "logs store (g (h a)) ok n"
  shows "logs store (bindE (dep_addr h d) g) ok n"
  using assms by (simp add: logs_def dep_addr_def em_simps attr_of_def)

lemma ping_pair_logs:
  assumes "vif_addr (store (ep_vif (snd p))) \<noteq> None"
  shows "logs store (ping_pair (echo_env f) ss (Some ef) p) (\<forall>c \<in> set (pair_pings store p). read_fine f ef c)
     (length (filter (contradicts f ef) (pair_pings store p)))"
proof -
  obtain s d where p: "p = (s, d)" by (cases p)
  with assms obtain a where a: "vif_addr (store (ep_vif d)) = Some a" by auto
  have "logs store (bindE (dep_addr h d) (\<lambda>ip. forE (ping_cmds t 5 ip) (\<lambda>cmd. exec_ping (echo_env f) (ep_vm ss s) cmd 5 (Some ef))))
      (\<forall>c \<in> set (map (\<lambda>c. wire True (CmdStr c)) (ping_cmds t 5 (h a))). read_fine f ef c)
      (length (filter (contradicts f ef) (map (\<lambda>c. wire True (CmdStr c)) (ping_cmds t 5 (h a)))))" for h t
    by (rule dep_addr_logs [where store = store and d = d and a = a and h = h, OF a], rule ping_loop_logs)
  from logs_then [OF this [of ia_ipv4 "''ping''"] this [of ia_ipv6 "''ping -6''"]] a show ?thesis
    by (simp add: p ping_pair_def pair_pings_def ping_ipv4_addr_def ping_ipv6_addr_def ball_Un)
qed

lemma ping_pairs_logs:
  assumes "\<forall>p \<in> set (vt_pairs es). vif_addr (store (ep_vif (snd p))) \<noteq> None"
  shows "logs store (forE (vt_pairs es) (ping_pair (echo_env f) ss (Some ef)))
     (\<forall>c \<in> set (pings store es). read_fine f ef c) (length (filter (contradicts f ef) (pings store es)))"
  using logs_for [of "vt_pairs es" store _ "\<lambda>p. \<forall>c \<in> set (pair_pings store p). read_fine f ef c"
      "\<lambda>p. length (filter (contradicts f ef) (pair_pings store p))", OF ping_pair_logs [where f = f and ef = ef and ss = ss]] assms
  by (simp add: sum_filter_concat pings_def)

section \<open>The results of the performance test\<close>

lemma iperf_pair_heads:
  assumes "iperf_pair env ss proto parallel ef p w = (Inr rs, w')"
  shows "list_all2 starts_with [fmt [proto, '' ipv4 throughput: ''], fmt [proto, '' ipv6 throughput: '']] rs"
  using assms
  by (auto simp: iperf_pair_def returns execute_iperf_ipv4_def execute_iperf_ipv6_def execute_iperf_def fmt_def
      starts_with_iff split: prod.splits)

lemma netperf_pair_heads:
  assumes "netperf_pair env ss p w = (Inr rs, w')"
  shows "list_all2 starts_with [''TCP_RR ipv4 '', ''TCP_RR ipv6 ''] rs"
  using assms
  by (auto simp: netperf_pair_def returns execute_netperf_ipv4_def execute_netperf_ipv6_def execute_netperf_def fmt_def
      starts_with_iff split: prod.splits option.splits)

lemma collect_all2:
  assumes "\<And>x w zs w'. b x w = (Inr zs, w') \<Longrightarrow> list_all2 P (g x) zs" and "collectE xs b w = (Inr ys, w')"
  shows "list_all2 P (concat (map g xs)) ys"
  using assms(2)
proof (induction xs arbitrary: w ys)
  case (Cons x xs)
  then obtain zs w1 us where "b x w = (Inr zs, w1)" "collectE xs b w1 = (Inr us, w')" "ys = zs @ us"
    by (auto simp: returns)
  with Cons.IH [of w1 us] assms(1) show ?case by (auto intro: list_all2_appendI)
qed (simp add: returns)

section \<open>Properties\<close>



text \<open>
  When the performance test returns, its results are, for each allowed pair in order, the TCP throughput
  over IPv4 and IPv6 and the transaction rate over IPv4 and IPv6.
\<close>

theorem performance_results_in_order:
  assumes "execute_performance_test env ss vt w = (Inr rs, w')"
  shows "list_all2 starts_with
     (concat (map (\<lambda>p. [''tcp ipv4 throughput: '', ''tcp ipv6 throughput: '', ''TCP_RR ipv4 '', ''TCP_RR ipv6 ''])
        (vt_pairs (vt_allow vt)))) rs"
proof (rule collect_all2)
  show "collectE (vt_pairs (vt_allow vt)) (\<lambda>p. bindE (iperf_pair env ss ''tcp'' 1 False p) (\<lambda>r1.
      bindE (netperf_pair env ss p) (\<lambda>r2. retE (r1 @ r2)))) w = (Inr rs, w')"
    using assms by (simp add: execute_performance_test_def)
next
  fix p w zs w'
  assume "bindE (iperf_pair env ss ''tcp'' 1 False p) (\<lambda>r1. bindE (netperf_pair env ss p) (\<lambda>r2. retE (r1 @ r2))) w = (Inr zs, w')"
  then obtain r1 w1 r2 where r: "iperf_pair env ss ''tcp'' 1 False p w = (Inr r1, w1)"
    "netperf_pair env ss p w1 = (Inr r2, w')" "zs = r1 @ r2" by (auto simp: returns)
  from list_all2_appendI [OF iperf_pair_heads [OF r(1)] netperf_pair_heads [OF r(2)]] r(3)
  show "list_all2 starts_with [''tcp ipv4 throughput: '', ''tcp ipv6 throughput: '', ''TCP_RR ipv4 '', ''TCP_RR ipv6 ''] zs"
    by (simp add: fmt_def)
qed

theorem performance_results_in_order_witness:
  "\<exists>rs w'. execute_performance_test quiet_env suts_t vt_t (world0\<lparr>w_vifs := vif_t\<rparr>) = (Inr rs, w') \<and> length rs = 4"
proof -
  have p: "vt_pairs (vt_allow vt_t) = [(ep_t 0 0, ep_t 1 1)]"
    by (simp add: vt_pairs_def vt_t_def get_deps_def VerifyTopologyEntry_def)
  have cmds: "iperf_cmd ip bw proto par \<noteq> []" for ip bw proto par by (simp add: iperf_cmd_def Let_def fmt_def)
  obtain rs w' where run: "execute_performance_test quiet_env suts_t vt_t (world0\<lparr>w_vifs := vif_t\<rparr>) = (Inr rs, w')"
    by (simp add: execute_performance_test_def p iperf_pair_def netperf_pair_def em_simps dep_addr_def vif_t_def
        attr_of_def execute_iperf_ipv4_def execute_iperf_ipv6_def execute_iperf_def start_iperf_server_def
        stop_iperf_server_def run_iperf_client_def cmds verify_iperf_result_def bandwidths_def log_text_def logW_def logE_def
        guest_run_def guest_exec_def fmt_Cons_ne
        execute_netperf_ipv4_def execute_netperf_ipv6_def execute_netperf_def start_netperf_server_def
        stop_netperf_server_def run_netperf_client_def process_netperf_result_def Let_def)
  from performance_results_in_order [OF run] have "length rs = 4"
    using list_all2_lengthD by (fastforce simp: p)
  with run show ?thesis by blast
qed

end
