(* ===== verification/Nat_Dump.thy ===== *)
theory Nat_Dump imports Pal_Props begin

text \<open>
  The reader of \<open>nat.py\<close> for the connections that \<open>ovs-appctl dpctl/dump-conntrack -m\<close> lists: one line for
  each connection, which starts with the protocol and goes on with \<open>key=value\<close> items, where a value may
  be a list of items in parentheses.
\<close>

section \<open>The reader\<close>

datatype kv = KStr string | KObj "(string \<times> kv) list"

text \<open>\<open>kvs[key] = v\<close> of a dictionary in insertion order.\<close>

fun kv_put :: "string \<Rightarrow> kv \<Rightarrow> (string \<times> kv) list \<Rightarrow> (string \<times> kv) list" where
  "kv_put k v [] = [(k, v)]"
| "kv_put k v ((k', v') # kvs) = (if k = k' then (k, v) # kvs else (k', v') # kv_put k v kvs)"

text \<open>
  The loop over the characters of a value: the text before the delimiter, whether the delimiter is a
  closing parenthesis, and what follows it.  Without a delimiter the value loses its last character, which
  is the end of the line.
\<close>

definition kv_delim :: "char \<Rightarrow> bool" where
  "kv_delim c = (c = CHR '')'' \<or> c = CHR '','')"

definition kv_value :: "string \<Rightarrow> string \<times> bool \<times> string" where
  "kv_value s =
     (let v = takeWhile (\<lambda>c. \<not> kv_delim c) s in
      case dropWhile (\<lambda>c. \<not> kv_delim c) s of
        [] \<Rightarrow> (butlast v, False, [])
      | c # cs \<Rightarrow> (v, c = CHR '')'', cs))"

definition skip_comma :: "string \<Rightarrow> string" where
  "skip_comma s = (case s of [] \<Rightarrow> [] | c # cs \<Rightarrow> if c = CHR '','' then cs else s)"

lemma kv_value_shorter: "kv_value s = (v, b, r) \<Longrightarrow> length r \<le> length s"
  using length_dropWhile_le [of "\<lambda>c. \<not> kv_delim c" s]
  by (auto simp: kv_value_def Let_def split: list.splits)

lemma skip_comma_shorter: "length (skip_comma s) \<le> length s"
  by (simp add: skip_comma_def split: list.splits)

lemma drop_Suc_shorter: "drop (Suc i) s = c # cs \<Longrightarrow> Suc (length cs) < length s"
  by (drule arg_cong [where f = length]) simp

lemma skip_value_shorter: "kv_value s = (v, b, r) \<Longrightarrow> length (skip_comma r) \<le> length s"
  using kv_value_shorter skip_comma_shorter order_trans by blast

text \<open>
  \<open>_parse_kv(s)\<close> with the text after the cursor instead of the cursor.  The rest a nested call returns is
  never longer than its argument (\<open>parse_kv_shorter\<close>), so the last case of the nest is not reached.
\<close>

function parse_kv :: "(string \<times> kv) list \<Rightarrow> string \<Rightarrow> ((string \<times> kv) list \<times> string) res" where
  "parse_kv kvs s =
     (case find_char (CHR ''='') s of
        None \<Rightarrow> Inr (kvs, s)
      | Some i \<Rightarrow>
          let key = take i s in
          (case drop (Suc i) s of
             [] \<Rightarrow> Inl IndexError
           | c # cs \<Rightarrow>
               if c = CHR ''('' then
                 (case parse_kv [] cs of
                    Inl e \<Rightarrow> Inl e
                  | Inr (inner, r) \<Rightarrow>
                      let kvs' = kv_put key (KObj inner) kvs in
                      if r = [] then Inr (kvs', [])
                      else if length r \<le> length cs then parse_kv kvs' (skip_comma r)
                      else Inl (OtherError []))
               else
                 (case kv_value (c # cs) of (v, close, r) \<Rightarrow>
                    let kvs' = kv_put key (KStr v) kvs in
                    if close \<or> r = [] then Inr (kvs', r) else parse_kv kvs' (skip_comma r))))"
  by pat_completeness auto

termination
  by (relation "measure (\<lambda>(kvs, s). length s)")
    (auto dest!: drop_Suc_shorter skip_value_shorter [OF sym]
      intro: le_less_trans [OF skip_comma_shorter])

declare parse_kv.simps [simp del]

lemma parse_kv_shorter: "parse_kv kvs s = Inr (m, r) \<Longrightarrow> length r \<le> length s"
proof (induction kvs s arbitrary: m r rule: parse_kv.induct)
  case (1 kvs s)
  show ?case
  proof (cases "find_char (CHR ''='') s")
    case None
    with "1.prems" show ?thesis by (simp add: parse_kv.simps [of kvs s])
  next
    case (Some i)
    with "1.prems" obtain c cs where d: "drop (Suc i) s = c # cs"
      by (cases "drop (Suc i) s") (auto simp: parse_kv.simps [of kvs s])
    note l = drop_Suc_shorter [OF d]
    show ?thesis
    proof (cases "c = CHR ''(''")
      case True
      with "1.prems" Some d obtain inner r' where 2: "parse_kv [] cs = Inr (inner, r')"
        "r' = [] \<and> r = [] \<or> parse_kv (kv_put (take i s) (KObj inner) kvs) (skip_comma r') = Inr (m, r) \<and> length r' \<le> length cs \<and> r' \<noteq> []"
        by (auto simp: parse_kv.simps [of kvs s] Let_def split: sum.splits if_splits)
      then show ?thesis
        using "1.IH"(2) [OF Some refl d True 2(1) refl refl] l skip_comma_shorter [of r'] by fastforce
    next
      case False
      obtain v b r' where v: "kv_value (c # cs) = (v, b, r')" by (rule prod_cases3)
      with "1.prems" Some d False have "b \<or> r' = [] \<Longrightarrow> r = r'"
        "\<not> (b \<or> r' = []) \<Longrightarrow> parse_kv (kv_put (take i s) (KStr v) kvs) (skip_comma r') = Inr (m, r)"
        by (auto simp: parse_kv.simps [of kvs s] Let_def)
      then show ?thesis
        using "1.IH"(3) [OF Some refl d False v [symmetric] refl refl] l kv_value_shorter [OF v] skip_comma_shorter [of r']
        by (cases "b \<or> r' = []") fastforce+
    qed
  qed
qed

text \<open>\<open>_parse_conns\<close>: a line without a comma loses its last character in the protocol and is read as a whole.\<close>

definition parse_conn :: "string \<Rightarrow> (string \<times> kv) list res" where
  "parse_conn line =
     (let (proto, body) = (case find_char (CHR '','') line of
             None \<Rightarrow> (butlast line, line)
           | Some i \<Rightarrow> (take i line, drop (Suc i) line))
      in bindR (parse_kv [] body) (\<lambda>(conn, r). Inr (kv_put ''proto'' (KStr proto) conn)))"

definition parse_conns :: "string \<Rightarrow> (string \<times> kv) list list res" where
  "parse_conns dump = collectR (\<lambda>line. bindR (parse_conn line) (\<lambda>conn. Inr [conn])) (readlines dump)"

end
