(* ===== verification/Nat_Config.thy ===== *)
theory Nat_Config imports Nat_Dump begin

text \<open>
  \<open>nat.py\<close>: configuring the machines of a verification topology for NAT and restoring them, the NAT
  specification and its action text, the flows of the NAT tables, and the keywords that test source and
  destination NAT and the ICMP errors related to NATed connections.
\<close>

section \<open>Networks of the NAT router\<close>

definition NAT_CLIENT_NETV4 :: ipnet where
  "NAT_CLIENT_NETV4 = \<lparr>network_address = IPv4Address (((172 * 256 + 10) * 256 + 0) * 256 + 0), prefixlen = 16\<rparr>"

definition NAT_CLIENT_NETV6 :: ipnet where
  "NAT_CLIENT_NETV6 = \<lparr>network_address = ipv6_of_groups [0x2001, 0x1000, 0x1000, 0x1000, 0, 0, 0xac0a, 0], prefixlen = 112\<rparr>"

definition NAT_SERVER_NETV4 :: ipnet where
  "NAT_SERVER_NETV4 = \<lparr>network_address = IPv4Address (((192 * 256 + 200) * 256 + 0) * 256 + 0), prefixlen = 16\<rparr>"

definition NAT_SERVER_NETV6 :: ipnet where
  "NAT_SERVER_NETV6 = \<lparr>network_address = ipv6_of_groups [0x2001, 0x1000, 0x1000, 0x1000, 0, 0, 0xc0c8, 0], prefixlen = 112\<rparr>"

definition NAT_SNAT_ADDR_IDX_START :: int where "NAT_SNAT_ADDR_IDX_START = 10"
definition NAT_SNAT_ADDR_NUM :: nat where "NAT_SNAT_ADDR_NUM = 10"
definition NAT_ENDPOINT_ADDR_IDX_START :: int where "NAT_ENDPOINT_ADDR_IDX_START = 100"
definition NAT_SNAT_PORT_START :: int where "NAT_SNAT_PORT_START = 10001"

text \<open>\<open>net[i]\<close> for an index within the network.\<close>

definition net_at :: "ipnet \<Rightarrow> int \<Rightarrow> ipaddr" where
  "net_at n i = ip_like (network_address n) (ip_int (network_address n) + i)"

definition NAT_ROUTER_CIF_MAC :: string where "NAT_ROUTER_CIF_MAC = ''80:88:88:88:88:88''"
definition NAT_ROUTER_CIF_IPV4 :: ipaddr where "NAT_ROUTER_CIF_IPV4 = net_at NAT_CLIENT_NETV4 1"
definition NAT_ROUTER_CIF_IPV6 :: ipaddr where "NAT_ROUTER_CIF_IPV6 = net_at NAT_CLIENT_NETV6 1"
definition NAT_ROUTER_SIF_MAC :: string where "NAT_ROUTER_SIF_MAC = ''60:66:66:66:66:66''"
definition NAT_ROUTER_SIF_IPV4 :: ipaddr where "NAT_ROUTER_SIF_IPV4 = net_at NAT_SERVER_NETV4 1"
definition NAT_ROUTER_SIF_IPV6 :: ipaddr where "NAT_ROUTER_SIF_IPV6 = net_at NAT_SERVER_NETV6 1"

section \<open>Configuring the machines\<close>

record nat_config =
  nc_routes4 :: "(ipnet \<times> ipaddr) list"
  nc_routes6 :: "(ipnet \<times> ipaddr) list"
  nc_neighs4 :: "(ipaddr \<times> string) list"
  nc_neighs6 :: "(ipaddr \<times> string) list"

definition configure_vm_cmds :: "vif \<Rightarrow> if_address \<Rightarrow> nat_config \<Rightarrow> string list" where
  "configure_vm_cmds v a c =
     (let dev = virtio v; net4 = net_str (ia_ipv4_network a); net6 = net_str (ia_ipv6_network a) in
      [fmt [''ip -4 addr flush dev '', dev, '' scope global''],
       fmt [''ip -6 addr flush dev '', dev, '' scope global''],
       fmt [''ip link set '', dev, '' up''],
       fmt [''ip -4 route flush '', net4],
       fmt [''ip -6 route flush '', net6],
       ''ip -4 route flush cache'',
       ''ip -6 route flush cache'',
       fmt [''ip -4 neigh flush dev '', dev],
       fmt [''ip -6 neigh flush dev '', dev],
       fmt [''ip -4 addr add '', ipv4_str_with_prefix a, '' dev '', dev],
       fmt [''ip -6 addr add '', ipv6_str_with_prefix a, '' dev '', dev],
       fmt [''ip -4 route flush '', net4],
       fmt [''ip -6 route flush '', net6],
       fmt [''ip -4 route add '', net4, '' dev '', dev],
       fmt [''ip -6 route add '', net6, '' dev '', dev]]
      @ map (\<lambda>(n, gw). fmt [''ip route add '', net_str n, '' via '', ip_str gw]) (nc_routes4 c)
      @ map (\<lambda>(n, gw). fmt [''ip -6 route add '', net_str n, '' via '', ip_str gw]) (nc_routes6 c)
      @ map (\<lambda>(ip, mac). fmt [''ip neigh add '', ip_str ip, '' lladdr '', mac, '' dev '', dev]) (nc_neighs4 c)
      @ map (\<lambda>(ip, mac). fmt [''ip -6 neigh add '', ip_str ip, '' lladdr '', mac, '' dev '', dev]) (nc_neighs6 c))"

definition configure_vm :: "ssh_env \<Rightarrow> vm \<Rightarrow> nat \<Rightarrow> nat_config \<Rightarrow> (world, unit) em" where
  "configure_vm env m r c =
     bindE (readE (\<lambda>w. bindR (attr_of (vif_addr (w_vifs w r))) (\<lambda>a. Inr (w_vifs w r, a)))) (\<lambda>(v, a).
     guest_execute_batch env m (configure_vm_cmds v a c))"

definition nat_address :: "ipnet \<Rightarrow> ipnet \<Rightarrow> int \<Rightarrow> if_address res" where
  "nat_address net4 net6 i =
     bindR (net_nth net4 i) (\<lambda>a4.
     bindR (net_nth net6 i) (\<lambda>a6.
     Inr \<lparr>ia_ipv4 = a4, ia_ipv4_network = net4, ia_ipv6 = a6, ia_ipv6_network = net6\<rparr>))"

text \<open>The address of an interface is saved and replaced.\<close>

definition set_nat_addr :: "ipnet \<Rightarrow> ipnet \<Rightarrow> int \<Rightarrow> nat \<Rightarrow> (world, unit) em" where
  "set_nat_addr net4 net6 i r =
     thenE (upd_vif r (\<lambda>v. v\<lparr>vif_restore_addr := vif_addr v\<rparr>))
    (bindE (liftE (nat_address net4 net6 i)) (\<lambda>a. upd_vif r (\<lambda>v. v\<lparr>vif_addr := Some a\<rparr>)))"

definition client_config :: nat_config where
  "client_config = \<lparr>nc_routes4 = [(NAT_SERVER_NETV4, NAT_ROUTER_CIF_IPV4)],
     nc_routes6 = [(NAT_SERVER_NETV6, NAT_ROUTER_CIF_IPV6)],
     nc_neighs4 = [(NAT_ROUTER_CIF_IPV4, NAT_ROUTER_CIF_MAC)],
     nc_neighs6 = [(NAT_ROUTER_CIF_IPV6, NAT_ROUTER_CIF_MAC)]\<rparr>"

definition server_config :: "ipaddr list \<Rightarrow> ipaddr list \<Rightarrow> nat_config" where
  "server_config ips4 ips6 = \<lparr>nc_routes4 = [(NAT_CLIENT_NETV4, NAT_ROUTER_SIF_IPV4)],
     nc_routes6 = [(NAT_CLIENT_NETV6, NAT_ROUTER_SIF_IPV6)],
     nc_neighs4 = map (\<lambda>ip. (ip, NAT_ROUTER_SIF_MAC)) (NAT_ROUTER_SIF_IPV4 # ips4),
     nc_neighs6 = map (\<lambda>ip. (ip, NAT_ROUTER_SIF_MAC)) (NAT_ROUTER_SIF_IPV6 # ips6)\<rparr>"

text \<open>\<open>_nat_configure_vms\<close>; the result is the topology, trimmed to its first allowed entry.\<close>

definition nat_configure_vms ::
  "ssh_env \<Rightarrow> sut list \<Rightarrow> verify_topology \<Rightarrow> ipaddr list \<Rightarrow> ipaddr list \<Rightarrow> (world, verify_topology) em" where
  "nat_configure_vms env ss vt svr_neigh_ipv4s svr_neigh_ipv6s =
     (case vt_allow vt of
        [] \<Rightarrow> raiseE TypeError
      | vte # _ \<Rightarrow>
          let sep = vte_sep vte in
          thenE (set_nat_addr NAT_CLIENT_NETV4 NAT_CLIENT_NETV6 NAT_ENDPOINT_ADDR_IDX_START (ep_vif sep))
         (thenE (configure_vm env (ep_vm ss sep) (ep_vif sep) client_config)
         (thenE (forE (enumerate 0 (get_full_deps vte)) (\<lambda>(idx, dep).
                   thenE (set_nat_addr NAT_SERVER_NETV4 NAT_SERVER_NETV6 (NAT_ENDPOINT_ADDR_IDX_START + int idx) (ep_vif dep))
                         (configure_vm env (ep_vm ss dep) (ep_vif dep) (server_config svr_neigh_ipv4s svr_neigh_ipv6s))))
                (retE \<lparr>vt_allow = [vte], vt_deny = []\<rparr>))))"

definition restore_vif :: "nat \<Rightarrow> (world, unit) em" where
  "restore_vif r = upd_vif r (\<lambda>v. v\<lparr>vif_addr := vif_restore_addr v, vif_restore_addr := None\<rparr>)"

definition nat_restore_vms :: "verify_topology \<Rightarrow> (world, unit) em" where
  "nat_restore_vms vt =
     (case vt_allow vt of
        [] \<Rightarrow> raiseE IndexError
      | vte # _ \<Rightarrow> thenE (restore_vif (ep_vif (vte_sep vte))) (forE (get_full_deps vte) (\<lambda>dep. restore_vif (ep_vif dep))))"

text \<open>The addresses of source NAT, which the servers must know as neighbours.\<close>

definition snat_addrs :: "ipnet \<Rightarrow> ipaddr list res" where
  "snat_addrs n = collectR (\<lambda>idx. bindR (net_nth n (NAT_SNAT_ADDR_IDX_START + int idx)) (\<lambda>a. Inr [a])) [0..<NAT_SNAT_ADDR_NUM]"

definition snat_configure_vms :: "ssh_env \<Rightarrow> sut list \<Rightarrow> verify_topology \<Rightarrow> (world, verify_topology) em" where
  "snat_configure_vms env ss vt =
     bindE (liftE (snat_addrs NAT_SERVER_NETV4)) (\<lambda>ips4.
     bindE (liftE (snat_addrs NAT_SERVER_NETV6)) (\<lambda>ips6.
     nat_configure_vms env ss vt ips4 ips6))"

definition dnat_configure_vms :: "ssh_env \<Rightarrow> sut list \<Rightarrow> verify_topology \<Rightarrow> (world, verify_topology) em" where
  "dnat_configure_vms env ss vt = nat_configure_vms env ss vt [] []"

section \<open>The NAT specification\<close>

text \<open>
  The addresses are read back from their own text by the constructor, which gives the same addresses.  An
  address object is always true, so \<open>not self.vipv4\<close> asks for \<open>None\<close>.
\<close>

record nat_spec =
  ipv4_ia_start :: ipaddr
  ipv6_ia_start :: ipaddr
  ia_num :: int
  port_start :: int
  port_num :: int
  nat_flags :: "string option"
  vipv4 :: "ipaddr option"
  vipv6 :: "ipaddr option"

definition is_snat :: "nat_spec \<Rightarrow> bool" where
  "is_snat ns = (vipv4 ns = None)"

definition is_dnat :: "nat_spec \<Rightarrow> bool" where
  "is_dnat ns = (\<not> is_snat ns)"

text \<open>The range of addresses \<open>start-(start + num - 1)\<close>, or the single address.\<close>

definition addr_range :: "ipaddr \<Rightarrow> int \<Rightarrow> string res" where
  "addr_range start num =
     (if num > 1 then
        bindR (ip_add start num) (\<lambda>a. bindR (ip_add a (- 1)) (\<lambda>b. Inr (fmt [ip_str start, ''-'', ip_str b])))
      else Inr (ip_str start))"

definition port_range :: "int \<Rightarrow> int \<Rightarrow> string" where
  "port_range start num =
     (if num \<noteq> 0 then
        fmt ['':'', int_str start, if num > 1 then ''-'' @ int_str (start + num - 1) else []]
      else [])"

definition generate_nat_action :: "nat_spec \<Rightarrow> bool \<Rightarrow> string res" where
  "generate_nat_action ns ipv4 =
     (let bracket = (\<not> ipv4 \<and> port_num ns \<noteq> 0) in
      bindR (addr_range (if ipv4 then ipv4_ia_start ns else ipv6_ia_start ns) (ia_num ns)) (\<lambda>addrs.
      Inr (fmt [if is_snat ns then ''src='' else ''dst='',
        if bracket then ''['' else [], addrs, if bracket then '']'' else [],
        port_range (port_start ns) (port_num ns),
        case nat_flags ns of None \<Rightarrow> [] | Some fl \<Rightarrow> if fl = [] then [] else '','' @ fl])))"

section \<open>The flows\<close>

definition nat_tbl :: "int \<Rightarrow> string" where
  "nat_tbl i = fmt [''table='', int_str (OF_TABLE_NAT + i)]"

definition vip_str :: "ipaddr option \<Rightarrow> string" where
  "vip_str x = (case x of None \<Rightarrow> ''None'' | Some a \<Rightarrow> ip_str a)"

definition nat_track_flows :: "string list" where
  "nat_track_flows =
     [fmt [nat_tbl 0, '',priority=10,ip,action=ct'', lpar, ''nat,'', nat_tbl 1, rpar],
      fmt [nat_tbl 0, '',priority=10,ipv6,action=ct'', lpar, ''nat,'', nat_tbl 1, rpar],
      fmt [nat_tbl 0, '',priority=0,action=drop'']]"

text \<open>The protocol part of a match with the application helper it needs, and the family of its action.\<close>

definition nat_new_flow :: "string \<Rightarrow> string \<Rightarrow> string \<Rightarrow> string \<Rightarrow> string" where
  "nat_new_flow base proto alg act =
     fmt [base, proto, '',action=ct'', lpar, alg, ''commit,nat'', lpar, act, rpar, '','', nat_tbl 2, rpar]"

definition nat_new_flows :: "nat_spec \<Rightarrow> pyval \<Rightarrow> string \<Rightarrow> string \<Rightarrow> string list" where
  "nat_new_flows ns ofp act4 act6 =
     (let base = fmt [nat_tbl 1, '',priority=10,in_port='', py_str ofp, '',ct_state=+new,''];
          base4 = fmt [base, ''ip,'', if is_dnat ns then fmt [''nw_dst='', vip_str (vipv4 ns), '',''] else []];
          base6 = fmt [base, ''ipv6,'', if is_dnat ns then fmt [''ipv6_dst='', vip_str (vipv6 ns), '',''] else []]
      in [nat_new_flow base4 ''tcp,tp_dst=21'' ''alg=ftp,'' act4,
          nat_new_flow base4 ''udp,tp_dst=69'' ''alg=tftp,'' act4,
          nat_new_flow base6 ''tcp6,tp_dst=21'' ''alg=ftp,'' act6,
          nat_new_flow base6 ''udp6,tp_dst=69'' ''alg=tftp,'' act6]
         @ map (\<lambda>p. nat_new_flow base4 p [] act4) [''tcp'', ''udp'', ''icmp'']
         @ map (\<lambda>p. nat_new_flow base6 p [] act6) [''tcp6'', ''udp6'', ''icmp6''])"

definition nat_related_flows :: "string list" where
  "nat_related_flows =
     map (\<lambda>p. fmt [nat_tbl 1, '',priority=10,ct_state=+new+rel,'', p, '',action=ct'', lpar, nat_tbl 2, '',commit,nat'', rpar])
       [''tcp'', ''tcp6'', ''udp'', ''udp6'']
     @ map (\<lambda>st. fmt [nat_tbl 1, '',priority=10,ct_state='', st, '',action=resubmit'', lpar, '','', int_str (OF_TABLE_NAT + 2), rpar])
       [''+est'', ''+rel'']
     @ [fmt [nat_tbl 2, '',action=resubmit'', lpar, '','', int_str (OF_TABLE_NAT + 3), rpar,
          '',goto_table:'', int_str OF_TABLE_L2_MATCH]]"

text \<open>The flows that give a packet for an interface its MAC address and that of the router.\<close>

definition nat_mac_flows :: "string \<Rightarrow> vif \<Rightarrow> string list res" where
  "nat_mac_flows src_mac v =
     bindR (attr_of (vif_addr v)) (\<lambda>a.
     (let act = fmt ['',action=mod_dl_dst'', lpar, opt_str (vif_mac v), rpar, '',mod_dl_src'', lpar, src_mac, rpar] in
      Inr [fmt [nat_tbl 3, '',ip,nw_dst='', ip_str (ia_ipv4 a), act],
           fmt [nat_tbl 3, '',ip6,ipv6_dst='', ip_str (ia_ipv6 a), act]]))"

definition nat_flows :: "nat_spec \<Rightarrow> vif \<Rightarrow> vif list \<Rightarrow> string list res" where
  "nat_flows ns v deps =
     bindR (generate_nat_action ns True) (\<lambda>act4.
     bindR (generate_nat_action ns False) (\<lambda>act6.
     bindR (nat_mac_flows NAT_ROUTER_CIF_MAC v) (\<lambda>client.
     bindR (collectR (nat_mac_flows NAT_ROUTER_SIF_MAC) deps) (\<lambda>servers.
     Inr (nat_track_flows @ nat_new_flows ns (vif_ofp v) act4 act6 @ nat_related_flows @ client @ servers)))))"

definition first_allowed :: "verify_topology \<Rightarrow> vt_entry res" where
  "first_allowed vt = (case vt_allow vt of [] \<Rightarrow> Inl IndexError | vte # _ \<Rightarrow> Inr vte)"

definition nat_setup_flows :: "ssh_env \<Rightarrow> verify_topology \<Rightarrow> string \<Rightarrow> nat_spec \<Rightarrow> unit tbm" where
  "nat_setup_flows env vt name ns =
     bindE (liftE (first_allowed vt)) (\<lambda>vte.
     let k = ep_host (vte_sep vte) in
     thenE (setup_default_pipeline_on_all_suts env name)
    (thenE (on_sut k (vs_run env (fmt [''ovs-ofctl del-flows '', name, '' '', nat_tbl 0])))
    (bindE (readE (\<lambda>(ss, w). nat_flows ns (w_vifs w (ep_vif (vte_sep vte))) (map (w_vifs w \<circ> ep_vif) (get_full_deps vte)))) (\<lambda>flows.
     on_sut k (provision_flows env name flows)))))"

section \<open>Checking the connections\<close>

definition live_conns :: "string option \<Rightarrow> (string \<times> kv) list list \<Rightarrow> nat" where
  "live_conns proto conns =
     length (filter (\<lambda>conn. case proto of None \<Rightarrow> True | Some p \<Rightarrow> p = [] \<or> map_of conn ''proto'' = Some (KStr p)) conns)"

definition check_nat_result :: "ssh_env \<Rightarrow> nat \<Rightarrow> int \<Rightarrow> string option \<Rightarrow> unit tbm" where
  "check_nat_result env k exp_conn_num proto =
     thenE (on_snd (sleepE 30))
    (bindE (on_sut k (vs_execute env ''ovs-appctl dpctl/dump-conntrack -m'' 30)) (\<lambda>(rc, out, er).
     bindE (liftE (parse_conns out)) (\<lambda>conns.
     let live_conn = live_conns proto conns in
     if int live_conn \<noteq> exp_conn_num then raiseE (RuntimeError (''NAT conn num is '' @ nat_str live_conn))
     else retE ())))"

end
