(* ===== verification/Nat_Verify.thy ===== *)
theory Nat_Verify imports Nat_Config begin

text \<open>
  The keywords of \<open>nat.py\<close> that test NAT: sessions over TCP and ICMP, file transfers, and the ICMP errors
  related to a NATed connection.
\<close>

section \<open>Related ICMP errors\<close>

definition loop_cmd :: string where
  "loop_cmd = fmt [''sudo sh -c '', squote, ''cat << EOF > ./loop'', [nl], ''#!/bin/sh'', [nl], [nl],
     ''while true; do '', [nl], ''    echo '', dquote, ''hello'', dquote, [nl], ''    sleep 1'', [nl], ''done'', [nl], squote]"

text \<open>What depends on the IP version, and the addresses each side sees of the other.\<close>

record related_view =
  rv_client_ip :: ipaddr
  rv_server_ip :: ipaddr
  rv_client_view_server :: "ipaddr option"
  rv_server_view_client :: "ipaddr option"
  rv_nc_option :: string
  rv_iptables_option :: string
  rv_reject_type :: string
  rv_expected_key :: string
  rv_tcpdump_option :: string

definition related_view_of :: "nat_spec \<Rightarrow> bool \<Rightarrow> if_address \<Rightarrow> if_address \<Rightarrow> related_view" where
  "related_view_of ns v4 client server =
     (let ip = (if v4 then ia_ipv4 else ia_ipv6); start = (if v4 then ipv4_ia_start ns else ipv6_ia_start ns);
          vip = (if v4 then vipv4 ns else vipv6 ns)
      in \<lparr>rv_client_ip = ip client, rv_server_ip = ip server,
          rv_client_view_server = (if is_snat ns then Some (ip server) else vip),
          rv_server_view_client = (if is_snat ns then Some start else Some (ip client)),
          rv_nc_option = (if v4 then [] else '' -6 ''),
          rv_iptables_option = (if v4 then [] else ''6''),
          rv_reject_type = (if v4 then ''icmp-host-prohibited'' else ''icmp6-adm-prohibited''),
          rv_expected_key = (if v4 then ''unreachable - admin prohibited'' else ''unreachable prohibited''),
          rv_tcpdump_option = (if v4 then ''icmp'' else ''icmp6'')\<rparr>)"

definition nc_cmd :: "string \<Rightarrow> string \<Rightarrow> string" where
  "nc_cmd opt args = fmt [''nohup sh -c '', dquote, ''./loop | nc '', opt, '' -u '', args, '' 10000'', dquote, '' >/dev/null 2>&1 &'']"

definition iptables_cmd :: "related_view \<Rightarrow> string \<Rightarrow> string \<Rightarrow> ipaddr \<Rightarrow> string" where
  "iptables_cmd rv act dev ip =
     fmt [''ip'', rv_iptables_option rv, ''tables '', act, '' INPUT -i '', dev, '' -d '', ip_str ip,
       '' -j REJECT  --reject-with '', rv_reject_type rv]"

definition verify_strs :: "related_view \<Rightarrow> string \<Rightarrow> string list" where
  "verify_strs rv direction =
     [rv_expected_key rv,
      if direction = ''orig'' then fmt [vip_str (rv_server_view_client rv), '' > '', ip_str (rv_server_ip rv)]
      else fmt [vip_str (rv_client_view_server rv), '' > '', ip_str (rv_client_ip rv)]]"

text \<open>The number of captured lines that have all the keys, and the verdict on it.\<close>

definition related_lines :: "string list \<Rightarrow> string \<Rightarrow> nat" where
  "related_lines keys log = length (filter (\<lambda>line. \<forall>s \<in> set keys. str_in s line) (readlines log))"

definition related_verdict :: "string \<Rightarrow> nat \<Rightarrow> (world, unit) em" where
  "related_verdict direction related =
     thenE (whenE (direction = ''reply'' \<and> related \<noteq> 1)
              (logX (fmt [''related reply num: '', nat_str related, '' is not 1''])))
           (whenE (direction = ''orig'' \<and> related = 0) (logX ''related orig num cannot be zero''))"

definition vif_and_addr :: "nat \<Rightarrow> (world, vif \<times> if_address) em" where
  "vif_and_addr r = readE (\<lambda>w. bindR (attr_of (vif_addr (w_vifs w r))) (\<lambda>a. Inr (w_vifs w r, a)))"

definition nat_execute_related ::
  "ssh_env \<Rightarrow> sut list \<Rightarrow> nat_spec \<Rightarrow> endpoint \<Rightarrow> endpoint \<Rightarrow> string \<Rightarrow> string \<Rightarrow> (world, unit) em" where
  "nat_execute_related env ss ns sep dep ip_ver direction =
     (let client_vm = ep_vm ss sep; server_vm = ep_vm ss dep; orig = (direction = ''orig'') in
      bindE (vif_and_addr (ep_vif sep)) (\<lambda>(cv, ca).
      bindE (vif_and_addr (ep_vif dep)) (\<lambda>(sv, sa).
      let rv = related_view_of ns (ip_ver = ''ipv4'') ca sa;
          tcpdump_vm = (if orig then server_vm else client_vm);
          tcpdump_if = virtio (if orig then sv else cv);
          iptables_vm = (if orig then client_vm else server_vm);
          iptables_if = virtio (if orig then cv else sv);
          reject_ip = (if orig then rv_client_ip rv else rv_server_ip rv)
      in
      thenE (guest_run env client_vm loop_cmd)
     (thenE (guest_run env server_vm loop_cmd)
     (thenE (guest_run env client_vm ''chmod +x ./loop'')
     (thenE (guest_run env server_vm ''chmod +x ./loop'')
     (thenE (guest_run env server_vm (nc_cmd (rv_nc_option rv) ''-l -p''))
     (thenE (guest_run env client_vm (nc_cmd (rv_nc_option rv) (vip_str (rv_client_view_server rv))))
     (thenE (guest_run env tcpdump_vm ''rm -rf ./cap'')
     (thenE (guest_run env tcpdump_vm (fmt [''nohup tcpdump -U -i '', tcpdump_if, '' '', rv_tcpdump_option rv,
               '' -w ./cap >/dev/null 2>&1 &'']))
     (thenE (sleepE 30)
     (thenE (guest_run env iptables_vm (iptables_cmd rv ''-I'' iptables_if reject_ip))
     (thenE (sleepE 30)
     (bindE (guest_exec env tcpdump_vm ''tcpdump -r ./cap'') (\<lambda>(rc, tcpdump_log, er).
      thenE (guest_run env iptables_vm (iptables_cmd rv ''-D'' iptables_if reject_ip))
     (thenE (guest_kill_process env tcpdump_vm ''tcpdump'')
     (thenE (guest_kill_process env server_vm ''nc'')
     (thenE (guest_kill_process env client_vm ''nc'')
            (related_verdict direction (related_lines (verify_strs rv direction) (log_text tcpdump_log)))))))))))))))))))))"

text \<open>The four tests of a pair, by direction and by IP version.\<close>

definition related_tests :: "ssh_env \<Rightarrow> sut list \<Rightarrow> nat_spec \<Rightarrow> endpoint \<Rightarrow> endpoint \<Rightarrow> (world, unit) em" where
  "related_tests env ss ns sep dep =
     forE [''orig'', ''reply''] (\<lambda>direction.
       forE [''ipv4'', ''ipv6''] (\<lambda>ip_ver. nat_execute_related env ss ns sep dep ip_ver direction))"

section \<open>Sessions and transfers\<close>

definition nth_res :: "'a list \<Rightarrow> nat \<Rightarrow> 'a res" where
  "nth_res xs i = (if i < length xs then Inr (xs ! i) else Inl IndexError)"

text \<open>\<open>range(n)\<close>\<close>

definition range_n :: "int \<Rightarrow> nat list" where
  "range_n n = [0..<nat n]"

definition snat_sessions ::
  "ssh_env \<Rightarrow> sut list \<Rightarrow> vt_entry \<Rightarrow> int \<Rightarrow> int \<Rightarrow> (ipaddr \<Rightarrow> string) \<Rightarrow> (ipaddr \<Rightarrow> string) \<Rightarrow> (world, unit) em" where
  "snat_sessions env ss vte svr_num parallel cmd4 cmd6 =
     forE (range_n svr_num) (\<lambda>s. forE (range_n parallel) (\<lambda>_.
       bindE (liftE (nth_res (get_full_deps vte) s)) (\<lambda>dep.
       thenE (bindE (dep_addr ia_ipv4 dep) (\<lambda>ip. guest_run env (ep_vm ss (vte_sep vte)) (cmd4 ip)))
             (bindE (dep_addr ia_ipv6 dep) (\<lambda>ip. guest_run env (ep_vm ss (vte_sep vte)) (cmd6 ip))))))"

definition snat_transfers ::
  "ssh_env \<Rightarrow> sut list \<Rightarrow> vt_entry \<Rightarrow> int \<Rightarrow> (vm \<Rightarrow> vm \<Rightarrow> ipaddr \<Rightarrow> (world, unit) em) \<Rightarrow> (world, unit) em" where
  "snat_transfers env ss vte svr_num run =
     forE (range_n svr_num) (\<lambda>s.
       bindE (liftE (nth_res (get_full_deps vte) s)) (\<lambda>dep.
       thenE (bindE (dep_addr ia_ipv4 dep) (run (ep_vm ss (vte_sep vte)) (ep_vm ss dep)))
             (bindE (dep_addr ia_ipv6 dep) (run (ep_vm ss (vte_sep vte)) (ep_vm ss dep)))))"

definition telnet_cmd :: "ipaddr \<Rightarrow> string" where
  "telnet_cmd ip = fmt [''telnet '', ip_str ip, '' 22 &'']"

definition nat_ping_cmd :: "string \<Rightarrow> string \<Rightarrow> ipaddr \<Rightarrow> string" where
  "nat_ping_cmd ping sz ip = fmt [ping, '' -c 3 -i 0.3 -s '', sz, '' '', ip_str ip]"

section \<open>Source NAT\<close>

definition NATSpec_snat :: "int \<Rightarrow> int \<Rightarrow> nat_spec res" where
  "NATSpec_snat ip_num ports =
     bindR (net_nth NAT_SERVER_NETV4 NAT_SNAT_ADDR_IDX_START) (\<lambda>a4.
     bindR (net_nth NAT_SERVER_NETV6 NAT_SNAT_ADDR_IDX_START) (\<lambda>a6.
     Inr \<lparr>ipv4_ia_start = a4, ipv6_ia_start = a6, ia_num = ip_num, port_start = NAT_SNAT_PORT_START,
          port_num = ports, nat_flags = None, vipv4 = None, vipv6 = None\<rparr>))"

definition only_one_allowed :: "verify_topology \<Rightarrow> unit res" where
  "only_one_allowed vt = (if length (vt_allow vt) \<noteq> 1 then Inl TypeError else Inr ())"

definition guest_part :: "(sut list \<Rightarrow> (world, unit) em) \<Rightarrow> unit tbm" where
  "guest_part m = bindE (getE fst) (\<lambda>ss. on_snd (m ss))"

definition snat_tool :: "ssh_env \<Rightarrow> vt_entry \<Rightarrow> int \<Rightarrow> string \<Rightarrow> int \<Rightarrow> int \<Rightarrow> unit tbm" where
  "snat_tool env vte svr_num tool parallel ping_size =
     (let sep = vte_sep vte in
      if tool = ''telnet'' then
        thenE (guest_part (\<lambda>ss. snat_sessions env ss vte svr_num parallel telnet_cmd telnet_cmd))
       (thenE (check_nat_result env (ep_host sep) (parallel * svr_num * 2) (Some ''tcp''))
              (guest_part (\<lambda>ss. guest_kill_process env (ep_vm ss sep) ''telnet'')))
      else if tool = ''ping'' then
        thenE (guest_part (\<lambda>ss. snat_sessions env ss vte svr_num parallel
                 (\<lambda>ip. nat_ping_cmd ''ping'' (int_str ping_size) ip @ '' &'')
                 (\<lambda>ip. nat_ping_cmd ''ping -6'' (int_str ping_size) ip @ '' &'')))
       (thenE (check_nat_result env (ep_host sep) (parallel * svr_num * 2) None)
              (guest_part (\<lambda>ss. guest_kill_process env (ep_vm ss sep) ''ping'')))
      else if tool = ''tftp'' then guest_part (\<lambda>ss. snat_transfers env ss vte svr_num (execute_tftp env))
      else if tool = ''ftp_active'' then
        guest_part (\<lambda>ss. snat_transfers env ss vte svr_num (\<lambda>m srv ip. execute_ftp env m srv ip True))
      else if tool = ''ftp_passive'' then
        guest_part (\<lambda>ss. snat_transfers env ss vte svr_num (\<lambda>m srv ip. execute_ftp env m srv ip False))
      else retE ())"

definition verify_snat ::
  "ssh_env \<Rightarrow> verify_topology \<Rightarrow> pyval \<Rightarrow> pyval \<Rightarrow> pyval \<Rightarrow> string \<Rightarrow> pyval \<Rightarrow> pyval \<Rightarrow> unit tbm" where
  "verify_snat env vt ip_num ports svr_num tool parallel ping_size =
     thenE (liftE (only_one_allowed vt))
    (bindE (liftE (py_int_of ip_num)) (\<lambda>ip_num.
     bindE (liftE (py_int_of ports)) (\<lambda>ports.
     bindE (liftE (py_int_of svr_num)) (\<lambda>svr_num.
     bindE (liftE (py_int_of parallel)) (\<lambda>parallel.
     bindE (liftE (py_int_of ping_size)) (\<lambda>ping_size.
     if tool \<in> set [''tftp'', ''ftp_passive'', ''ftp_active''] \<and> parallel > 1 then
       on_snd (logX ''file copy test cannot support parallel'')
     else
       thenE (flush_conntrack_on_all_suts env)
      (thenE (flush_revalidator_on_all_suts env)
      (bindE (liftE (NATSpec_snat ip_num ports)) (\<lambda>ns.
       thenE (nat_setup_flows env vt ''br0'' ns)
      (bindE (liftE (first_allowed vt)) (\<lambda>vte.
       snat_tool env vte svr_num tool parallel ping_size)))))))))))"

definition verify_snat_related :: "ssh_env \<Rightarrow> verify_topology \<Rightarrow> unit tbm" where
  "verify_snat_related env vt =
     thenE (liftE (only_one_allowed vt))
    (thenE (flush_conntrack_on_all_suts env)
    (bindE (liftE (NATSpec_snat 1 0)) (\<lambda>ns.
     thenE (nat_setup_flows env vt ''br0'' ns)
    (bindE (liftE (first_allowed vt)) (\<lambda>vte.
     guest_part (\<lambda>ss. forE (get_deps vte) (related_tests env ss ns (vte_sep vte))))))))"

section \<open>Destination NAT\<close>

definition NATSpec_dnat :: "nat_spec res" where
  "NATSpec_dnat =
     bindR (net_nth NAT_SERVER_NETV4 NAT_ENDPOINT_ADDR_IDX_START) (\<lambda>a4.
     bindR (net_nth NAT_SERVER_NETV6 NAT_ENDPOINT_ADDR_IDX_START) (\<lambda>a6.
     Inr \<lparr>ipv4_ia_start = a4, ipv6_ia_start = a6, ia_num = 1, port_start = 0, port_num = 0, nat_flags = None,
          vipv4 = Some NAT_ROUTER_CIF_IPV4, vipv6 = Some NAT_ROUTER_CIF_IPV6\<rparr>))"

definition dnat_sessions :: "ssh_env \<Rightarrow> endpoint \<Rightarrow> string list \<Rightarrow> string option \<Rightarrow> string \<Rightarrow> unit tbm" where
  "dnat_sessions env sep cmds proto proc =
     thenE (guest_part (\<lambda>ss. forE cmds (guest_run env (ep_vm ss sep))))
    (thenE (check_nat_result env (ep_host sep) 2 proto)
           (guest_part (\<lambda>ss. guest_kill_process env (ep_vm ss sep) proc)))"

text \<open>The single server is the first destination; both families go to the router's address.\<close>

definition dnat_transfers :: "vt_entry \<Rightarrow> (vm \<Rightarrow> vm \<Rightarrow> ipaddr \<Rightarrow> (world, unit) em) \<Rightarrow> unit tbm" where
  "dnat_transfers vte run =
     guest_part (\<lambda>ss. forE (range_n 1) (\<lambda>s.
       bindE (liftE (nth_res (get_full_deps vte) s)) (\<lambda>dep.
       forE [NAT_ROUTER_CIF_IPV4, NAT_ROUTER_CIF_IPV6] (run (ep_vm ss (vte_sep vte)) (ep_vm ss dep)))))"

definition dnat_tool :: "ssh_env \<Rightarrow> vt_entry \<Rightarrow> string \<Rightarrow> pyval \<Rightarrow> unit tbm" where
  "dnat_tool env vte tool ping_size =
     (let sep = vte_sep vte; vips = [NAT_ROUTER_CIF_IPV4, NAT_ROUTER_CIF_IPV6]; quiet = '' >/dev/null 2>&1 &'' in
      if tool = ''telnet'' then
        dnat_sessions env sep (map (\<lambda>ip. fmt [''nohup telnet '', ip_str ip, '' 22'', quiet]) vips) (Some ''tcp'') ''telnet''
      else if tool = ''ping'' then
        dnat_sessions env sep [nat_ping_cmd ''ping'' (py_str ping_size) NAT_ROUTER_CIF_IPV4 @ quiet,
          nat_ping_cmd ''ping -6'' (py_str ping_size) NAT_ROUTER_CIF_IPV6 @ quiet] None ''ping''
      else if tool = ''tftp'' then dnat_transfers vte (execute_tftp env)
      else if tool = ''ftp_active'' then dnat_transfers vte (\<lambda>m srv ip. execute_ftp env m srv ip True)
      else if tool = ''ftp_passive'' then dnat_transfers vte (\<lambda>m srv ip. execute_ftp env m srv ip False)
      else retE ())"

definition dnat_prepare :: "ssh_env \<Rightarrow> verify_topology \<Rightarrow> (nat_spec \<times> vt_entry \<times> endpoint) tbm" where
  "dnat_prepare env vt =
     thenE (liftE (only_one_allowed vt))
    (thenE (flush_conntrack_on_all_suts env)
    (bindE (liftE NATSpec_dnat) (\<lambda>ns.
     thenE (nat_setup_flows env vt ''br0'' ns)
    (bindE (liftE (first_allowed vt)) (\<lambda>vte.
     bindE (liftE (nth_res (get_full_deps vte) 0)) (\<lambda>dep. retE (ns, vte, dep)))))))"

definition verify_dnat :: "ssh_env \<Rightarrow> verify_topology \<Rightarrow> string \<Rightarrow> pyval \<Rightarrow> unit tbm" where
  "verify_dnat env vt tool ping_size =
     bindE (dnat_prepare env vt) (\<lambda>(ns, vte, dep). dnat_tool env vte tool ping_size)"

definition verify_dnat_related :: "ssh_env \<Rightarrow> verify_topology \<Rightarrow> unit tbm" where
  "verify_dnat_related env vt =
     bindE (dnat_prepare env vt) (\<lambda>(ns, vte, dep).
     guest_part (\<lambda>ss. related_tests env ss ns (vte_sep vte) dep))"

end
