(* ===== verification/Nat_Roundtrip.thy ===== *)
theory Nat_Roundtrip imports Nat_Dump begin

text \<open>
  The reader of the connection dump reads back what the dump's format prints: a line of a protocol and
  items, whose values are texts or one level of nested items.
\<close>

section \<open>The format\<close>

definition str_item :: "string \<times> string \<Rightarrow> string" where
  "str_item = (\<lambda>(k, v). k @ CHR ''='' # v)"

definition flat_text :: "(string \<times> string) list \<Rightarrow> string" where
  "flat_text kvs = join_with '','' (map str_item kvs)"

datatype field = Text string | Nest "(string \<times> string) list"

fun field_text :: "field \<Rightarrow> string" where
  "field_text (Text v) = v"
| "field_text (Nest kvs) = ''('' @ flat_text kvs @ '')''"

fun field_kv :: "field \<Rightarrow> kv" where
  "field_kv (Text v) = KStr v"
| "field_kv (Nest kvs) = KObj (map (\<lambda>(k, v). (k, KStr v)) kvs)"

type_synonym conn = "string \<times> (string \<times> field) list"

definition conn_text :: "conn \<Rightarrow> string" where
  "conn_text = (\<lambda>(proto, fs). proto @ '','' @ join_with '','' (map (\<lambda>(k, f). str_item (k, field_text f)) fs) @ [nl])"

definition conn_kvs :: "conn \<Rightarrow> (string \<times> kv) list" where
  "conn_kvs = (\<lambda>(proto, fs). map (\<lambda>(k, f). (k, field_kv f)) fs @ [(''proto'', KStr proto)])"

definition plain :: "string \<Rightarrow> bool" where
  "plain s \<longleftrightarrow> set s \<inter> {CHR '','', CHR ''('', CHR '')'', nl} = {}"

definition plain_key :: "string \<Rightarrow> bool" where
  "plain_key s \<longleftrightarrow> plain s \<and> CHR ''='' \<notin> set s"

fun field_ok :: "field \<Rightarrow> bool" where
  "field_ok (Text v) = plain v"
| "field_ok (Nest kvs) = (kvs \<noteq> [] \<and> distinct (map fst kvs) \<and> (\<forall>(k, v) \<in> set kvs. plain_key k \<and> plain v))"

definition conn_ok_text :: "conn \<Rightarrow> bool" where
  "conn_ok_text = (\<lambda>(proto, fs). plain proto \<and> distinct (map fst fs) \<and> ''proto'' \<notin> fst ` set fs
     \<and> (\<forall>(k, f) \<in> set fs. plain_key k \<and> field_ok f))"

section \<open>One item\<close>

lemma kv_put_new: "k \<notin> fst ` set kvs \<Longrightarrow> kv_put k v kvs = kvs @ [(k, v)]"
  by (induction kvs) auto

lemma find_key: "plain_key k \<Longrightarrow> find_char (CHR ''='') (k @ CHR ''='' # r) = Some (length k)"
  by (induction k) (auto simp: plain_key_def plain_def)

lemma plain_no_delim: "plain v \<Longrightarrow> c \<in> set v \<Longrightarrow> \<not> kv_delim c"
  by (auto simp: plain_def kv_delim_def)

lemma kv_value_plain: "plain v \<Longrightarrow> kv_delim d \<Longrightarrow> kv_value (v @ d # r) = (v, d = CHR '')'', r)"
  using plain_no_delim by (simp add: kv_value_def takeWhile_append dropWhile_append Let_def)

lemma kv_value_line: "plain v \<Longrightarrow> kv_value (v @ [nl]) = (v, False, [])"
  using plain_no_delim
  by (simp add: kv_value_def takeWhile_append dropWhile_append Let_def kv_delim_def nl_def)

lemma plain_hd: "plain v \<Longrightarrow> d \<noteq> CHR ''('' \<Longrightarrow> v @ d # r = c # cs \<Longrightarrow> c \<noteq> CHR ''(''"
  by (cases v) (auto simp: plain_def)

lemma parse_kv_str:
  assumes "plain_key k" "plain v" "d \<noteq> CHR ''(''" "kv_value (v @ d # r) = (v, b, r')"
  shows "parse_kv kvs (str_item (k, v) @ d # r)
     = (if b \<or> r' = [] then Inr (kv_put k (KStr v) kvs, r') else parse_kv (kv_put k (KStr v) kvs) (skip_comma r'))"
proof -
  obtain c cs where c: "v @ d # r = c # cs" by (cases v) auto
  with plain_hd [OF assms(2,3)] assms(4) show ?thesis
    by (simp add: parse_kv.simps [of kvs] str_item_def find_key [OF assms(1)] Let_def)
qed

lemmas parse_kv_delim = parse_kv_str [OF _ _ _ kv_value_plain]
lemmas parse_kv_last = parse_kv_str [OF _ _ _ kv_value_line]

lemma skip_item: "plain_key k \<Longrightarrow> skip_comma (str_item (k, v) @ r) = str_item (k, v) @ r"
  by (cases k) (auto simp: str_item_def skip_comma_def plain_key_def plain_def)

section \<open>Lists of items\<close>

lemma parse_flat:
  assumes "kvs \<noteq> []" "distinct (map fst kvs)" "\<forall>(k, v) \<in> set kvs. plain_key k \<and> plain v"
    and "fst ` set kvs \<inter> fst ` set acc = {}"
  shows "parse_kv acc (flat_text kvs @ CHR '')'' # r) = Inr (acc @ map (\<lambda>(k, v). (k, KStr v)) kvs, r)"
  using assms
proof (induction kvs arbitrary: acc)
  case (Cons p kvs)
  obtain k v where p: "p = (k, v)" by (cases p)
  with Cons.prems have ok: "plain_key k" "plain v" and new: "k \<notin> fst ` set acc" by auto
  show ?case
  proof (cases kvs)
    case Nil
    with ok new show ?thesis
      by (simp add: p flat_text_def parse_kv_delim kv_delim_def kv_put_new)
  next
    case (Cons q qs)
    then obtain k' v' where q: "q = (k', v')" by (cases q)
    have "plain_key k'" using Cons.prems(3) Cons q by auto
    then have "skip_comma (flat_text kvs @ CHR '')'' # r) = flat_text kvs @ CHR '')'' # r"
      using skip_item by (cases qs) (simp_all add: Cons q flat_text_def)
    moreover have "flat_text (p # kvs) = str_item (k, v) @ CHR '','' # flat_text kvs"
      by (simp add: flat_text_def p Cons)
    moreover have "parse_kv (acc @ [(k, KStr v)]) (flat_text kvs @ CHR '')'' # r)
        = Inr ((acc @ [(k, KStr v)]) @ map (\<lambda>(k, v). (k, KStr v)) kvs, r)"
      using Cons.prems Cons p by (intro Cons.IH) auto
    ultimately show ?thesis
      using ok new by (simp add: p parse_kv_delim kv_delim_def kv_put_new)
  qed
qed simp

definition fields_text :: "(string \<times> field) list \<Rightarrow> string" where
  "fields_text fs = join_with '','' (map (\<lambda>(k, f). str_item (k, field_text f)) fs)"

lemma parse_end: "parse_kv acc [nl] = Inr (acc, [nl])"
  by (simp add: parse_kv.simps [of acc] nl_def)

text \<open>One field, with what follows it: the end of the line or a comma and more.\<close>

lemma parse_nest:
  assumes "plain_key k" "field_ok (Nest kvs)" "k \<notin> fst ` set acc" "r \<noteq> []"
  shows "parse_kv acc (str_item (k, field_text (Nest kvs)) @ r)
     = parse_kv (acc @ [(k, field_kv (Nest kvs))]) (skip_comma r)"
proof -
  have "parse_kv [] (flat_text kvs @ CHR '')'' # r) = Inr (map (\<lambda>(k, v). (k, KStr v)) kvs, r)"
    using parse_flat [of kvs "[]"] assms(2) by simp
  with assms show ?thesis
    by (simp add: parse_kv.simps [of acc] str_item_def find_key Let_def kv_put_new)
qed

lemma parse_fields:
  assumes "distinct (map fst fs)" "\<forall>(k, f) \<in> set fs. plain_key k \<and> field_ok f"
    and "fst ` set fs \<inter> fst ` set acc = {}"
  shows "\<exists>r. parse_kv acc (fields_text fs @ [nl]) = Inr (acc @ map (\<lambda>(k, f). (k, field_kv f)) fs, r)"
  using assms
proof (induction fs arbitrary: acc)
  case Nil
  then show ?case by (simp add: fields_text_def parse_end)
next
  case (Cons p fs)
  obtain k f where p: "p = (k, f)" by (cases p)
  with Cons.prems have ok: "plain_key k" "field_ok f" and new: "k \<notin> fst ` set acc" by auto
  let ?acc = "acc @ [(k, field_kv f)]"
  have IH: "\<exists>r. parse_kv ?acc (fields_text fs @ [nl]) = Inr (?acc @ map (\<lambda>(k, f). (k, field_kv f)) fs, r)"
    using Cons.prems p by (intro Cons.IH) auto
  show ?case
  proof (cases fs)
    case Nil
    have t: "fields_text (p # fs) = str_item (k, field_text f)" by (simp add: fields_text_def p Nil)
    show ?thesis
    proof (cases f)
      case (Text v)
      have "nl \<noteq> CHR ''(''" by (simp add: nl_def)
      with Text ok new show ?thesis
        unfolding t by (simp add: p Nil parse_kv_last kv_put_new)
    next
      case (Nest kvs)
      have "skip_comma [nl] = [nl]" by (simp add: skip_comma_def nl_def)
      with Nest ok new parse_nest [of k kvs acc "[nl]"] show ?thesis
        unfolding t by (simp add: p Nil parse_end)
    qed
  next
    case (Cons q qs)
    then obtain k' f' where q: "q = (k', f')" by (cases q)
    have "plain_key k'" using Cons.prems(2) Cons q by auto
    then have skip: "skip_comma (fields_text fs @ [nl]) = fields_text fs @ [nl]"
      using skip_item by (cases qs) (simp_all add: Cons q fields_text_def)
    have t: "fields_text (p # fs) @ [nl] = str_item (k, field_text f) @ CHR '','' # fields_text fs @ [nl]"
      by (simp add: fields_text_def p Cons)
    have "parse_kv acc (fields_text (p # fs) @ [nl]) = parse_kv ?acc (fields_text fs @ [nl])"
    proof (cases f)
      case (Text v)
      with ok new skip show ?thesis
        unfolding t by (simp add: parse_kv_delim kv_delim_def kv_put_new)
    next
      case (Nest kvs)
      have "skip_comma (CHR '','' # fields_text fs @ [nl]) = fields_text fs @ [nl]"
        by (simp add: skip_comma_def)
      with Nest ok new parse_nest [of k kvs acc "CHR '','' # fields_text fs @ [nl]"] show ?thesis
        unfolding t by simp
    qed
    with IH show ?thesis by (simp add: p)
  qed
qed

section \<open>Lines\<close>

lemma parse_conn_text:
  assumes "conn_ok_text c"
  shows "parse_conn (conn_text c) = Inr (conn_kvs c)"
proof -
  obtain proto fs where c: "c = (proto, fs)" by (cases c)
  with assms have ok: "plain proto" "distinct (map fst fs)" "''proto'' \<notin> fst ` set fs"
    "\<forall>(k, f) \<in> set fs. plain_key k \<and> field_ok f" by (auto simp: conn_ok_text_def)
  have f: "find_char (CHR '','') (proto @ CHR '','' # r) = Some (length proto)" for r
    using ok(1) by (induction proto) (auto simp: plain_def)
  obtain r where "parse_kv [] (fields_text fs @ [nl]) = Inr (map (\<lambda>(k, f). (k, field_kv f)) fs, r)"
    using parse_fields [of fs "[]"] ok by auto
  moreover have "''proto'' \<notin> fst ` set (map (\<lambda>(k, f). (k, field_kv f)) fs)" using ok(3) by force
  ultimately show ?thesis
    by (simp add: c parse_conn_def conn_text_def conn_kvs_def f fields_text_def [symmetric] kv_put_new)
qed

lemma readlines_line: "nl \<notin> set l \<Longrightarrow> readlines (l @ nl # r) = (l @ [nl]) # readlines r"
  by (induction l) auto

lemma nl_free_join: "(\<And>x. x \<in> set xs \<Longrightarrow> nl \<notin> set x) \<Longrightarrow> nl \<notin> set (join_with '','' xs)"
  by (induction "'',''" xs rule: join_with.induct) (auto simp: nl_def)

lemma plain_nl: "plain s \<Longrightarrow> nl \<notin> set s"
  by (auto simp: plain_def)

lemma str_item_nl: "plain_key k \<Longrightarrow> nl \<notin> set v \<Longrightarrow> nl \<notin> set (str_item (k, v))"
  using plain_nl [of k] by (auto simp: str_item_def plain_key_def nl_def)

lemma field_nl:
  assumes "field_ok f"
  shows "nl \<notin> set (field_text f)"
proof (cases f)
  case (Text v)
  with assms plain_nl show ?thesis by simp
next
  case (Nest kvs)
  have "nl \<notin> set (flat_text kvs)"
    unfolding flat_text_def using assms Nest str_item_nl plain_nl by (intro nl_free_join) fastforce
  with Nest show ?thesis by (simp add: nl_def)
qed

lemma conn_line:
  assumes "conn_ok_text c"
  shows "readlines (conn_text c @ r) = conn_text c # readlines r"
proof -
  obtain proto fs where c: "c = (proto, fs)" by (cases c)
  with assms have ok: "plain proto" "\<forall>(k, f) \<in> set fs. plain_key k \<and> field_ok f" by (auto simp: conn_ok_text_def)
  have "nl \<notin> set (fields_text fs)"
    unfolding fields_text_def using ok(2) str_item_nl field_nl by (intro nl_free_join) fastforce
  then have "nl \<notin> set (proto @ '','' @ fields_text fs)" using plain_nl [OF ok(1)] by (simp add: nl_def)
  from readlines_line [OF this, of r] show ?thesis
    by (simp add: c conn_text_def fields_text_def)
qed

lemma parse_conns_text:
  "\<forall>c \<in> set cs. conn_ok_text c \<Longrightarrow> parse_conns (concat (map conn_text cs)) = Inr (map conn_kvs cs)"
  unfolding parse_conns_def
  by (induction cs) (simp_all add: conn_line parse_conn_text)

end
