(* ===== verification/Nat_Props.thy ===== *)
theory Nat_Props imports Nat_Verify Nat_Roundtrip begin

text \<open>
  The addresses NAT testing gives to the endpoints and takes back, and what the check of the connections
  counts.
\<close>

section \<open>Commands leave the interfaces alone\<close>

lemma frame_exec_cmd_vifs [frame]: "frameE w_vifs (exec_cmd env nd cmd t sudo d)"
  unfolding frameE_def by (metis exec_cmd_vifs prod.collapse)

lemma frame_guest_execute [frame]: "frameE w_vifs (guest_execute env m cmd t sudo ef)"
  unfolding guest_execute_def exec_triple_def Let_def logX_def
  by (intro frame | simp | rule frame | (split prod.split option.split; safe))+

lemma frame_guest_batch [frame]: "frameE w_vifs (guest_execute_batch env m cmds)"
  by (simp add: guest_execute_batch_def guest_run_def guest_exec_def frame)

lemma ret_configure_vm: "configure_vm env m r c w = (x, w') \<Longrightarrow> w_vifs w' = w_vifs w"
  by (erule frameE_D [rotated]) (auto simp: configure_vm_def intro!: frame)

section \<open>Updates of a store at distinct places\<close>

lemma fold_fun_upd_notin: "x \<notin> fst ` set ps \<Longrightarrow> fold (\<lambda>(r, a) s. s(r := g a (s r))) ps s x = s x"
  by (induction ps arbitrary: s) auto

lemma fold_fun_upd_at:
  "distinct (map fst ps) \<Longrightarrow> i < length ps \<Longrightarrow>
   fold (\<lambda>(r, a) s. s(r := g a (s r))) ps s (fst (ps ! i)) = g (snd (ps ! i)) (s (fst (ps ! i)))"
proof (induction ps arbitrary: s i)
  case (Cons p ps)
  obtain r a where p: "p = (r, a)" by (cases p)
  show ?case
  proof (cases i)
    case 0
    with Cons.prems fold_fun_upd_notin [of r ps g "s(r := g a (s r))"] show ?thesis
      by (simp add: p del: fun_upd_apply) simp
  next
    case (Suc j)
    with Cons.prems have "fst (ps ! j) \<noteq> r" by (auto simp: p)
    with Cons.IH [of j "s(r := g a (s r))"] Cons.prems Suc show ?thesis
      by (simp add: p del: fun_upd_apply) simp
  qed
qed simp

section \<open>Configuring and restoring in closed form\<close>

definition give_addr :: "if_address \<Rightarrow> vif \<Rightarrow> vif" where
  "give_addr a v = v\<lparr>vif_restore_addr := vif_addr v, vif_addr := Some a\<rparr>"

definition give_addrs :: "nat list \<Rightarrow> if_address list \<Rightarrow> (nat \<Rightarrow> vif) \<Rightarrow> nat \<Rightarrow> vif" where
  "give_addrs rs as = fold (\<lambda>(r, a) s. s(r := give_addr a (s r))) (zip rs as)"

definition take_addr :: "vif \<Rightarrow> vif" where
  "take_addr v = v\<lparr>vif_addr := vif_restore_addr v, vif_restore_addr := None\<rparr>"

lemma take_give: "vif_restore_addr v = None \<Longrightarrow> take_addr (give_addr a v) = v"
  by (cases v) (simp add: take_addr_def give_addr_def)

lemma ret_set_nat_addr:
  assumes "set_nat_addr net4 net6 i r w = (Inr x, w')"
  obtains a where "nat_address net4 net6 i = Inr a" "w_vifs w' = (w_vifs w)(r := give_addr a (w_vifs w r))"
  using assms that by (auto simp: set_nat_addr_def returns upd_vif_def give_addr_def)

lemma nat_deps_loop:
  assumes "forE (enumerate n deps) (\<lambda>(idx, dep).
      thenE (set_nat_addr net4 net6 (k + int idx) (ep_vif dep)) (configure_vm env (ep_vm ss dep) (ep_vif dep) c)) w = (Inr x, w')"
  shows "\<exists>as. length as = length deps \<and> (\<forall>i < length deps. nat_address net4 net6 (k + int (n + i)) = Inr (as ! i))
     \<and> w_vifs w' = give_addrs (map ep_vif deps) as (w_vifs w)"
  using assms
proof (induction deps arbitrary: n w)
  case Nil
  then show ?case by (simp add: returns give_addrs_def)
next
  case (Cons d deps)
  from Cons.prems obtain w1 w2 where 1: "set_nat_addr net4 net6 (k + int n) (ep_vif d) w = (Inr (), w1)"
    and 2: "configure_vm env (ep_vm ss d) (ep_vif d) c w1 = (Inr (), w2)"
    and 3: "forE (enumerate (Suc n) deps) (\<lambda>(idx, dep).
      thenE (set_nat_addr net4 net6 (k + int idx) (ep_vif dep)) (configure_vm env (ep_vm ss dep) (ep_vif dep) c)) w2 = (Inr x, w')"
    by (auto simp: returns)
  from Cons.IH [OF 3] obtain as where as: "length as = length deps"
    "\<forall>i < length deps. nat_address net4 net6 (k + int (Suc n + i)) = Inr (as ! i)"
    "w_vifs w' = give_addrs (map ep_vif deps) as (w_vifs w2)" by blast
  from 1 obtain a where a: "nat_address net4 net6 (k + int n) = Inr a"
    "w_vifs w1 = (w_vifs w)(ep_vif d := give_addr a (w_vifs w (ep_vif d)))" by (rule ret_set_nat_addr)
  have "\<forall>i < length (d # deps). nat_address net4 net6 (k + int (n + i)) = Inr ((a # as) ! i)"
    using a(1) as(2) by (auto simp: nth_Cons ac_simps split: nat.splits)
  with as a(2) ret_configure_vm [OF 2] show ?case
    by (intro exI [of _ "a # as"]) (simp add: give_addrs_def)
qed

definition vt_ends :: "vt_entry \<Rightarrow> endpoint list" where
  "vt_ends e = vte_sep e # get_full_deps e"

lemma nat_configure_eq:
  assumes "nat_configure_vms env ss vt ips4 ips6 w = (Inr vt', w')"
  obtains e es as where "vt_allow vt = e # es" "vt' = \<lparr>vt_allow = [e], vt_deny = []\<rparr>" "length as = length (vt_ends e)"
    "nat_address NAT_CLIENT_NETV4 NAT_CLIENT_NETV6 100 = Inr (as ! 0)"
    "\<forall>i < length (get_full_deps e). nat_address NAT_SERVER_NETV4 NAT_SERVER_NETV6 (100 + int i) = Inr (as ! Suc i)"
    "w_vifs w' = give_addrs (map ep_vif (vt_ends e)) as (w_vifs w)"
proof -
  from assms obtain e es w1 w2 where e: "vt_allow vt = e # es" "vt' = \<lparr>vt_allow = [e], vt_deny = []\<rparr>"
    and 1: "set_nat_addr NAT_CLIENT_NETV4 NAT_CLIENT_NETV6 NAT_ENDPOINT_ADDR_IDX_START (ep_vif (vte_sep e)) w = (Inr (), w1)"
    and 2: "configure_vm env (ep_vm ss (vte_sep e)) (ep_vif (vte_sep e)) client_config w1 = (Inr (), w2)"
    and 3: "forE (enumerate 0 (get_full_deps e)) (\<lambda>(idx, dep).
       thenE (set_nat_addr NAT_SERVER_NETV4 NAT_SERVER_NETV6 (NAT_ENDPOINT_ADDR_IDX_START + int idx) (ep_vif dep))
             (configure_vm env (ep_vm ss dep) (ep_vif dep) (server_config ips4 ips6))) w2 = (Inr (), w')"
    by (auto simp: nat_configure_vms_def returns Let_def split: list.splits)
  from 1 obtain a where a: "nat_address NAT_CLIENT_NETV4 NAT_CLIENT_NETV6 100 = Inr a"
    "w_vifs w1 = (w_vifs w)(ep_vif (vte_sep e) := give_addr a (w_vifs w (ep_vif (vte_sep e))))"
    by (rule ret_set_nat_addr) (simp add: NAT_ENDPOINT_ADDR_IDX_START_def)
  from nat_deps_loop [OF 3] obtain as where as: "length as = length (get_full_deps e)"
    "\<forall>i < length (get_full_deps e). nat_address NAT_SERVER_NETV4 NAT_SERVER_NETV6 (100 + int i) = Inr (as ! i)"
    "w_vifs w' = give_addrs (map ep_vif (get_full_deps e)) as (w_vifs w2)"
    by (auto simp: NAT_ENDPOINT_ADDR_IDX_START_def)
  with a ret_configure_vm [OF 2] that [OF e, of "a # as"] show thesis
    by (simp add: vt_ends_def give_addrs_def)
qed

lemma give_addrs_at:
  assumes "distinct rs" "length as = length rs" "i < length rs"
  shows "give_addrs rs as s (rs ! i) = give_addr (as ! i) (s (rs ! i))"
  using fold_fun_upd_at [of "zip rs as" i give_addr s] assms by (simp add: give_addrs_def)

lemma give_addrs_other: "r \<notin> set rs \<Longrightarrow> give_addrs rs as s r = s r"
  unfolding give_addrs_def by (intro fold_fun_upd_notin) (auto dest: set_zip_leftD)

lemma restore_vif_eq: "restore_vif r w = (Inr (), w\<lparr>w_vifs := (w_vifs w)(r := take_addr (w_vifs w r))\<rparr>)"
  by (simp add: restore_vif_def upd_vif_def take_addr_def em_simps)

lemma restore_vifs_eq:
  "forE xs (\<lambda>dep. restore_vif (ep_vif dep)) w
     = (Inr (), w\<lparr>w_vifs := fold (\<lambda>(r, a) s. s(r := take_addr (s r))) (map (\<lambda>x. (ep_vif x, ())) xs) (w_vifs w)\<rparr>)"
  by (induction xs arbitrary: w) (simp_all add: em_simps restore_vif_eq)

lemma nat_restore_eq:
  "nat_restore_vms \<lparr>vt_allow = e # es, vt_deny = ds\<rparr> w
     = (Inr (), w\<lparr>w_vifs := fold (\<lambda>(r, a) s. s(r := take_addr (s r))) (map (\<lambda>x. (ep_vif x, ())) (vt_ends e)) (w_vifs w)\<rparr>)"
  by (simp add: nat_restore_vms_def em_simps vt_ends_def restore_vif_eq restore_vifs_eq)

section \<open>The addresses given\<close>

lemma net_at_int: "ip_int (net_at n i) = ip_int (network_address n) + i"
  by (simp add: net_at_def)

lemma net_at_inj: "net_at n i = net_at n j \<longleftrightarrow> i = j"
  by (simp add: net_at_def)

lemma nat_address_at:
  assumes "nat_address net4 net6 i = Inr a" "0 \<le> i"
  shows "a = \<lparr>ia_ipv4 = net_at net4 i, ia_ipv4_network = net4, ia_ipv6 = net_at net6 i, ia_ipv6_network = net6\<rparr>
     \<and> i < net_size net4 \<and> i < net_size net6"
  using assms
  by (auto simp: nat_address_def net_nth_def Let_def bindR_Inr_iff broadcast_int_def net_at_def split: if_splits)

lemma nat_net_sizes:
  "net_size NAT_CLIENT_NETV4 = 65536" "net_size NAT_SERVER_NETV4 = 65536"
  "net_size NAT_CLIENT_NETV6 = 65536" "net_size NAT_SERVER_NETV6 = 65536"
  by (simp_all add: net_size_def NAT_CLIENT_NETV4_def NAT_SERVER_NETV4_def NAT_CLIENT_NETV6_def NAT_SERVER_NETV6_def
      ipv6_of_groups_def)

lemma nat_nets_apart:
  "ip_int (network_address NAT_CLIENT_NETV4) + 65536 \<le> ip_int (network_address NAT_SERVER_NETV4)"
  "ip_int (network_address NAT_CLIENT_NETV6) + 65536 \<le> ip_int (network_address NAT_SERVER_NETV6)"
  by (simp_all add: NAT_CLIENT_NETV4_def NAT_SERVER_NETV4_def NAT_CLIENT_NETV6_def NAT_SERVER_NETV6_def ipv6_of_groups_def)

text \<open>The addresses of the endpoints of an entry: the client's and those of \<open>n\<close> servers.\<close>

definition nat_ips :: "ipnet \<Rightarrow> ipnet \<Rightarrow> nat \<Rightarrow> ipaddr list" where
  "nat_ips client server n = net_at client 100 # map (\<lambda>i. net_at server (100 + int i)) [0..<n]"

definition in_net :: "ipnet \<Rightarrow> ipaddr \<Rightarrow> bool" where
  "in_net n a \<longleftrightarrow> ip_width a = ip_width (network_address n)
     \<and> ip_int (network_address n) \<le> ip_int a \<and> ip_int a \<le> broadcast_int n"

lemma in_net_at: "0 \<le> i \<Longrightarrow> i < net_size n \<Longrightarrow> in_net n (net_at n i)"
  by (simp add: in_net_def net_at_int broadcast_int_def) (simp add: net_at_def)

lemma nat_ips_distinct:
  assumes "ip_int (network_address c) + 65536 \<le> ip_int (network_address s)"
  shows "distinct (nat_ips c s n)"
proof -
  have "net_at c 100 \<noteq> net_at s (100 + int i)" for i
    using assms net_at_int [of c 100] net_at_int [of s "100 + int i"] by auto
  then show ?thesis by (auto simp: nat_ips_def distinct_map inj_on_def net_at_inj)
qed

text \<open>The addresses of the router and of source NAT.\<close>

definition reserved :: "ipnet \<Rightarrow> ipnet \<Rightarrow> ipaddr set" where
  "reserved c s = {net_at c 1, net_at s 1} \<union> {a. \<exists>as. snat_addrs s = Inr as \<and> a \<in> set as}"

lemma snat_addrs_at: "snat_addrs n = Inr as \<Longrightarrow> a \<in> set as \<Longrightarrow> \<exists>i. 10 \<le> i \<and> i < 20 \<and> a = net_at n i"
  unfolding snat_addrs_def
  by (drule (1) collectR_Inr_set)
    (auto simp: bindR_Inr_iff net_nth_def Let_def net_at_def NAT_SNAT_ADDR_IDX_START_def NAT_SNAT_ADDR_NUM_def split: if_splits)

lemma nat_ips_free:
  assumes "ip_int (network_address c) + 65536 \<le> ip_int (network_address s)"
  shows "set (nat_ips c s n) \<inter> reserved c s = {}"
proof -
  have apart: "net_at c i \<noteq> net_at s j" if "i < 65536" "0 \<le> j" for i j
    using assms that net_at_int [of c i] net_at_int [of s j] by auto
  show ?thesis
  proof (rule ccontr)
    assume "set (nat_ips c s n) \<inter> reserved c s \<noteq> {}"
    then obtain a where a: "a \<in> set (nat_ips c s n)" "a \<in> reserved c s" by blast
    from a(2) consider "a = net_at c 1" | "a = net_at s 1" | i where "10 \<le> i" "i < 20" "a = net_at s i"
      unfolding reserved_def using snat_addrs_at by blast
    moreover from a(1) consider "a = net_at c 100" | k where "a = net_at s (100 + int k)"
      by (auto simp: nat_ips_def)
    moreover have "net_at c 100 \<noteq> net_at c 1" "net_at c 100 \<noteq> net_at s 1" by (simp_all add: net_at_inj apart)
    moreover have "net_at c 100 \<noteq> net_at s i" if "10 \<le> i" for i using that by (simp add: apart)
    moreover have "net_at s (100 + int k) \<noteq> net_at c 1" "net_at s (100 + int k) \<noteq> net_at s 1" for k
      using apart [of 1 "100 + int k"] by (simp_all add: net_at_inj)
    moreover have "net_at s (100 + int k) \<noteq> net_at s i" if "i < 20" for i k using that by (simp add: net_at_inj)
    ultimately show False by cases metis+
  qed
qed

section \<open>The check of the connections\<close>

lemma live_conn_kvs:
  assumes "\<forall>c \<in> set cs. conn_ok_text c"
  shows "live_conns proto (map conn_kvs cs)
     = length (filter (\<lambda>(p, fs). proto = None \<or> proto = Some [] \<or> proto = Some p) cs)"
proof -
  have "map_of (conn_kvs (p, fs)) ''proto'' = Some (KStr p)" if "conn_ok_text (p, fs)" for p fs
  proof -
    have "''proto'' \<notin> fst ` set (map (\<lambda>(k, f). (k, field_kv f)) fs)"
      using that by (force simp: conn_ok_text_def)
    then have "map_of (map (\<lambda>(k, f). (k, field_kv f)) fs) ''proto'' = None" by (simp add: map_of_eq_None_iff)
    then show ?thesis by (simp add: conn_kvs_def map_add_def)
  qed
  with assms show ?thesis
    by (induction cs) (auto simp: live_conns_def split: option.splits)
qed

section \<open>A topology configured for NAT\<close>

lemma echo_guest_run:
  "cmd \<noteq> [] \<Longrightarrow> \<exists>w'. guest_run (echo_env f) m cmd w = (Inr (), w') \<and> w_vifs w' = w_vifs w"
  by (simp add: guest_run_def guest_exec_def em_simps Let_def)

lemma echo_configure_vm:
  assumes "vif_addr (w_vifs w r) \<noteq> None"
  shows "\<exists>w'. configure_vm (echo_env f) m r c w = (Inr (), w')"
proof -
  have "\<exists>w'. guest_execute_batch (echo_env f) m cmds w = (Inr (), w')" if "[] \<notin> set cmds" for cmds w
    using that
  proof (induction cmds arbitrary: w)
    case (Cons cmd cmds)
    then obtain w1 where "guest_run (echo_env f) m cmd w = (Inr (), w1)" using echo_guest_run [of cmd f m w] by auto
    with Cons show ?case by (simp add: guest_execute_batch_def em_simps)
  qed (simp add: guest_execute_batch_def em_simps)
  moreover have "[] \<notin> set (configure_vm_cmds v a c)" for v a
    by (auto simp: configure_vm_cmds_def Let_def fmt_def)
  ultimately show ?thesis
    using assms by (auto simp: configure_vm_def em_simps attr_of_def)
qed

lemma set_nat_addr_runs:
  "nat_address net4 net6 i = Inr a \<Longrightarrow>
   set_nat_addr net4 net6 i r w = (Inr (), w\<lparr>w_vifs := (w_vifs w)(r := give_addr a (w_vifs w r))\<rparr>)"
  by (simp add: set_nat_addr_def em_simps upd_vif_def give_addr_def)

lemma nat_vt_t:
  "\<exists>vt' w'. nat_configure_vms quiet_env suts_t vt_t [] [] (world0\<lparr>w_vifs := vif_t\<rparr>) = (Inr vt', w')"
proof -
  obtain a where a: "nat_address NAT_CLIENT_NETV4 NAT_CLIENT_NETV6 100 = Inr a"
    by (simp add: nat_address_def net_nth_def broadcast_int_def nat_net_sizes)
  obtain b where b: "nat_address NAT_SERVER_NETV4 NAT_SERVER_NETV6 100 = Inr b"
    by (simp add: nat_address_def net_nth_def broadcast_int_def nat_net_sizes)
  let ?w = "world0\<lparr>w_vifs := vif_t(0 := give_addr a (vif_t 0))\<rparr>"
  obtain w1 where 1: "configure_vm quiet_env (ep_vm suts_t (ep_t 0 0)) 0 client_config ?w = (Inr (), w1)"
    using echo_configure_vm [of ?w 0 "\<lambda>_. (0, [])" "ep_vm suts_t (ep_t 0 0)" client_config] by (auto simp: give_addr_def)
  let ?w1 = "w1\<lparr>w_vifs := (w_vifs w1)(1 := give_addr b (w_vifs w1 1))\<rparr>"
  obtain w2 where 2: "configure_vm quiet_env (ep_vm suts_t (ep_t 1 1)) 1 (server_config [] []) ?w1 = (Inr (), w2)"
    using echo_configure_vm [of ?w1 1 "\<lambda>_. (0, [])" "ep_vm suts_t (ep_t 1 1)" "server_config [] []"] by (auto simp: give_addr_def)
  from 1 2 show ?thesis
    by (simp add: nat_configure_vms_def vt_t_def VerifyTopologyEntry_def em_simps get_full_deps_def ep_t_def Let_def
        NAT_ENDPOINT_ADDR_IDX_START_def set_nat_addr_runs [OF a] set_nat_addr_runs [OF b])
qed

lemma vt_t_ends: "vt_ends (hd (vt_allow vt_t)) = [ep_t 0 0, ep_t 1 1]"
  by (simp add: vt_ends_def vt_t_def VerifyTopologyEntry_def get_full_deps_def)

definition conn_t :: conn where
  "conn_t = (''tcp'', [(''orig'', Nest [(''src'', ''172.10.0.100''), (''dport'', ''22'')]), (''id'', Text ''7'')])"

lemma conn_t_ok: "conn_ok_text conn_t"
  by (simp add: conn_t_def conn_ok_text_def plain_key_def plain_def nl_def)

section \<open>Properties\<close>

text \<open>
  C19 Configuring the machines for NAT and restoring them gives every interface the address it had before,
  when no address had been saved and no interface is used by two endpoints.
\<close>

theorem nat_restore_roundtrip:
  assumes "nat_configure_vms env ss vt ips4 ips6 w = (Inr vt', w')"
    and "distinct (map ep_vif (vt_ends (hd (vt_allow vt))))"
    and "\<forall>e \<in> set (vt_ends (hd (vt_allow vt))). vif_restore_addr (w_vifs w (ep_vif e)) = None"
  shows "\<exists>w''. nat_restore_vms vt' w' = (Inr (), w'') \<and> w_vifs w'' = w_vifs w"
proof -
  from assms(1) obtain e es as where c: "vt_allow vt = e # es" "vt' = \<lparr>vt_allow = [e], vt_deny = []\<rparr>"
    "length as = length (vt_ends e)" "w_vifs w' = give_addrs (map ep_vif (vt_ends e)) as (w_vifs w)"
    by (rule nat_configure_eq)
  let ?rs = "map ep_vif (vt_ends e)" and ?ps = "map (\<lambda>x. (ep_vif x, ())) (vt_ends e)"
  have ps: "map fst ?ps = ?rs" "length ?ps = length ?rs" by simp_all
  have d: "distinct ?rs" using assms(2) c by simp
  have "fold (\<lambda>(r, a) s. s(r := take_addr (s r))) ?ps (w_vifs w') r = w_vifs w r" for r
  proof (cases "r \<in> set ?rs")
    case True
    then obtain i where i: "i < length (vt_ends e)" "r = ep_vif (vt_ends e ! i)"
      by (auto simp: in_set_conv_nth)
    have "vif_restore_addr (w_vifs w r) = None" using assms(3) c(1) i by simp
    moreover have "fold (\<lambda>(r, a) s. s(r := take_addr (s r))) ?ps (w_vifs w') r = take_addr (w_vifs w' r)"
      using fold_fun_upd_at [of ?ps i "\<lambda>_. take_addr" "w_vifs w'"] d i by (simp add: comp_def)
    moreover have "w_vifs w' r = give_addr (as ! i) (w_vifs w r)"
      using give_addrs_at [OF d, of as i "w_vifs w"] c(3,4) i by simp
    ultimately show ?thesis by (simp add: take_give)
  next
    case False
    have "fold (\<lambda>(r, a) s. s(r := take_addr (s r))) ?ps (w_vifs w') r = w_vifs w' r"
      using False by (intro fold_fun_upd_notin [where g = "\<lambda>_. take_addr"]) auto
    with False c(4) give_addrs_other [of r ?rs as "w_vifs w"] show ?thesis by simp
  qed
  then show ?thesis
    unfolding c(2) by (simp add: nat_restore_eq fun_eq_iff)
qed

theorem nat_restore_roundtrip_witness:
  "\<exists>vt' w' w''. nat_configure_vms quiet_env suts_t vt_t [] [] (world0\<lparr>w_vifs := vif_t\<rparr>) = (Inr vt', w')
     \<and> nat_restore_vms vt' w' = (Inr (), w'') \<and> w_vifs w'' = vif_t"
proof -
  obtain vt' w' where run: "nat_configure_vms quiet_env suts_t vt_t [] [] (world0\<lparr>w_vifs := vif_t\<rparr>) = (Inr vt', w')"
    using nat_vt_t by blast
  from nat_restore_roundtrip [OF run] run show ?thesis
    by (simp add: vt_t_ends ep_t_def vif_t_def vif_no_def VhostUserInterface_def)
qed

text \<open>
  C30 After the machines are configured for NAT, every endpoint has an IPv4 and an IPv6 address inside its network,
  the client in the client network and the servers in the server network; no two endpoints share an address,
  and none has an address of the router or of the range that source NAT translates to.
\<close>

theorem nat_addresses_apart:
  assumes "nat_configure_vms env ss vt ips4 ips6 w = (Inr vt', w')"
    and "distinct (map ep_vif (vt_ends (hd (vt_allow vt))))"
  shows "\<exists>as. map (\<lambda>e. vif_addr (w_vifs w' (ep_vif e))) (vt_ends (hd (vt_allow vt'))) = map Some as
     \<and> (\<forall>a \<in> set as. in_net (ia_ipv4_network a) (ia_ipv4 a) \<and> in_net (ia_ipv6_network a) (ia_ipv6 a))
     \<and> map ia_ipv4_network as = NAT_CLIENT_NETV4 # replicate (length as - 1) NAT_SERVER_NETV4
     \<and> distinct (map ia_ipv4 as) \<and> distinct (map ia_ipv6 as)
     \<and> set (map ia_ipv4 as) \<inter> reserved NAT_CLIENT_NETV4 NAT_SERVER_NETV4 = {}
     \<and> set (map ia_ipv6 as) \<inter> reserved NAT_CLIENT_NETV6 NAT_SERVER_NETV6 = {}"
proof -
  from assms(1) obtain e es as where c: "vt_allow vt = e # es" "vt' = \<lparr>vt_allow = [e], vt_deny = []\<rparr>"
    "length as = length (vt_ends e)" "nat_address NAT_CLIENT_NETV4 NAT_CLIENT_NETV6 100 = Inr (as ! 0)"
    and servers: "\<forall>i < length (get_full_deps e). nat_address NAT_SERVER_NETV4 NAT_SERVER_NETV6 (100 + int i) = Inr (as ! Suc i)"
    and store: "w_vifs w' = give_addrs (map ep_vif (vt_ends e)) as (w_vifs w)"
    by (rule nat_configure_eq)
  let ?n = "length (get_full_deps e)"
  have len: "length as = Suc ?n" using c(3) by (simp add: vt_ends_def)
  have d: "distinct (map ep_vif (vt_ends e))" using assms(2) c(1) by simp
  have "map (\<lambda>e. vif_addr (w_vifs w' (ep_vif e))) (vt_ends e) = map Some as"
    using give_addrs_at [OF d, of as _ "w_vifs w"] c(3) store by (intro nth_equalityI) (auto simp: give_addr_def)
  moreover have as: "as = map (\<lambda>j. \<lparr>ia_ipv4 = nat_ips NAT_CLIENT_NETV4 NAT_SERVER_NETV4 ?n ! j,
        ia_ipv4_network = (NAT_CLIENT_NETV4 # replicate ?n NAT_SERVER_NETV4) ! j,
        ia_ipv6 = nat_ips NAT_CLIENT_NETV6 NAT_SERVER_NETV6 ?n ! j,
        ia_ipv6_network = (NAT_CLIENT_NETV6 # replicate ?n NAT_SERVER_NETV6) ! j\<rparr>) [0..<Suc ?n]" (is "_ = map ?a _")
  proof (rule nth_equalityI)
    show "as ! j = map ?a [0..<Suc ?n] ! j" if "j < length as" for j
      using that len c(4) servers nat_address_at
      by (cases j) (fastforce simp: nat_ips_def simp del: upt_Suc)+
  qed (simp add: len)
  moreover have "map ia_ipv4 as = nat_ips NAT_CLIENT_NETV4 NAT_SERVER_NETV4 ?n"
    "map ia_ipv6 as = nat_ips NAT_CLIENT_NETV6 NAT_SERVER_NETV6 ?n"
    "map ia_ipv4_network as = NAT_CLIENT_NETV4 # replicate (length as - 1) NAT_SERVER_NETV4"
    unfolding as by (intro nth_equalityI; simp add: nat_ips_def del: upt_Suc)+
  moreover have "in_net (ia_ipv4_network a) (ia_ipv4 a) \<and> in_net (ia_ipv6_network a) (ia_ipv6 a)" if "a \<in> set as" for a
  proof -
    from that obtain j where j: "j < length as" "a = as ! j" by (auto simp: in_set_conv_nth)
    show ?thesis
      using j len c(4) servers nat_address_at in_net_at by (cases j) fastforce+
  qed
  ultimately show ?thesis
    using c(2) nat_ips_distinct nat_ips_free nat_nets_apart by (intro exI [of _ as]) simp
qed

theorem nat_addresses_apart_witness:
  "\<exists>vt' w' a b. nat_configure_vms quiet_env suts_t vt_t [] [] (world0\<lparr>w_vifs := vif_t\<rparr>) = (Inr vt', w')
     \<and> vif_addr (w_vifs w' 0) = Some a \<and> vif_addr (w_vifs w' 1) = Some b \<and> ia_ipv4 a \<noteq> ia_ipv4 b"
proof -
  obtain vt' w' where run: "nat_configure_vms quiet_env suts_t vt_t [] [] (world0\<lparr>w_vifs := vif_t\<rparr>) = (Inr vt', w')"
    using nat_vt_t by blast
  then have ends: "vt_ends (hd (vt_allow vt')) = [ep_t 0 0, ep_t 1 1]"
    using vt_t_ends by (auto elim!: nat_configure_eq)
  have "distinct (map ep_vif (vt_ends (hd (vt_allow vt_t))))" by (simp add: vt_t_ends ep_t_def)
  from nat_addresses_apart [OF run this] obtain as
    where "map (\<lambda>e. vif_addr (w_vifs w' (ep_vif e))) (vt_ends (hd (vt_allow vt'))) = map Some as" "distinct (map ia_ipv4 as)"
    by blast
  then obtain a b where "vif_addr (w_vifs w' 0) = Some a" "vif_addr (w_vifs w' 1) = Some b" "ia_ipv4 a \<noteq> ia_ipv4 b"
    unfolding ends by (auto simp: ep_t_def map_eq_Cons_conv Cons_eq_map_conv)
  with run show ?thesis by blast
qed

text \<open>
  C17 The reader of the connection dump reads back what its format prints: every line gives its protocol and
  its items in order, nested ones included.
\<close>

theorem conns_roundtrip:
  assumes "\<forall>c \<in> set cs. conn_ok_text c"
  shows "parse_conns (concat (map conn_text cs)) = Inr (map conn_kvs cs)"
  by (rule parse_conns_text [OF assms])

theorem conns_roundtrip_witness:
  "parse_conns (''tcp,orig=(src=172.10.0.100,dport=22),id=7'' @ [nl])
     = Inr [[(''orig'', KObj [(''src'', KStr ''172.10.0.100''), (''dport'', KStr ''22'')]), (''id'', KStr ''7''),
             (''proto'', KStr ''tcp'')]]"
  using conns_roundtrip [of "[conn_t]"] conn_t_ok
  by (simp add: conn_t_def conn_text_def conn_kvs_def str_item_def flat_text_def)

text \<open>
  C37 When the switch answers the dump command with a list of connections, the check returns exactly if the number
  of those with the protocol is the expected one, and raises a \<open>RuntimeError\<close> with that number otherwise.
\<close>

theorem nat_check_counts:
  assumes "f (wire True (CmdStr (fmt [vs_ovs_bin_dir (su_vswitch (ss ! k)), ''/'', ''ovs-appctl dpctl/dump-conntrack -m''])))
      = (0, concat (map conn_text cs))"
    and "\<forall>c \<in> set cs. conn_ok_text c"
  shows "fst (check_nat_result (echo_env f) k n proto (ss, w)) =
     (let live = length (filter (\<lambda>(p, fs). proto = None \<or> proto = Some [] \<or> proto = Some p) cs)
      in if int live = n then Inr () else Inl (RuntimeError (''NAT conn num is '' @ nat_str live)))"
proof -
  have "f (wire True (CmdStr (vs_ovs_bin_dir (su_vswitch (ss ! k)) @ ''/'' @ ''ovs-appctl dpctl/dump-conntrack -m'')))
      = (0, concat (map conn_text cs))"
    using assms(1) by (simp add: fmt_def)
  then show ?thesis
    by (simp add: check_nat_result_def em_simps parse_conns_text [OF assms(2)] live_conn_kvs [OF assms(2)] Let_def sleepE_def)
qed

theorem nat_check_counts_witness:
  "fst (check_nat_result (echo_env (\<lambda>_. (0, conn_text conn_t))) 0 1 (Some ''tcp'') (suts_t, world0)) = Inr ()
   \<and> fst (check_nat_result (echo_env (\<lambda>_. (0, conn_text conn_t))) 0 2 None (suts_t, world0))
        = Inl (RuntimeError ''NAT conn num is 1'')"
  using nat_check_counts [of "\<lambda>_. (0, conn_text conn_t)" suts_t 0 "[conn_t]"] conn_t_ok
  by (simp add: conn_t_def nat_str_small)

end
