(* ===== verification/Topology.thy ===== *)
theory Topology imports Nat_Props begin

unbundle bit_operations_syntax

text \<open>
  \<open>topology.py\<close>: how a system under test is set up from its description in the topology file.  The
  processors and huge pages of the host are read over SSH, the switch takes its share on each NUMA node,
  and the rest is given to virtual machines with their interfaces.
\<close>

section \<open>The description of a node\<close>

text \<open>
  A mapping of the topology file, as the YAML reader gives it: \<open>None\<close> is a key that is missing.  The
  interfaces are a mapping in the order of the file, empty when the key is missing.
\<close>

record node_spec =
  ns_type :: "string option"
  ns_id :: "pyval option"
  ns_host :: "string option"
  ns_port :: "int option"
  ns_username :: "string option"
  ns_password :: "string option"
  ns_huge_mnt :: "string option"
  ns_userspace_tso :: "pyval option"
  ns_hugepage_size :: "pyval option"
  ns_test_root_dir :: "string option"
  ns_dp_type :: "string option"
  ns_pnic_numa_cpu_num :: "pyval option"
  ns_norm_numa_cpu_num :: "pyval option"
  ns_driver :: "string option"
  ns_vm_mem_size :: "pyval option"
  ns_vm_cpu_num :: "pyval option"
  ns_vhost_client_mode :: "pyval option"
  ns_interfaces :: "(string \<times> iface_spec) list"

definition item :: "string \<Rightarrow> 'a option \<Rightarrow> 'a res" where
  "item key x = (case x of None \<Rightarrow> Inl (KeyError key) | Some v \<Rightarrow> Inr v)"

definition get_or :: "'a option \<Rightarrow> 'a \<Rightarrow> 'a" where
  "get_or x d = (case x of None \<Rightarrow> d | Some v \<Rightarrow> v)"

definition Node_ssh_info :: "node_spec \<Rightarrow> node res" where
  "Node_ssh_info spec =
     bindR (item ''host'' (ns_host spec)) (\<lambda>host.
     bindR (item ''port'' (ns_port spec)) (\<lambda>port.
     bindR (item ''username'' (ns_username spec)) (\<lambda>user.
     bindR (item ''password'' (ns_password spec)) (\<lambda>pw.
     Inr \<lparr>nd_host = host, nd_port = port, nd_username = user, nd_password = Some pw, nd_priv_key = None\<rparr>))))"

definition HUGE_MNT :: string where "HUGE_MNT = ''/dev/hugepages''"
definition HUGEPAGE_SIZE :: int where "HUGEPAGE_SIZE = 1024"
definition OVSDPDK_MEM_PER_SOCKET :: int where "OVSDPDK_MEM_PER_SOCKET = 1024 * 512"
definition OVSDPDK_PNIC_NUMA_CPU_NUM :: int where "OVSDPDK_PNIC_NUMA_CPU_NUM = 1"
definition OVSDPDK_NORM_NUMA_CPU_NUM :: int where "OVSDPDK_NORM_NUMA_CPU_NUM = 1"
definition MAX_VM_PER_NUMA :: nat where "MAX_VM_PER_NUMA = 2"

section \<open>Reading the resources of the host\<close>

definition sut_cmd :: "ssh_env \<Rightarrow> node \<Rightarrow> string \<Rightarrow> (world, (int \<times> string \<times> string) option) em" where
  "sut_cmd env n cmd = exec_cmd env (Some n) (CmdStr cmd) (Some 600) True False"

definition out_of :: "(int \<times> string \<times> string) option \<Rightarrow> string option" where
  "out_of r = map_option (\<lambda>(rc, out, er). out) r"

definition sys_exit :: "(world, unit) em \<Rightarrow> (world, 'a) em" where
  "sys_exit msg = thenE msg (raiseE SystemExit)"

definition atoi :: "string \<Rightarrow> int" where
  "atoi s = (case py_int s of Inl e \<Rightarrow> 0 | Inr n \<Rightarrow> n)"

definition parse_cpuinfo :: "string \<Rightarrow> int list list" where
  "parse_cpuinfo out =
     map (\<lambda>line. map atoi (split_on (CHR '','') line))
       (filter (\<lambda>line. line \<noteq> [] \<and> hd line \<noteq> CHR ''#'') (split_on nl out))"

text \<open>\<open>xs[i]\<close> as a position: a negative index counts from the end.\<close>

definition py_index :: "'a list \<Rightarrow> int \<Rightarrow> nat res" where
  "py_index xs i =
     (let j = (if i < 0 then int (length xs) + i else i)
      in if 0 \<le> j \<and> j < int (length xs) then Inr (nat j) else Inl IndexError)"

definition numa_count :: "int list list \<Rightarrow> int res" where
  "numa_count cpuinfo =
     (if cpuinfo = [] then Inl IndexError
      else bindR (py_index (last cpuinfo) 3) (\<lambda>k. Inr (last cpuinfo ! k + 1)))"

text \<open>A number read from a file of the host: anything else ends the program, a negative one counts as 0.\<close>

definition read_number :: "(world, unit) em \<Rightarrow> string \<Rightarrow> (world, int) em" where
  "read_number msg out =
     (case py_int out of
        Inl e \<Rightarrow> sys_exit msg
      | Inr n \<Rightarrow> retE (if n < 0 then 0 else n))"

definition Numa :: "int \<Rightarrow> numa" where
  "Numa numa_id = \<lparr>nu_id = numa_id, nu_avail_cpus = [], nu_avail_mem = 0, nu_vms = []\<rparr>"

definition read_numa :: "ssh_env \<Rightarrow> node \<Rightarrow> int \<Rightarrow> int \<Rightarrow> (world, numa list) em" where
  "read_numa env n hugepage_size numa_id =
     (let cmd = fmt [''cat /sys/devices/system/node/node'', int_str numa_id, ''/hugepages/hugepages-'',
                     int_str hugepage_size, ''kB/free_hugepages''] in
      bindE (sut_cmd env n cmd) (\<lambda>r.
      bindE (liftE (attr_of r)) (\<lambda>(ret_code, out, er).
      let out = strip out in
      if ret_code \<noteq> 0 then retE []
      else
        bindE (read_number (logX (fmt [''Reading numa hugepage failed : '', cmd, '' '', out])) out) (\<lambda>free.
        retE [(Numa numa_id)\<lparr>nu_avail_mem := hugepage_size * free\<rparr>]))))"

text \<open>A processor goes to the NUMA node at the position of its number in the list of those with huge pages.\<close>

definition add_cpu :: "int list \<Rightarrow> numa list \<Rightarrow> numa list res" where
  "add_cpu cpu numas =
     bindR (py_index cpu 3) (\<lambda>c.
     bindR (py_index numas (cpu ! c)) (\<lambda>i.
     Inr (numas[i := (numas ! i)\<lparr>nu_avail_cpus := nu_avail_cpus (numas ! i) @ [cpu ! 0]\<rparr>])))"

definition drop_core0 :: "numa list \<Rightarrow> numa list res" where
  "drop_core0 numas =
     (case numas of
        [] \<Rightarrow> Inl IndexError
      | nu # nus \<Rightarrow>
          if 0 \<in> set (nu_avail_cpus nu) then Inr (nu\<lparr>nu_avail_cpus := remove1 0 (nu_avail_cpus nu)\<rparr> # nus)
          else Inl ValueError)"

definition read_numas :: "ssh_env \<Rightarrow> node \<Rightarrow> string \<Rightarrow> int \<Rightarrow> (world, int list list \<times> numa list) em" where
  "read_numas env n huge_mnt hugepage_size =
     bindE (sut_cmd env n ''lscpu -p'') (\<lambda>r.
     thenE (kill_process env n ''qemu-system-x86_64'')
    (thenE (kill_process env n ''ovs-vswitchd'')
    (thenE (kill_process env n ''ovsdb-server'')
    (thenE (sut_cmd env n (fmt [''rm -rf '', huge_mnt, ''/rtemap_*'']))
    (bindE (liftE (attr_of (out_of r))) (\<lambda>out.
     let cpuinfo = parse_cpuinfo out in
     bindE (liftE (numa_count cpuinfo)) (\<lambda>n_numa.
     bindE (collectE (map int [0..<nat n_numa]) (read_numa env n hugepage_size)) (\<lambda>numas.
     bindE (liftE (bindR (foldR add_cpu cpuinfo numas) drop_core0)) (\<lambda>numas.
     retE (cpuinfo, numas))))))))))"

section \<open>The NUMA node of the uplinks\<close>

text \<open>\<open>not self.pnic_numa_id\<close> holds of \<open>None\<close> and of 0.\<close>

primrec read_pnic_numa ::
  "ssh_env \<Rightarrow> node \<Rightarrow> (string \<times> iface_spec) list \<Rightarrow> int option \<Rightarrow> (world, int option) em" where
  "read_pnic_numa env n [] pnic = retE pnic"
| "read_pnic_numa env n (i # specs) pnic =
     bindE (liftE (item ''pci_address'' (if_pci_address (snd i)))) (\<lambda>pci.
     bindE (sut_cmd env n (fmt [''cat /sys/bus/pci/devices/'', py_str pci, ''/numa_node''])) (\<lambda>r.
     bindE (liftE (case out_of r of None \<Rightarrow> Inl TypeError | Some s \<Rightarrow> Inr s)) (\<lambda>out.
     bindE (read_number (logX (''Reading numa location failed for: '' @ py_str pci)) out) (\<lambda>numa_id.
     if pnic = None \<or> pnic = Some 0 then read_pnic_numa env n specs (Some numa_id)
     else if pnic \<noteq> Some numa_id then sys_exit (logW ''uplink interfaces CANNOT be on different numa nodes'')
     else read_pnic_numa env n specs pnic))))"

section \<open>The share of OVS-DPDK\<close>

text \<open>The memory the switch takes on a NUMA node; a node that has too little is left out altogether.\<close>

definition take_socket_mem :: "int \<Rightarrow> numa \<Rightarrow> (world, (numa \<times> int) list) em" where
  "take_socket_mem socket_mem nu =
     (if nu_avail_mem nu \<le> socket_mem then
        thenE (logW (fmt [''numa node:'', int_str (nu_id nu), '' mem:'', int_str (nu_avail_mem nu),
                 '' is not enough for ovsdpdk socket_mem:'', int_str socket_mem, ''. skip this numa node.'']))
              (retE [(nu\<lparr>nu_avail_mem := 0\<rparr>, 0)])
      else retE [(nu\<lparr>nu_avail_mem := nu_avail_mem nu - socket_mem\<rparr>, socket_mem)])"

definition socket_mem_str :: "int list \<Rightarrow> string" where
  "socket_mem_str mems = rstrip_char (CHR '','') (concat (map (\<lambda>m. int_str (m div 1024) @ '','') mems))"

text \<open>\<open>cpu_mask |= 1 << cpu\<close>\<close>

fun mask_cpus :: "int list \<Rightarrow> nat \<Rightarrow> nat res" where
  "mask_cpus [] m = Inr m"
| "mask_cpus (c # cs) m = (if c < 0 then Inl ValueError else mask_cpus cs (m OR 2 ^ nat c))"

definition take_cores :: "int \<Rightarrow> int \<Rightarrow> int option \<Rightarrow> numa \<Rightarrow> nat \<Rightarrow> (world, numa \<times> nat) em" where
  "take_cores pnic_num norm_num pnic nu msk =
     (if nu_avail_mem nu = 0 then retE (nu, msk)
      else
        let on_pnic = (Some (nu_id nu) = pnic); num = (if on_pnic then pnic_num else norm_num) in
        if int (length (nu_avail_cpus nu)) < num then
          sys_exit (logW (fmt [if on_pnic then ''pnic numa node:'' else ''norm numa node:'', int_str (nu_id nu),
            '' have have no '', int_str pnic_num, '' cpus'']))
        else
          bindE (liftE (mask_cpus (take (nat num) (nu_avail_cpus nu)) msk)) (\<lambda>msk'.
          retE (nu\<lparr>nu_avail_cpus := drop (nat num) (nu_avail_cpus nu)\<rparr>, msk')))"

primrec take_all_cores :: "int \<Rightarrow> int \<Rightarrow> int option \<Rightarrow> numa list \<Rightarrow> nat \<Rightarrow> (world, numa list \<times> nat) em" where
  "take_all_cores pnic_num norm_num pnic [] msk = retE ([], msk)"
| "take_all_cores pnic_num norm_num pnic (nu # nus) msk =
     bindE (take_cores pnic_num norm_num pnic nu msk) (\<lambda>(nu', msk').
     bindE (take_all_cores pnic_num norm_num pnic nus msk') (\<lambda>(nus', msk'').
     retE (nu' # nus', msk'')))"

definition int_opt :: "pyval option \<Rightarrow> int \<Rightarrow> int res" where
  "int_opt x d = py_int_of (get_or x (PInt d))"

definition dpdk_share ::
  "node_spec \<Rightarrow> string \<Rightarrow> int \<Rightarrow> int option \<Rightarrow> numa list \<Rightarrow> (world, numa list \<times> dpdk_params) em" where
  "dpdk_share spec huge_mnt hugepage_size pnic numas =
     bindE (collectE numas (take_socket_mem (max OVSDPDK_MEM_PER_SOCKET hugepage_size))) (\<lambda>ps.
     bindE (liftE (int_opt (ns_pnic_numa_cpu_num spec) OVSDPDK_PNIC_NUMA_CPU_NUM)) (\<lambda>pnic_num.
     bindE (liftE (int_opt (ns_norm_numa_cpu_num spec) OVSDPDK_NORM_NUMA_CPU_NUM)) (\<lambda>norm_num.
     bindE (take_all_cores pnic_num norm_num pnic (map fst ps) 0) (\<lambda>(numas', msk).
     retE (numas', \<lparr>dp_driver = get_or (ns_driver spec) ''vfio-pci'', dp_socket_mem = socket_mem_str (map snd ps),
       dp_huge_mnt = huge_mnt, dp_cpu_mask = py_hex msk,
       dp_userspace_tso = get_or (ns_userspace_tso spec) (PBool True)\<rparr>)))))"

end
