(* ===== verification/Testbed.thy ===== *)
theory Testbed imports Topology begin

text \<open>
  \<open>topology.py\<close>, second part: the virtual machines of a system with their interfaces, the constructor of a
  system, and loading the whole testbed.
\<close>

section \<open>The interfaces of a machine\<close>

text \<open>\<open>{:02d}\<close> and \<open>{:03d}\<close>: zeros follow the sign.\<close>

definition pad_int :: "nat \<Rightarrow> int \<Rightarrow> string" where
  "pad_int k i = (if i < 0 then CHR ''-'' # pad0 (k - 1) (nat_str (nat (- i))) else pad0 k (int_str i))"

definition hex2 :: "int \<Rightarrow> string" where
  "hex2 i = pad0 2 (hex_str (nat i))"

text \<open>
  The addresses: the octets of the IPv4 address raise unless each is between 0 and 255, so the two groups
  of the IPv6 address have at most four digits.
\<close>

definition vif_address :: "int \<Rightarrow> int \<Rightarrow> int \<Rightarrow> if_address res" where
  "vif_address if_idx node_idx guest_idx =
     bindR (ipv4_of_octets 172 (168 + if_idx) node_idx guest_idx) (\<lambda>ipv4.
     let ipv6 = ipv6_of_groups [0x2001, 0x1000, 0x1000, 0x1000, 0, 0, 0xac00 + (168 + if_idx), node_idx * 256 + guest_idx]
     in Inr \<lparr>ia_ipv4 = ipv4, ia_ipv4_network = net_of ipv4 16, ia_ipv6 = ipv6, ia_ipv6_network = net_of ipv6 112\<rparr>)"

record vm_params =
  vp_node_idx :: int
  vp_mem_size :: int
  vp_cpu_num :: int
  vp_huge_mnt :: string
  vp_host :: node
  vp_test_root_dir :: string
  vp_test_tmp_dir :: string
  vp_native :: bool
  vp_client_mode :: pyval

definition vhost_sock_dir :: string where "vhost_sock_dir = ''/var/run/openvswitch''"

definition vif_name_of :: "int \<Rightarrow> int \<Rightarrow> string" where
  "vif_name_of node_idx if_idx_of_host = fmt [''vhost_'', pad_int 2 node_idx, pad_int 3 if_idx_of_host]"

definition make_vif :: "vm_params \<Rightarrow> string \<Rightarrow> int \<Rightarrow> int \<Rightarrow> int \<Rightarrow> vif res" where
  "make_vif p name if_idx_on_vm if_idx_of_host guest_idx =
     bindR (vif_address if_idx_on_vm (vp_node_idx p) guest_idx) (\<lambda>addr.
     let vname = vif_name_of (vp_node_idx p) if_idx_of_host;
         mac = fmt [''00:00:00:'', hex2 (vp_node_idx p), '':'', hex2 guest_idx, '':'', hex2 (if_idx_on_vm + 1)];
         v = VhostUserInterface vname if_idx_on_vm mac (PStr (int_str (OFP_VHOST_BASE + if_idx_of_host)));
         path = path_join (vp_test_tmp_dir p) (fmt [name, ''_'', vname])
     in Inr (v\<lparr>vif_client_mode := (to_lower (py_str (vp_client_mode p)) \<noteq> ''false''),
          vif_addr := Some addr, vif_sock := Some (path_join vhost_sock_dir vname),
          vif_ifup := (if vp_native p then Some (path @ ''_ifup'') else None),
          vif_ifdown := (if vp_native p then Some (path @ ''_ifdown'') else None)\<rparr>))"

text \<open>The interfaces of one machine, with the numbers on the host from \<open>if_idx_of_host\<close> on.\<close>

definition add_one_vif :: "vm_params \<Rightarrow> vm \<Rightarrow> int \<Rightarrow> int \<Rightarrow> int \<Rightarrow> (world, vm) em" where
  "add_one_vif p m if_idx_on_vm if_idx_of_host guest_idx =
     bindE (liftE (make_vif p (vm_name m) if_idx_on_vm if_idx_of_host guest_idx)) (\<lambda>v.
     bindE (new_vif v) (\<lambda>r. add_vhost_user_if m r))"

primrec add_vifs :: "vm_params \<Rightarrow> int \<Rightarrow> int \<Rightarrow> nat list \<Rightarrow> vm \<Rightarrow> (world, vm) em" where
  "add_vifs p if_base guest_idx [] m = retE m"
| "add_vifs p if_base guest_idx (i # idxs) m =
     bindE (add_one_vif p m (int i) (if_base + int i) guest_idx) (add_vifs p if_base guest_idx idxs)"

section \<open>The machines of a NUMA node\<close>

definition vm_name_of :: "int \<Rightarrow> int \<Rightarrow> string" where
  "vm_name_of node_idx guest_idx = fmt [''vm_'', pad_int 2 node_idx, ''_'', pad_int 2 guest_idx]"

definition make_vm :: "ssh_env \<Rightarrow> vm_params \<Rightarrow> int list \<Rightarrow> int \<Rightarrow> int \<Rightarrow> (world, vm) em" where
  "make_vm env p cpus if_idx_of_host guest_idx =
     bindE (VirtualMachine env (vm_name_of (vp_node_idx p) guest_idx) guest_idx (vp_mem_size p) cpus (vp_huge_mnt p)
              (vp_host p) (vp_test_root_dir p) (vp_native p)) (\<lambda>m.
     add_vifs p if_idx_of_host guest_idx [0..<VM_VIFS_NUM] m)"

text \<open>
  At most \<open>n\<close> machines on a NUMA node, as long as memory and processors last.  The counters are the
  number of the next interface and of the next machine of the host.
\<close>

primrec alloc_vms :: "ssh_env \<Rightarrow> vm_params \<Rightarrow> nat \<Rightarrow> numa \<Rightarrow> int \<Rightarrow> int \<Rightarrow> (world, numa \<times> int \<times> int) em" where
  "alloc_vms env p 0 nu if_idx guest_idx = retE (nu, if_idx, guest_idx)"
| "alloc_vms env p (Suc n) nu if_idx guest_idx =
     (if nu_avail_mem nu < vp_mem_size p \<or> int (length (nu_avail_cpus nu)) < vp_cpu_num p
      then retE (nu, if_idx, guest_idx)
      else
        let k = nat (vp_cpu_num p) in
        bindE (make_vm env p (take k (nu_avail_cpus nu)) if_idx guest_idx) (\<lambda>m.
        alloc_vms env p n
          (nu\<lparr>nu_avail_mem := nu_avail_mem nu - vp_mem_size p, nu_avail_cpus := drop k (nu_avail_cpus nu),
              nu_vms := nu_vms nu @ [m]\<rparr>)
          (if_idx + int VM_VIFS_NUM) (guest_idx + 1)))"

primrec alloc_all :: "ssh_env \<Rightarrow> vm_params \<Rightarrow> numa list \<Rightarrow> int \<Rightarrow> int \<Rightarrow> (world, numa list) em" where
  "alloc_all env p [] if_idx guest_idx = retE []"
| "alloc_all env p (nu # nus) if_idx guest_idx =
     bindE (if nu_avail_mem nu = 0 then retE (nu, if_idx, guest_idx)
            else alloc_vms env p MAX_VM_PER_NUMA nu if_idx guest_idx) (\<lambda>(nu', if_idx', guest_idx').
     bindE (alloc_all env p nus if_idx' guest_idx') (\<lambda>nus'. retE (nu' # nus')))"

section \<open>A system under test\<close>

definition TEP_NETV4 :: ipnet where
  "TEP_NETV4 = \<lparr>network_address = IPv4Address (((10 * 256 + 111) * 256 + 0) * 256 + 0), prefixlen = 16\<rparr>"

definition TEP_NETV6 :: ipnet where
  "TEP_NETV6 = \<lparr>network_address = ipv6_of_groups [0x2001, 0x1000, 0x1000, 0x1000, 0, 0, 0x0a6f, 0], prefixlen = 112\<rparr>"

definition tep_address :: "int \<Rightarrow> if_address res" where
  "tep_address node_idx =
     bindR (hosts_nth TEP_NETV4 (node_idx + 1)) (\<lambda>a4.
     bindR (hosts_nth TEP_NETV6 (node_idx + 1)) (\<lambda>a6.
     Inr \<lparr>ia_ipv4 = a4, ia_ipv4_network = TEP_NETV4, ia_ipv6 = a6, ia_ipv6_network = TEP_NETV6\<rparr>))"

definition find_root_dir :: "ssh_env \<Rightarrow> node \<Rightarrow> string option \<Rightarrow> (world, string) em" where
  "find_root_dir env n dir =
     (case dir of
        Some (c # cs) \<Rightarrow> retE (c # cs)
      | _ \<Rightarrow> bindE (sut_cmd env n ''echo ~'') (\<lambda>r. retE (path_join (strip (opt_str (out_of r))) ''TEST_ROOT/'')))"

text \<open>A method of a switch that no system holds yet; the result is the switch afterwards.\<close>

definition run_switch :: "'a vsm \<Rightarrow> vswitch \<Rightarrow> (world, vswitch) em" where
  "run_switch m vs = (\<lambda>w. case m (vs, w) of (Inl e, (vs', w')) \<Rightarrow> (Inl e, w') | (Inr x, (vs', w')) \<Rightarrow> (Inr vs', w'))"

text \<open>The datapath: its kind, and what it leaves of the NUMA nodes.\<close>

definition make_datapath ::
  "node_spec \<Rightarrow> string \<Rightarrow> string \<Rightarrow> int \<Rightarrow> int option \<Rightarrow> numa list \<Rightarrow> (world, numa list \<times> vs_kind) em" where
  "make_datapath spec dp_type huge_mnt hugepage_size pnic numas =
     (if dp_type = ''ovs-dpdk'' then
        bindE (dpdk_share spec huge_mnt hugepage_size pnic numas) (\<lambda>(numas', params). retE (numas', OvsDpdk params))
      else if dp_type = ''ovs-native'' then retE (numas, OvsNative)
      else raiseE (RuntimeError (fmt [''Do not support '', dp_type, '' type datapath''])))"

definition make_vm_params :: "node_spec \<Rightarrow> node \<Rightarrow> int \<Rightarrow> int \<Rightarrow> string \<Rightarrow> string \<Rightarrow> string \<Rightarrow> bool \<Rightarrow> vm_params res" where
  "make_vm_params spec n node_idx hugepage_size huge_mnt root tmp native =
     bindR (int_opt (ns_vm_mem_size spec) VM_MEM_SIZE) (\<lambda>mem.
     bindR (int_opt (ns_vm_cpu_num spec) VM_CPU_NUM) (\<lambda>cpus.
     Inr \<lparr>vp_node_idx = node_idx, vp_mem_size = max (mem * 1024) hugepage_size, vp_cpu_num = cpus,
          vp_huge_mnt = huge_mnt, vp_host = n, vp_test_root_dir = root, vp_test_tmp_dir = tmp, vp_native = native,
          vp_client_mode = get_or (ns_vhost_client_mode spec) (PBool True)\<rparr>))"

definition hugepage_kb :: "node_spec \<Rightarrow> int res" where
  "hugepage_kb spec = bindR (int_opt (ns_hugepage_size spec) HUGEPAGE_SIZE) (\<lambda>mb. Inr (mb * 1024))"

definition node_id :: "node_spec \<Rightarrow> int res" where
  "node_id spec = bindR (item ''id'' (ns_id spec)) py_int_of"

text \<open>
  The constructor.  \<open>attach_gdb\<close> is the variable of the test run that the start of the switch reads.  The
  list of machines stays empty: the machines are in the NUMA nodes.
\<close>

definition SUT :: "ssh_env \<Rightarrow> pyval \<Rightarrow> string \<Rightarrow> node_spec \<Rightarrow> (world, sut) em" where
  "SUT env attach_gdb name spec =
     bindE (liftE (Node_ssh_info spec)) (\<lambda>n.
     let huge_mnt = get_or (ns_huge_mnt spec) HUGE_MNT in
     bindE (liftE (hugepage_kb spec)) (\<lambda>hugepage_size.
     bindE (read_numas env n huge_mnt hugepage_size) (\<lambda>(cpuinfo, numas).
     bindE (read_pnic_numa env n (ns_interfaces spec) None) (\<lambda>pnic.
     bindE (find_root_dir env n (ns_test_root_dir spec)) (\<lambda>root.
     let tmp = path_join root ''temp'' in
     thenE (sut_cmd env n (fmt [''rm -rf '', tmp]))
    (thenE (sut_cmd env n (fmt [''mkdir -p '', tmp]))
    (bindE (liftE (node_id spec)) (\<lambda>node_idx.
     let dp_type = get_or (ns_dp_type spec) ''ovs-dpdk'' in
     bindE (liftE (tep_address node_idx)) (\<lambda>tep.
     bindE (make_datapath spec dp_type huge_mnt hugepage_size pnic numas) (\<lambda>(numas, kind).
     bindE (liftE (VirtualSwitch kind n (ns_interfaces spec) tep
              (path_join root (fmt [''bin/'', dp_type, ''/''])) (path_join root ''bin/''))) (\<lambda>vs.
     bindE (run_switch (stop_vswitch env) vs) (\<lambda>vs.
     bindE (run_switch (start_vswitch env attach_gdb) vs) (\<lambda>vs.
     bindE (liftE (make_vm_params spec n node_idx hugepage_size huge_mnt root tmp (kind = OvsNative))) (\<lambda>p.
     bindE (alloc_all env p numas 1 1) (\<lambda>numas.
     retE \<lparr>su_name = name, su_ssh_info = n, su_numas = numas, su_pnic_numa_id = pnic, su_vswitch = vs,
           su_vms = [], su_cpuinfo = cpuinfo\<rparr>)))))))))))))))"

section \<open>The testbed\<close>

text \<open>
  The file's path is a variable of the test run; reading and parsing the file is the YAML library's work,
  the parameter \<open>read_yaml\<close>.  A path that cannot be read ends in \<open>raise\<close> of a string, a \<open>TypeError\<close>.
\<close>

definition load_topo_from_yaml ::
  "ssh_env \<Rightarrow> pyval \<Rightarrow> string res \<Rightarrow> (string \<Rightarrow> (string \<times> node_spec) list res) \<Rightarrow> (world, sut list) em" where
  "load_topo_from_yaml env attach_gdb topo_path read_yaml =
     bindE (liftE (case topo_path of Inl e \<Rightarrow> Inl TypeError | Inr path \<Rightarrow> read_yaml path)) (\<lambda>nodes_spec.
     collectE nodes_spec (\<lambda>(name, spec).
       bindE (liftE (item ''type'' (ns_type spec))) (\<lambda>type.
       if type = ''SUT'' then bindE (SUT env attach_gdb name spec) (\<lambda>s. retE [s]) else retE [])))"

definition init_topology ::
  "ssh_env \<Rightarrow> pyval \<Rightarrow> string res \<Rightarrow> (string \<Rightarrow> (string \<times> node_spec) list res) \<Rightarrow> (world, sut list) em" where
  "init_topology env attach_gdb topo_path read_yaml = load_topo_from_yaml env attach_gdb topo_path read_yaml"

text \<open>The module \<open>init.py\<close>, which the whole test run imports once.\<close>

definition run_init ::
  "ssh_env \<Rightarrow> pyval \<Rightarrow> string res \<Rightarrow> (string \<Rightarrow> (string \<times> node_spec) list res) \<Rightarrow> (world, sut list) em" where
  "run_init env attach_gdb topo_path read_yaml = init_topology env attach_gdb topo_path read_yaml"

end
