(* ===== verification/Testbed_Facts.thy ===== *)
theory Testbed_Facts imports Testbed begin

text \<open>
  How the resources of a host are shared out: what each phase of the constructor of a system does to the
  processors and the memory of the NUMA nodes, and which interfaces the machines get.
\<close>

section \<open>Reading the processors\<close>

abbreviation all_avail :: "numa list \<Rightarrow> int list" where
  "all_avail nus \<equiv> concat (map nu_avail_cpus nus)"

abbreviation cpu_ids :: "int list list \<Rightarrow> int list" where
  "cpu_ids cpuinfo \<equiv> map (\<lambda>c. c ! 0) cpuinfo"

lemma py_index_less: "py_index xs i = Inr k \<Longrightarrow> k < length xs"
  by (auto simp: py_index_def Let_def split: if_splits)

lemma mset_concat_update:
  assumes "i < length xs"
  shows "mset (concat (map f (xs[i := y]))) + mset (f (xs ! i)) = mset (concat (map f xs)) + mset (f y)"
  using assms by (induction xs arbitrary: i) (auto simp: ac_simps nth_Cons split: nat.splits)

lemma add_cpu_adds:
  assumes "add_cpu c nus = Inr nus'"
  shows "mset (all_avail nus') = mset (all_avail nus) + {#c ! 0#} \<and> map nu_vms nus' = map nu_vms nus
     \<and> map nu_avail_mem nus' = map nu_avail_mem nus"
proof -
  from assms obtain i where i: "i < length nus"
    "nus' = nus[i := (nus ! i)\<lparr>nu_avail_cpus := nu_avail_cpus (nus ! i) @ [c ! 0]\<rparr>]"
    by (auto simp: add_cpu_def bindR_Inr_iff dest: py_index_less)
  from mset_concat_update [OF i(1), of nu_avail_cpus "(nus ! i)\<lparr>nu_avail_cpus := nu_avail_cpus (nus ! i) @ [c ! 0]\<rparr>"] i
  have "mset (all_avail nus') + mset (nu_avail_cpus (nus ! i)) = (mset (all_avail nus) + {#c ! 0#}) + mset (nu_avail_cpus (nus ! i))"
    by simp
  with i show ?thesis by (simp add: map_update list_update_same_conv)
qed

lemma add_cpus_all:
  "foldR add_cpu cs nus = Inr nus' \<Longrightarrow>
   mset (all_avail nus') = mset (all_avail nus) + mset (cpu_ids cs) \<and> map nu_vms nus' = map nu_vms nus
     \<and> map nu_avail_mem nus' = map nu_avail_mem nus"
  by (induction cs arbitrary: nus) (auto simp: bindR_Inr_iff dest!: add_cpu_adds)

lemma drop_core0_drops:
  "drop_core0 nus = Inr nus' \<Longrightarrow>
   mset (all_avail nus') + {#0#} = mset (all_avail nus) \<and> map nu_vms nus' = map nu_vms nus
     \<and> map nu_avail_mem nus' = map nu_avail_mem nus"
  by (cases nus) (auto simp: drop_core0_def split: if_splits)

text \<open>A NUMA node as it is read: no processors yet, no machines, and no negative memory.\<close>

definition fresh_numa :: "int \<Rightarrow> numa \<Rightarrow> bool" where
  "fresh_numa h nu \<longleftrightarrow> nu_avail_cpus nu = [] \<and> nu_vms nu = [] \<and> (0 \<le> h \<longrightarrow> 0 \<le> nu_avail_mem nu)"

lemma ret_read_number: "read_number msg out w = (Inr n, w') \<Longrightarrow> 0 \<le> n"
  by (auto simp: read_number_def sys_exit_def returns split: sum.splits if_splits)

lemma ret_read_numa: "read_numa env n h i w = (Inr nus, w') \<Longrightarrow> \<forall>nu \<in> set nus. fresh_numa h nu"
  by (auto simp: read_numa_def returns Let_def fresh_numa_def Numa_def split: if_splits dest!: ret_read_number)

lemma collectE_all:
  assumes "\<And>x w ys w'. b x w = (Inr ys, w') \<Longrightarrow> \<forall>y \<in> set ys. P y" and "collectE xs b w = (Inr zs, w')"
  shows "\<forall>z \<in> set zs. P z"
  using assms(2)
proof (induction xs arbitrary: w zs)
  case (Cons x xs)
  then show ?case using assms(1) by (fastforce simp: returns)
qed (simp add: returns)

lemma ret_read_numas:
  assumes "read_numas env n mnt h w = (Inr (cpuinfo, numas), w')"
  shows "mset (all_avail numas @ [0]) = mset (cpu_ids cpuinfo) \<and> (\<forall>nu \<in> set numas. nu_vms nu = [] \<and> (0 \<le> h \<longrightarrow> 0 \<le> nu_avail_mem nu))"
proof -
  from assms obtain nus0 nus1 w1 w2 k where 1: "collectE (map int [0..<k]) (read_numa env n h) w1 = (Inr nus0, w2)"
    and 2: "foldR add_cpu cpuinfo nus0 = Inr nus1" "drop_core0 nus1 = Inr numas"
    by (auto simp: read_numas_def returns Let_def bindR_Inr_iff)
  have f: "\<forall>nu \<in> set nus0. fresh_numa h nu" by (rule collectE_all [OF ret_read_numa 1])
  then have "all_avail nus0 = []" by (auto simp: fresh_numa_def)
  moreover note add_cpus_all [OF 2(1)] drop_core0_drops [OF 2(2)]
  ultimately have cpus: "mset (all_avail numas @ [0]) = mset (cpu_ids cpuinfo)"
    and same: "map nu_vms numas = map nu_vms nus0" "map nu_avail_mem numas = map nu_avail_mem nus0" by simp_all
  have "nu_vms nu = [] \<and> (0 \<le> h \<longrightarrow> 0 \<le> nu_avail_mem nu)" if "nu \<in> set numas" for nu
  proof -
    from that obtain i where i: "i < length numas" "nu = numas ! i" by (auto simp: in_set_conv_nth)
    have "length nus0 = length numas" using same(1) by (metis length_map)
    with i f have "fresh_numa h (nus0 ! i)" by simp
    moreover have "nu_vms (numas ! i) = nu_vms (nus0 ! i)" "nu_avail_mem (numas ! i) = nu_avail_mem (nus0 ! i)"
      using arg_cong [OF same(1), of "\<lambda>l. l ! i"] arg_cong [OF same(2), of "\<lambda>l. l ! i"] i \<open>length nus0 = length numas\<close>
      by simp_all
    ultimately show ?thesis using i by (simp add: fresh_numa_def)
  qed
  with cpus show ?thesis by blast
qed

section \<open>The share of the switch\<close>

text \<open>The nodes after a phase that takes the processors \<open>cs\<close> and leaves the machines alone.\<close>

definition takes_cpus :: "int list \<Rightarrow> numa list \<Rightarrow> numa list \<Rightarrow> bool" where
  "takes_cpus cs nus nus' \<longleftrightarrow> mset (cs @ all_avail nus') = mset (all_avail nus)
     \<and> ((\<forall>nu \<in> set nus. nu_vms nu = []) \<longrightarrow> (\<forall>nu \<in> set nus'. nu_vms nu = []))
     \<and> ((\<forall>nu \<in> set nus. 0 \<le> nu_avail_mem nu) \<longrightarrow> (\<forall>nu \<in> set nus'. 0 \<le> nu_avail_mem nu))"

lemma takes_cpus_none: "takes_cpus [] nus nus"
  by (simp add: takes_cpus_def)

lemma takes_cpus_trans:
  assumes "takes_cpus cs a b" "takes_cpus ds b c"
  shows "takes_cpus (cs @ ds) a c"
proof -
  have "mset (all_avail a) = mset cs + mset (all_avail b)" "mset (all_avail b) = mset ds + mset (all_avail c)"
    using assms by (simp_all add: takes_cpus_def)
  then have "mset ((cs @ ds) @ all_avail c) = mset (all_avail a)" by simp
  with assms show ?thesis unfolding takes_cpus_def by blast
qed

lemma takes_cpus_Cons:
  assumes "takes_cpus cs [a] [b]" "takes_cpus ds as bs"
  shows "takes_cpus (cs @ ds) (a # as) (b # bs)"
proof -
  have "mset (nu_avail_cpus a) = mset cs + mset (nu_avail_cpus b)" "mset (all_avail as) = mset ds + mset (all_avail bs)"
    using assms by (simp_all add: takes_cpus_def)
  then have "mset ((cs @ ds) @ all_avail (b # bs)) = mset (all_avail (a # as))" by (simp add: ac_simps)
  with assms show ?thesis by (simp add: takes_cpus_def)
qed

lemma mask_cpus_bits:
  "mask_cpus cs m = Inr m' \<Longrightarrow> (\<forall>c \<in> set cs. 0 \<le> c) \<and> (\<forall>k. bit m' k \<longleftrightarrow> bit m k \<or> k \<in> nat ` set cs)"
  by (induction cs arbitrary: m) (auto simp: bit_or_iff bit_exp_iff split: if_splits)

lemma ret_take_cores:
  assumes "take_cores a b pnic nu m w = (Inr (nu', m'), w')"
  shows "\<exists>cs. takes_cpus cs [nu] [nu'] \<and> (\<forall>c \<in> set cs. 0 \<le> c) \<and> (\<forall>k. bit m' k \<longleftrightarrow> bit m k \<or> k \<in> nat ` set cs)"
proof (cases "nu_avail_mem nu = 0")
  case True
  with assms show ?thesis
    by (auto simp: take_cores_def returns intro!: exI [of _ "[]"] takes_cpus_none)
next
  case False
  let ?k = "nat (if Some (nu_id nu) = pnic then a else b)"
  from assms False have 1: "mask_cpus (take ?k (nu_avail_cpus nu)) m = Inr m'"
    "nu' = nu\<lparr>nu_avail_cpus := drop ?k (nu_avail_cpus nu)\<rparr>"
    by (auto simp: take_cores_def returns Let_def sys_exit_def split: if_splits)
  have "takes_cpus (take ?k (nu_avail_cpus nu)) [nu] [nu']"
    unfolding 1(2) takes_cpus_def by (simp flip: mset_append)
  with mask_cpus_bits [OF 1(1)] show ?thesis by blast
qed

lemma ret_take_all_cores:
  "take_all_cores a b pnic nus m w = (Inr (nus', m'), w') \<Longrightarrow>
   \<exists>cs. takes_cpus cs nus nus' \<and> (\<forall>c \<in> set cs. 0 \<le> c) \<and> (\<forall>k. bit m' k \<longleftrightarrow> bit m k \<or> k \<in> nat ` set cs)"
proof (induction nus arbitrary: m w nus')
  case Nil
  then show ?case by (auto simp: returns intro!: exI [of _ "[]"] takes_cpus_none)
next
  case (Cons nu nus)
  from Cons.prems obtain nu1 m1 w1 nus1 where 1: "take_cores a b pnic nu m w = (Inr (nu1, m1), w1)"
    and 2: "take_all_cores a b pnic nus m1 w1 = (Inr (nus1, m'), w')" and n: "nus' = nu1 # nus1"
    by (auto simp: returns)
  from ret_take_cores [OF 1] obtain cs where c: "takes_cpus cs [nu] [nu1]" "\<forall>c \<in> set cs. 0 \<le> c"
    "\<forall>k. bit m1 k \<longleftrightarrow> bit m k \<or> k \<in> nat ` set cs" by blast
  from Cons.IH [OF 2] obtain ds where d: "takes_cpus ds nus nus1" "\<forall>c \<in> set ds. 0 \<le> c"
    "\<forall>k. bit m' k \<longleftrightarrow> bit m1 k \<or> k \<in> nat ` set ds" by blast
  show ?case
    using takes_cpus_Cons [OF c(1) d(1)] c d n by (intro exI [of _ "cs @ ds"]) auto
qed

lemma ret_take_socket_mem:
  assumes "collectE nus (take_socket_mem sm) w = (Inr ps, w')"
  shows "takes_cpus [] nus (map fst ps)"
  using assms
proof (induction nus arbitrary: w ps)
  case Nil
  then show ?case by (simp add: returns takes_cpus_none)
next
  case (Cons nu nus)
  from Cons.prems obtain w1 qs rs where 1: "take_socket_mem sm nu w = (Inr qs, w1)"
    and 2: "collectE nus (take_socket_mem sm) w1 = (Inr rs, w')" and p: "ps = qs @ rs"
    by (auto simp: returns)
  from 1 obtain nu' k where q: "qs = [(nu', k)]" "nu_avail_cpus nu' = nu_avail_cpus nu" "nu_vms nu' = nu_vms nu"
    "0 \<le> nu_avail_mem nu \<longrightarrow> 0 \<le> nu_avail_mem nu'"
    by (auto simp: take_socket_mem_def returns split: if_splits)
  then have "takes_cpus [] [nu] [nu']" by (simp add: takes_cpus_def)
  from takes_cpus_Cons [OF this Cons.IH [OF 2]] show ?case by (simp add: p q)
qed

text \<open>The processors of the switch are those of its mask.\<close>

lemma ret_make_datapath:
  assumes "make_datapath spec t mnt h pnic nus w = (Inr (nus', kind), w')"
  shows "\<exists>cs. takes_cpus cs nus nus' \<and> (\<forall>c \<in> set cs. 0 \<le> c)
     \<and> (\<forall>ps. kind = OvsDpdk ps \<longrightarrow> (\<exists>m. dp_cpu_mask ps = py_hex m \<and> (\<forall>k. bit m k \<longleftrightarrow> k \<in> nat ` set cs)))"
proof (cases "t = ''ovs-dpdk''")
  case False
  with assms show ?thesis
    by (auto simp: make_datapath_def returns intro!: exI [of _ "[]"] takes_cpus_none split: if_splits)
next
  case True
  with assms obtain ps a b m w1 w2 where 1: "collectE nus (take_socket_mem (max OVSDPDK_MEM_PER_SOCKET h)) w = (Inr ps, w1)"
    and 2: "take_all_cores a b pnic (map fst ps) 0 w1 = (Inr (nus', m), w2)"
    and k: "\<And>qs. kind = OvsDpdk qs \<Longrightarrow> dp_cpu_mask qs = py_hex m"
    by (auto simp: make_datapath_def dpdk_share_def returns)
  from ret_take_all_cores [OF 2] obtain cs where c: "takes_cpus cs (map fst ps) nus'" "\<forall>c \<in> set cs. 0 \<le> c"
    "\<forall>k. bit m k \<longleftrightarrow> k \<in> nat ` set cs" by auto
  have "takes_cpus cs nus nus'" using takes_cpus_trans [OF ret_take_socket_mem [OF 1] c(1)] by simp
  with c(2,3) k show ?thesis by (intro exI [of _ cs]) blast
qed

lemma ret_run_switch:
  assumes "run_switch m vs w = (Inr vs', w')" "keepsE (\<lambda>s. vs_kind (fst s) = k) m" "vs_kind vs = k"
  shows "vs_kind vs' = k"
proof -
  from assms(1) obtain x where "m (vs, w) = (Inr x, (vs', w'))"
    by (auto simp: run_switch_def split: prod.splits sum.splits)
  from keepsE_D [OF assms(2) _ this] assms(3) show ?thesis by simp
qed

lemma keeps_kind_stop: "keepsE (\<lambda>s. vs_kind (fst s) = k) (stop_vswitch env)"
  unfolding stop_vswitch_def by (intro keeps frameE_keeps [OF vs_kill_frame])

lemmas keeps_kind_cmds =
  vs_execute_frame [THEN frameE_keeps] vs_execute_host_frame [THEN frameE_keeps] vs_run_host_frame [THEN frameE_keeps]
  vs_batch_frame [THEN frameE_keeps]

lemma keeps_kind_uplink: "keepsE (\<lambda>s. vs_kind (fst s) = k) (on_fst (modifyE (upd_uplink i f)))"
  by (auto simp: keepsE_def em_simps upd_uplink_def)

lemma keeps_kind_start: "keepsE (\<lambda>s. vs_kind (fst s) = k) (start_vswitch env g)"
  unfolding start_vswitch_def start_vswitch_dpdk_def start_vswitch_native_def devbind_status_def vs_host_def Let_def
  by (intro keeps; auto split: vs_kind.splits option.splits intro!: keeps keeps_kind_uplink keeps_kind_cmds)

section \<open>The interfaces of the machines\<close>

lemma ret_VirtualMachine:
  assumes "VirtualMachine env name i mem cpus mnt host root native w = (Inr m, w')"
  shows "m = new_vm name i mem cpus mnt host root native \<and> w_vifs w' = w_vifs w \<and> w_next_vif w' = w_next_vif w"
proof -
  let ?m = "new_vm name i mem cpus mnt host root native"
  from assms obtain y where "guest_execute_host env ?m (fmt [''cp '', vm_img_base ?m, '' '', vm_disk_image ?m]) 30 w = (Inr y, w')"
    and m: "m = ?m"
    unfolding VirtualMachine_def Let_def guest_run_host_def by (elim returns_thenE) (simp add: returns_ret)
  then show ?thesis
    by (auto simp: guest_execute_host_def exec_triple_def returns split: if_splits dest: exec_cmd_vifs)
qed

text \<open>The interface with position \<open>i\<close> of machine \<open>guest\<close>, which is number \<open>host\<close> of its host.\<close>

definition vif_made :: "vm_params \<Rightarrow> int \<Rightarrow> int \<Rightarrow> int \<Rightarrow> vif \<Rightarrow> bool" where
  "vif_made p i host guest v \<longleftrightarrow>
     vif_idx v = Some i \<and> vif_name v = vif_name_of (vp_node_idx p) host
     \<and> vif_ofp v = PStr (int_str (OFP_VHOST_BASE + host)) \<and> vif_vni v = PInt VNI_NONE
     \<and> (\<exists>a. vif_address i (vp_node_idx p) guest = Inr a \<and> vif_addr v = Some a)"

lemma ret_add_one_vif:
  assumes "add_one_vif p m i host guest w = (Inr m', w')"
  shows "m' = add_vif (w_next_vif w) m \<and> w_next_vif w' = Suc (w_next_vif w)
     \<and> (\<exists>v. vif_made p i host guest v \<and> w_vifs w' = (w_vifs w)(w_next_vif w := v))"
proof -
  from assms obtain v where v: "make_vif p (vm_name m) i host guest = Inr v"
    and 1: "m' = add_vif (w_next_vif w) m" "w_next_vif w' = Suc (w_next_vif w)"
    "w_vifs w' = (w_vifs w)(w_next_vif w := generate_vhost_user_if_option m v)"
    by (auto simp: add_one_vif_def new_vif_def add_vhost_user_if_def returns upd_vif_def)
  from v have "vif_made p i host guest v"
    by (auto simp: make_vif_def bindR_Inr_iff Let_def vif_made_def VhostUserInterface_def)
  then have "vif_made p i host guest (generate_vhost_user_if_option m v)"
    by (simp add: vif_made_def generate_vhost_user_if_option_def Let_def)
  with 1 show ?thesis by blast
qed

text \<open>A machine with its two new interfaces, and the store afterwards.\<close>

definition vm_made :: "vm_params \<Rightarrow> int list \<Rightarrow> int \<Rightarrow> int \<Rightarrow> world \<Rightarrow> world \<Rightarrow> vm \<Rightarrow> bool" where
  "vm_made p cpus host guest w w' m \<longleftrightarrow>
     vm_host_cpus m = cpus \<and> vm_mem_size m = MemKb (vp_mem_size p)
     \<and> vm_vifs m = [w_next_vif w, Suc (w_next_vif w)] \<and> w_next_vif w' = w_next_vif w + 2
     \<and> (\<exists>v0 v1. vif_made p 0 host guest v0 \<and> vif_made p 1 (host + 1) guest v1
          \<and> w_vifs w' = (w_vifs w)(w_next_vif w := v0, Suc (w_next_vif w) := v1))"

lemma ret_make_vm:
  assumes "make_vm env p cpus host guest w = (Inr m, w')"
  shows "vm_made p cpus host guest w w' m"
proof -
  have "[0..<VM_VIFS_NUM] = [0, 1]" by (simp add: VM_VIFS_NUM_def eval_nat_numeral)
  with assms obtain m0 m1 w1 w2 where 0: "VirtualMachine env (vm_name_of (vp_node_idx p) guest) guest (vp_mem_size p) cpus
      (vp_huge_mnt p) (vp_host p) (vp_test_root_dir p) (vp_native p) w = (Inr m0, w1)"
    and 1: "add_one_vif p m0 0 host guest w1 = (Inr m1, w2)"
    and 2: "add_one_vif p m1 1 (host + 1) guest w2 = (Inr m, w')"
    by (auto simp: make_vm_def returns)
  have m0: "vm_host_cpus m0 = cpus" "vm_mem_size m0 = MemKb (vp_mem_size p)" "vm_vifs m0 = []"
    and w: "w_vifs w1 = w_vifs w" "w_next_vif w1 = w_next_vif w"
    using ret_VirtualMachine [OF 0] by (simp_all add: new_vm_def Let_def)
  from ret_add_one_vif [OF 1] obtain v0 where 3: "m1 = add_vif (w_next_vif w) m0" "w_next_vif w2 = Suc (w_next_vif w)"
    "vif_made p 0 host guest v0" "w_vifs w2 = (w_vifs w)(w_next_vif w := v0)" by (auto simp: w)
  from ret_add_one_vif [OF 2] obtain v1 where 4: "m = add_vif (Suc (w_next_vif w)) m1" "w_next_vif w' = Suc (Suc (w_next_vif w))"
    "vif_made p 1 (host + 1) guest v1" "w_vifs w' = (w_vifs w2)(Suc (w_next_vif w) := v1)" by (auto simp: 3)
  show ?thesis
    unfolding vm_made_def using m0 3 4 by (intro conjI exI [of _ v0] exI [of _ v1]) (simp_all add: add_vif_def)
qed

text \<open>The machines \<open>ms\<close> made one after the other, from the numbers \<open>host\<close> and \<open>guest\<close> on.\<close>

definition vms_made :: "vm_params \<Rightarrow> vm list \<Rightarrow> int \<Rightarrow> int \<Rightarrow> world \<Rightarrow> world \<Rightarrow> bool" where
  "vms_made p ms host guest w w' \<longleftrightarrow>
     w_next_vif w' = w_next_vif w + 2 * length ms \<and> (\<forall>r < w_next_vif w. w_vifs w' r = w_vifs w r)
     \<and> (\<forall>g < length ms. vm_vifs (ms ! g) = [w_next_vif w + 2 * g, Suc (w_next_vif w + 2 * g)]
          \<and> (\<forall>i < 2. vif_made p (int i) (host + 2 * int g + int i) (guest + int g) (w_vifs w' (w_next_vif w + 2 * g + i))))"

lemma vms_made_Nil: "vms_made p [] host guest w w"
  by (simp add: vms_made_def)

lemma vms_made_one:
  assumes "vm_made p cpus host guest w w' m"
  shows "vms_made p [m] host guest w w'"
proof -
  from assms obtain v0 v1 where v: "vif_made p 0 host guest v0" "vif_made p 1 (host + 1) guest v1"
    "w_vifs w' = (w_vifs w)(w_next_vif w := v0, Suc (w_next_vif w) := v1)"
    "vm_vifs m = [w_next_vif w, Suc (w_next_vif w)]" "w_next_vif w' = w_next_vif w + 2"
    by (auto simp: vm_made_def)
  have "vif_made p (int i) (host + int i) guest (w_vifs w' (w_next_vif w + i))" if "i < 2" for i
    using v(1-3) that by (cases i) (auto simp: less_Suc_eq numeral_2_eq_2)
  with v(3-5) show ?thesis by (simp add: vms_made_def)
qed

lemma vms_made_append:
  assumes "vms_made p ms host guest w w1"
    and "vms_made p ns (host + 2 * int (length ms)) (guest + int (length ms)) w1 w2"
  shows "vms_made p (ms @ ns) host guest w w2"
proof -
  have "vm_vifs ((ms @ ns) ! g) = [w_next_vif w + 2 * g, Suc (w_next_vif w + 2 * g)]
      \<and> (\<forall>i < 2. vif_made p (int i) (host + 2 * int g + int i) (guest + int g) (w_vifs w2 (w_next_vif w + 2 * g + i)))"
    if g: "g < length (ms @ ns)" for g
  proof (cases "g < length ms")
    case True
    have "w_vifs w2 (w_next_vif w + 2 * g + i) = w_vifs w1 (w_next_vif w + 2 * g + i)" if "i < 2" for i
    proof -
      have "w_next_vif w + 2 * g + i < w_next_vif w1" using assms(1) True that by (simp add: vms_made_def)
      with assms(2) show ?thesis by (simp add: vms_made_def)
    qed
    with assms(1) True show ?thesis by (simp add: vms_made_def nth_append)
  next
    case False
    define j where "j = g - length ms"
    with False g have j: "g = length ms + j" "j < length ns" by auto
    have "vm_vifs (ns ! j) = [w_next_vif w1 + 2 * j, Suc (w_next_vif w1 + 2 * j)]"
      "\<forall>i < 2. vif_made p (int i) (host + 2 * int (length ms) + 2 * int j + int i) (guest + int (length ms) + int j)
        (w_vifs w2 (w_next_vif w1 + 2 * j + i))"
      using assms(2) j(2) by (simp_all add: vms_made_def)
    moreover have "w_next_vif w1 = w_next_vif w + 2 * length ms" using assms(1) by (simp add: vms_made_def)
    ultimately show ?thesis by (simp add: j(1) nth_append algebra_simps)
  qed
  moreover have "w_next_vif w2 = w_next_vif w + 2 * length (ms @ ns)" "\<forall>r < w_next_vif w. w_vifs w2 r = w_vifs w r"
    using assms by (simp_all add: vms_made_def)
  ultimately show ?thesis by (simp add: vms_made_def)
qed

section \<open>The share of the machines\<close>

text \<open>What the machines \<open>ms\<close> take from a node.\<close>

definition fills :: "vm_params \<Rightarrow> nat \<Rightarrow> numa \<Rightarrow> numa \<Rightarrow> vm list \<Rightarrow> bool" where
  "fills p n nu nu' ms \<longleftrightarrow> nu_vms nu' = nu_vms nu @ ms \<and> length ms \<le> n
     \<and> concat (map vm_host_cpus ms) @ nu_avail_cpus nu' = nu_avail_cpus nu
     \<and> nu_avail_mem nu' + int (length ms) * vp_mem_size p = nu_avail_mem nu
     \<and> (0 \<le> nu_avail_mem nu \<longrightarrow> 0 \<le> nu_avail_mem nu')
     \<and> (\<forall>m \<in> set ms. vm_mem_size m = MemKb (vp_mem_size p) \<and> length (vm_host_cpus m) = nat (vp_cpu_num p))"

lemma fills_none: "fills p n nu nu []"
  by (simp add: fills_def)

lemma ret_alloc_vms:
  "alloc_vms env p n nu host guest w = (Inr (nu', host', guest'), w') \<Longrightarrow>
   \<exists>ms. fills p n nu nu' ms \<and> vms_made p ms host guest w w'
     \<and> host' = host + 2 * int (length ms) \<and> guest' = guest + int (length ms)"
proof (induction n arbitrary: nu host guest w)
  case 0
  then show ?case using fills_none vms_made_Nil by (intro exI [of _ "[]"]) (simp add: returns)
next
  case (Suc n)
  show ?case
  proof (cases "nu_avail_mem nu < vp_mem_size p \<or> int (length (nu_avail_cpus nu)) < vp_cpu_num p")
    case True
    with Suc.prems show ?thesis
      using fills_none vms_made_Nil by (intro exI [of _ "[]"]) (auto simp: returns)
  next
    case False
    let ?k = "nat (vp_cpu_num p)"
    from False Suc.prems obtain m w1 where 1: "make_vm env p (take ?k (nu_avail_cpus nu)) host guest w = (Inr m, w1)"
      and 2: "alloc_vms env p n (nu\<lparr>nu_avail_mem := nu_avail_mem nu - vp_mem_size p, nu_avail_cpus := drop ?k (nu_avail_cpus nu),
        nu_vms := nu_vms nu @ [m]\<rparr>) (host + 2) (guest + 1) w1 = (Inr (nu', host', guest'), w')"
      by (auto simp: returns Let_def VM_VIFS_NUM_def)
    note m = ret_make_vm [OF 1]
    from Suc.IH [OF 2] obtain ms where ms: "fills p n (nu\<lparr>nu_avail_mem := nu_avail_mem nu - vp_mem_size p,
        nu_avail_cpus := drop ?k (nu_avail_cpus nu), nu_vms := nu_vms nu @ [m]\<rparr>) nu' ms"
      "vms_made p ms (host + 2) (guest + 1) w1 w'" "host' = host + 2 + 2 * int (length ms)" "guest' = guest + 1 + int (length ms)"
      by blast
    have "fills p (Suc n) nu nu' (m # ms)"
      using ms(1) m False by (auto simp: fills_def vm_made_def algebra_simps)
    moreover have "vms_made p (m # ms) host guest w w'"
      using vms_made_append [OF vms_made_one [OF m], of ms w'] ms(2) by simp
    ultimately show ?thesis using ms(3,4) by (intro exI [of _ "m # ms"]) simp
  qed
qed

lemma ret_alloc_all:
  "alloc_all env p nus host guest w = (Inr nus', w') \<Longrightarrow> \<forall>nu \<in> set nus. nu_vms nu = [] \<Longrightarrow>
   list_all2 (\<lambda>nu nu'. fills p MAX_VM_PER_NUMA nu nu' (nu_vms nu')) nus nus'
   \<and> vms_made p (concat (map nu_vms nus')) host guest w w'"
proof (induction nus arbitrary: host guest w nus')
  case Nil
  then show ?case by (simp add: returns vms_made_Nil)
next
  case (Cons nu nus)
  from Cons.prems(1) obtain nu1 host1 guest1 w1 nus1 where
    1: "(if nu_avail_mem nu = 0 then retE (nu, host, guest)
            else alloc_vms env p MAX_VM_PER_NUMA nu host guest) w = (Inr (nu1, host1, guest1), w1)"
    and 2: "alloc_all env p nus host1 guest1 w1 = (Inr nus1, w')" and n: "nus' = nu1 # nus1"
    by (auto simp: returns)
  from 1 obtain ms where ms: "fills p MAX_VM_PER_NUMA nu nu1 ms" "vms_made p ms host guest w w1"
    "host1 = host + 2 * int (length ms)" "guest1 = guest + int (length ms)"
  proof (cases "nu_avail_mem nu = 0")
    case True
    with 1 have "nu1 = nu" "host1 = host" "guest1 = guest" "w1 = w" by (simp_all add: returns)
    with that [of "[]"] fills_none vms_made_Nil show thesis by simp
  next
    case False
    with 1 have "alloc_vms env p MAX_VM_PER_NUMA nu host guest w = (Inr (nu1, host1, guest1), w1)" by simp
    from ret_alloc_vms [OF this] that show thesis by blast
  qed
  have "nu_vms nu1 = ms" using ms(1) Cons.prems(2) by (simp add: fills_def)
  with Cons.IH [OF 2] Cons.prems(2) ms vms_made_append [OF ms(2)] show ?case by (simp add: n)
qed

lemma fills_takes:
  assumes "list_all2 (\<lambda>nu nu'. fills p n nu nu' (nu_vms nu')) nus nus'"
  shows "mset (concat (map vm_host_cpus (concat (map nu_vms nus'))) @ all_avail nus') = mset (all_avail nus)"
  using assms
proof (induction rule: list_all2_induct)
  case (Cons nu nus nu' nus')
  from Cons.hyps(1) have "mset (nu_avail_cpus nu) = mset (concat (map vm_host_cpus (nu_vms nu'))) + mset (nu_avail_cpus nu')"
    by (simp add: fills_def flip: mset_append)
  with Cons.IH show ?case by (simp add: ac_simps)
qed simp

end
