(* ===== verification/Testbed_Frames.thy ===== *)
theory Testbed_Frames imports Testbed_Facts begin

text \<open>
  Setting up a system touches the store of virtual interfaces only where it makes machines: every other phase
  leaves the store as it is, so the interfaces of the systems set up before stay as they are.
\<close>

section \<open>Phases that leave the store alone\<close>

definition vif_view :: "world \<Rightarrow> (nat \<Rightarrow> vif) \<times> nat" where
  "vif_view w = (w_vifs w, w_next_vif w)"

lemma view_exec_cmd [frame]: "frameE vif_view (exec_cmd env nd cmd t sudo d)"
  unfolding frameE_iff vif_view_def by (rule allI, rule vif_store.keeps_exec_cmd)

lemma view_kill [frame]: "frameE vif_view (kill_process env n p)"
  unfolding frameE_iff vif_view_def by (rule allI, rule vif_store.keeps_kill_process)

lemma view_log [frame]: "frameE vif_view (logE l msg)"
  unfolding logE_def by (rule frame) (simp add: vif_view_def)

lemmas log_defs = logX_def logW_def sys_exit_def

lemma view_sut_cmd [frame]: "frameE vif_view (sut_cmd env n cmd)"
  unfolding sut_cmd_def by (rule frame)

lemma view_read_number [frame]: "frameE vif_view msg \<Longrightarrow> frameE vif_view (read_number msg out)"
  unfolding read_number_def log_defs by (auto intro!: frame split: sum.splits)

lemma view_read_numa [frame]: "frameE vif_view (read_numa env n h i)"
  unfolding read_numa_def Let_def log_defs by (auto intro!: frame split: prod.splits)

lemma view_read_numas [frame]: "frameE vif_view (read_numas env n mnt h)"
  unfolding read_numas_def Let_def by (intro frame)

lemma view_read_pnic [frame]: "frameE vif_view (read_pnic_numa env n specs pnic)"
  by (induction specs arbitrary: pnic) (auto simp: log_defs intro!: frame)

lemma view_find_root [frame]: "frameE vif_view (find_root_dir env n dir)"
  unfolding find_root_dir_def by (auto intro!: frame split: option.splits list.splits)

lemma view_take_cores [frame]: "frameE vif_view (take_cores a b pnic nu m)"
  unfolding take_cores_def Let_def log_defs by (intro frame)

lemma view_take_all_cores [frame]: "frameE vif_view (take_all_cores a b pnic nus m)"
  by (induction nus arbitrary: m) (auto intro!: frame split: prod.splits)

lemma view_make_datapath [frame]: "frameE vif_view (make_datapath spec t mnt h pnic nus)"
  unfolding make_datapath_def dpdk_share_def take_socket_mem_def log_defs by (auto intro!: frame split: prod.splits)

section \<open>Starting and stopping a switch\<close>

abbreviation vs_view :: "vswitch \<times> world \<Rightarrow> (nat \<Rightarrow> vif) \<times> nat" where
  "vs_view \<equiv> \<lambda>s. vif_view (snd s)"

lemma view_on_snd [frame]: "frameE vif_view m \<Longrightarrow> frameE vs_view (on_snd m)"
  by (rule frame_on_snd) simp

lemma view_on_fst [frame]: "frameE vs_view (on_fst m)"
  by (auto simp: frameE_def on_fst_def split: prod.splits)

lemma view_vs_execute [frame]: "frameE vs_view (vs_execute env cmd t)"
  unfolding vs_execute_def by (auto intro!: frame split: option.splits prod.splits)

lemma view_vs_execute_host [frame]: "frameE vs_view (vs_execute_host env cmd t f)"
  unfolding vs_execute_host_def Let_def by (intro frame)

lemma view_vs_host [frame]: "frameE vs_view (vs_host env cmd)" "frameE vs_view (vs_run_host env cmd)"
  unfolding vs_run_host_def vs_host_def by (intro frame)+

lemma view_vs_batch [frame]:
  "frameE vs_view (vs_execute_batch env cmds t)" "frameE vs_view (vs_execute_host_batch env cmds t)"
  unfolding vs_execute_batch_def vs_execute_host_batch_def by (intro frame)+

lemma view_stop [frame]: "frameE vs_view (stop_vswitch env)"
  unfolding stop_vswitch_def vs_kill_process_def by (intro frame)

lemma view_devbind [frame]: "frameE vs_view (devbind_status env)"
  unfolding devbind_status_def by (intro frame)

lemma view_start [frame]: "frameE vs_view (start_vswitch env g)"
  unfolding start_vswitch_def start_vswitch_dpdk_def start_vswitch_native_def Let_def
  by (intro frame; auto split: vs_kind.splits option.splits intro!: frame)

lemma view_run_switch [frame]: "frameE vs_view m \<Longrightarrow> frameE vif_view (run_switch m vs)"
  unfolding frameE_def run_switch_def by (auto split: prod.splits sum.splits) (metis snd_conv)+

end
