(* ===== verification/Testbed_Props.thy ===== *)
theory Testbed_Props imports Testbed_Frames begin

text \<open>
  What the constructor of a system guarantees: processors are shared out without overlap, the machines stay
  within the memory and processors of their NUMA node, and the interfaces are numbered and addressed by their
  machine and their position.
\<close>

section \<open>The constructor in phases\<close>

lemma SUT_phases:
  assumes "SUT env g name spec w = (Inr s, w')"
  obtains n h nus0 nus1 p w1 w2 w3 w4 i root where
    "hugepage_kb spec = Inr h"
    "read_numas env n (get_or (ns_huge_mnt spec) HUGE_MNT) h w = (Inr (su_cpuinfo s, nus0), w1)"
    "make_datapath spec (get_or (ns_dp_type spec) ''ovs-dpdk'') (get_or (ns_huge_mnt spec) HUGE_MNT) h
       (su_pnic_numa_id s) nus0 w2 = (Inr (nus1, vs_kind (su_vswitch s)), w3)"
    "node_id spec = Inr i"
    "make_vm_params spec n i h (get_or (ns_huge_mnt spec) HUGE_MNT) root (path_join root ''temp'')
       (vs_kind (su_vswitch s) = OvsNative) = Inr p"
    "alloc_all env p nus1 1 1 w4 = (Inr (su_numas s), w')" "su_vms s = []" "vif_view w4 = vif_view w"
proof -
  from assms obtain n h cpuinfo nus0 nus1 kind p pnic root x y i tep vs0 vs1 vs2 nus2 w1 w2 w3 w4 w5 w6 w7 w8 where 1:
    "hugepage_kb spec = Inr h"
    "read_numas env n (get_or (ns_huge_mnt spec) HUGE_MNT) h w = (Inr (cpuinfo, nus0), w1)"
    "node_id spec = Inr i"
    "make_datapath spec (get_or (ns_dp_type spec) ''ovs-dpdk'') (get_or (ns_huge_mnt spec) HUGE_MNT) h pnic nus0 w2
       = (Inr (nus1, kind), w3)"
    "VirtualSwitch kind n (ns_interfaces spec) tep (path_join root (fmt [''bin/'', get_or (ns_dp_type spec) ''ovs-dpdk'', ''/'']))
       (path_join root ''bin/'') = Inr vs0"
    "run_switch (stop_vswitch env) vs0 w3 = (Inr vs1, w5)" "run_switch (start_vswitch env g) vs1 w5 = (Inr vs2, w4)"
    "make_vm_params spec n i h (get_or (ns_huge_mnt spec) HUGE_MNT) root (path_join root ''temp'') (kind = OvsNative) = Inr p"
    "alloc_all env p nus1 1 1 w4 = (Inr nus2, w')"
    "s = \<lparr>su_name = name, su_ssh_info = n, su_numas = nus2, su_pnic_numa_id = pnic, su_vswitch = vs2,
           su_vms = [], su_cpuinfo = cpuinfo\<rparr>"
    and 2: "read_pnic_numa env n (ns_interfaces spec) None w1 = (Inr pnic, w6)"
    "find_root_dir env n (ns_test_root_dir spec) w6 = (Inr root, w7)"
    "sut_cmd env n (fmt [''rm -rf '', path_join root ''temp'']) w7 = (Inr x, w8)"
    "sut_cmd env n (fmt [''mkdir -p '', path_join root ''temp'']) w8 = (Inr y, w2)"
    unfolding SUT_def Let_def
    by (simp only: returns split_paired_Ex prod.case) (elim exE conjE; hypsubst; rule that; (assumption | rule refl))
  have "vs_kind vs0 = kind" using 1(5) by (auto simp: VirtualSwitch_def bindR_Inr_iff)
  then have k: "vs_kind vs2 = kind"
    using ret_run_switch [OF 1(6) keeps_kind_stop] ret_run_switch [OF 1(7) keeps_kind_start] by simp
  have "vif_view w4 = vif_view w"
    using frameE_D [OF view_read_numas 1(2)] frameE_D [OF view_read_pnic 2(1)] frameE_D [OF view_find_root 2(2)]
      frameE_D [OF view_sut_cmd 2(3)] frameE_D [OF view_sut_cmd 2(4)] frameE_D [OF view_make_datapath 1(4)]
      frameE_D [OF view_run_switch [OF view_stop] 1(6)] frameE_D [OF view_run_switch [OF view_start] 1(7)] by simp
  with 1 k that show thesis by simp
qed

text \<open>The machines a system ends up with, made from the interface store that the constructor started with.\<close>

lemma SUT_made:
  assumes "SUT env g name spec w = (Inr s, w')" "node_id spec = Inr node"
  obtains p where "vms_made p (get_vms s) 1 1 w w'" "vp_node_idx p = node"
proof -
  from assms obtain n h nus0 nus1 p w1 w2 w3 w4 root where
    1: "read_numas env n (get_or (ns_huge_mnt spec) HUGE_MNT) h w = (Inr (su_cpuinfo s, nus0), w1)"
    and 2: "make_datapath spec (get_or (ns_dp_type spec) ''ovs-dpdk'') (get_or (ns_huge_mnt spec) HUGE_MNT) h
       (su_pnic_numa_id s) nus0 w2 = (Inr (nus1, vs_kind (su_vswitch s)), w3)"
    and p: "make_vm_params spec n node h (get_or (ns_huge_mnt spec) HUGE_MNT) root (path_join root ''temp'')
       (vs_kind (su_vswitch s) = OvsNative) = Inr p"
    and 3: "alloc_all env p nus1 1 1 w4 = (Inr (su_numas s), w')" and v: "vif_view w4 = vif_view w"
    by (auto elim: SUT_phases)
  from ret_make_datapath [OF 2] obtain cs where "takes_cpus cs nus0 nus1" by blast
  with ret_read_numas [OF 1] have "\<forall>nu \<in> set nus1. nu_vms nu = []" by (auto simp: takes_cpus_def)
  from conjunct2 [OF ret_alloc_all [OF 3 this]] v have "vms_made p (get_vms s) 1 1 w w'"
    by (simp add: get_vms_def vms_made_def vif_view_def)
  moreover have "vp_node_idx p = node" using p by (auto simp: make_vm_params_def bindR_Inr_iff)
  ultimately show thesis by (rule that)
qed

abbreviation vm_cpus :: "sut \<Rightarrow> int list" where
  "vm_cpus s \<equiv> concat (map vm_host_cpus (get_vms s))"

lemma bit_free: "distinct (xs @ cs) \<Longrightarrow> c \<in> set xs \<Longrightarrow> 0 \<le> c \<Longrightarrow> \<forall>d \<in> set cs. 0 \<le> d \<Longrightarrow> nat c \<notin> nat ` set cs"
  by (auto simp: nat_eq_iff2 disjoint_iff)

section \<open>A host with one NUMA node\<close>

text \<open>
  Six processors and eight free huge pages of one gigabyte.  The switch takes the first processor after 0 and
  one page; two machines get the next two processors.
\<close>

definition cpu_text :: string where
  "cpu_text = ''# CPU,Core,Socket,Node'' @ nl # ''0,0,0,0'' @ nl # ''1,1,0,0'' @ nl # ''2,2,0,0'' @ nl # ''3,3,0,0'' @ nl
     # ''4,4,0,0'' @ nl # ''5,5,0,0'' @ [nl]"

definition host_env :: ssh_env where
  "host_env = echo_env (\<lambda>c. if c = wire True (CmdStr ''lscpu -p'') then (0, cpu_text) else (0, ''8''))"

definition spec1 :: node_spec where
  "spec1 = \<lparr>ns_type = Some ''SUT'', ns_id = Some (PInt 1), ns_host = Some ''h1'', ns_port = Some 22,
     ns_username = Some ''cne'', ns_password = Some ''cne'', ns_huge_mnt = None, ns_userspace_tso = None,
     ns_hugepage_size = None, ns_test_root_dir = Some ''/root/TEST_ROOT/'', ns_dp_type = None,
     ns_pnic_numa_cpu_num = None, ns_norm_numa_cpu_num = None, ns_driver = None, ns_vm_mem_size = None,
     ns_vm_cpu_num = None, ns_vhost_client_mode = None, ns_interfaces = []\<rparr>"

lemma cpu_text_parsed: "parse_cpuinfo cpu_text = [[0,0,0,0],[1,1,0,0],[2,2,0,0],[3,3,0,0],[4,4,0,0],[5,5,0,0]]"
  by code_simp

lemma host_reads: "py_int ''8'' = Inr 8" "strip ''8'' = ''8''"
  by code_simp+

lemma node1: "Node_ssh_info spec1 = Inr node_h1"
  by (simp add: Node_ssh_info_def spec1_def item_def node_h1_def)

lemma host_numas:
  "\<exists>w'. read_numas host_env node_h1 mnt 1048576 w
     = (Inr ([[0,0,0,0],[1,1,0,0],[2,2,0,0],[3,3,0,0],[4,4,0,0],[5,5,0,0]],
          [\<lparr>nu_id = 0, nu_avail_cpus = [1,2,3,4,5], nu_avail_mem = 8388608, nu_vms = []\<rparr>]), w')"
proof -
  let ?ci = "[[0,0,0,0],[1,1,0,0],[2,2,0,0],[3,3,0,0],[4,4,0,0],[5,5,0,0]] :: int list list"
  have n: "numa_count ?ci = Inr 1" by code_simp
  have a: "bindR (foldR add_cpu ?ci [(Numa 0)\<lparr>nu_avail_mem := 8388608\<rparr>]) drop_core0
     = Inr [\<lparr>nu_id = 0, nu_avail_cpus = [1,2,3,4,5], nu_avail_mem = 8388608, nu_vms = []\<rparr>]" by code_simp
  have r: "\<exists>w'. read_numa host_env node_h1 1048576 0 w = (Inr [(Numa 0)\<lparr>nu_avail_mem := 8388608\<rparr>], w')" for w
    by (simp add: read_numa_def host_env_def sut_cmd_def em_simps attr_of_def fmt_def host_reads read_number_def wire_def
        sudo_cmd_def Let_def)
  from r obtain nx where "\<And>w. read_numa host_env node_h1 1048576 0 w = (Inr [(Numa 0)\<lparr>nu_avail_mem := 8388608\<rparr>], nx w)"
    by metis
  then show ?thesis
    using a by (simp add: read_numas_def host_env_def sut_cmd_def em_simps attr_of_def out_of_def fmt_def cpu_text_parsed n Let_def
      del: foldR.simps)
qed

abbreviation params1 :: dpdk_params where
  "params1 \<equiv> \<lparr>dp_driver = ''vfio-pci'', dp_socket_mem = ''1024'', dp_huge_mnt = HUGE_MNT, dp_cpu_mask = ''0x2'',
     dp_userspace_tso = PBool True\<rparr>"

lemma host_share:
  "make_datapath spec1 ''ovs-dpdk'' HUGE_MNT 1048576 None
     [\<lparr>nu_id = 0, nu_avail_cpus = [1,2,3,4,5], nu_avail_mem = 8388608, nu_vms = []\<rparr>] w
   = (Inr ([\<lparr>nu_id = 0, nu_avail_cpus = [2,3,4,5], nu_avail_mem = 7340032, nu_vms = []\<rparr>], OvsDpdk params1), w)"
proof -
  have m: "socket_mem_str [1048576] = ''1024''" by code_simp
  have c: "mask_cpus [1] 0 = Inr 2" by code_simp
  have x: "py_hex 2 = ''0x2''" by code_simp
  show ?thesis
    by (simp add: make_datapath_def dpdk_share_def em_simps take_socket_mem_def OVSDPDK_MEM_PER_SOCKET_def
      take_cores_def int_opt_def get_or_def spec1_def OVSDPDK_PNIC_NUMA_CPU_NUM_def OVSDPDK_NORM_NUMA_CPU_NUM_def m c x
      del: mask_cpus.simps)
qed

lemma switch_runs:
  assumes "vs_kind vs = OvsDpdk ps" "vs_uplinks vs = []"
  shows "\<exists>w'. run_switch (stop_vswitch host_env) vs w = (Inr vs, w')"
    and "\<exists>vs' w'. run_switch (start_vswitch host_env (PBool False)) vs w = (Inr vs', w')"
  subgoal by (simp add: run_switch_def stop_vswitch_def vs_kill_process_def host_env_def em_simps)
  subgoal
    using assms by (simp add: run_switch_def start_vswitch_def start_vswitch_dpdk_def em_simps vs_run_host_def host_env_def
      vs_host_def clean_cmds_def fmt_def Let_def host_reads wire_def sudo_cmd_def)
  done

lemma vm_runs:
  assumes "0 \<le> i" "i \<le> 200" "vp_node_idx p = 1"
  shows "\<exists>m w'. make_vm host_env p cpus k i w = (Inr m, w')"
proof -
  obtain m w1 where 1: "VirtualMachine host_env (vm_name_of (vp_node_idx p) i) i (vp_mem_size p) cpus (vp_huge_mnt p)
      (vp_host p) (vp_test_root_dir p) (vp_native p) w = (Inr m, w1)"
    by (simp add: VirtualMachine_def guest_run_host_def guest_execute_host_def exec_triple_def em_simps host_env_def wire_def
      sudo_cmd_def fmt_def Let_def)
  have 2: "\<exists>m' w'. add_vifs p k i js m w = (Inr m', w')" if "\<forall>j \<in> set js. j < 2" for js m w
    using that
  proof (induction js arbitrary: m w)
    case (Cons j js)
    have "\<exists>v. make_vif p (vm_name m) (int j) (k + int j) i = Inr v"
      using Cons.prems assms by (auto simp: make_vif_def vif_address_def ipv4_of_octets_def Let_def)
    with Cons show ?case
      by (auto simp: add_one_vif_def em_simps new_vif_def add_vhost_user_if_def upd_vif_def Let_def)
  qed (simp add: em_simps)
  show ?thesis using 2 [of "[0..<VM_VIFS_NUM]" m w1] by (simp add: make_vm_def em_bind 1 VM_VIFS_NUM_def)
qed

lemma vms_run:
  assumes "vp_node_idx p = 1" "vp_mem_size p = 1048576" "vp_cpu_num p = 1"
  shows "\<exists>m1 m2 w'. alloc_all host_env p [\<lparr>nu_id = 0, nu_avail_cpus = [2,3,4,5], nu_avail_mem = 7340032, nu_vms = []\<rparr>] 1 1 w
      = (Inr [\<lparr>nu_id = 0, nu_avail_cpus = [4,5], nu_avail_mem = 5242880, nu_vms = [m1, m2]\<rparr>], w')
    \<and> vm_host_cpus m1 = [2] \<and> vm_host_cpus m2 = [3]"
proof -
  obtain m1 w1 where 1: "make_vm host_env p [2] 1 1 w = (Inr m1, w1)"
    using vm_runs [of 1 p "[2]" 1 w] assms(1) by auto
  obtain m2 w2 where 2: "make_vm host_env p [3] 3 2 w1 = (Inr m2, w2)"
    using vm_runs [of 2 p "[3]" 3 w1] assms(1) by auto
  have n: "MAX_VM_PER_NUMA = Suc (Suc 0)" by (simp add: MAX_VM_PER_NUMA_def)
  have "alloc_all host_env p [\<lparr>nu_id = 0, nu_avail_cpus = [2,3,4,5], nu_avail_mem = 7340032, nu_vms = []\<rparr>] 1 1 w
      = (Inr [\<lparr>nu_id = 0, nu_avail_cpus = [4,5], nu_avail_mem = 5242880, nu_vms = [m1, m2]\<rparr>], w2)"
    by (simp add: em_simps assms 1 2 VM_VIFS_NUM_def n)
  moreover have "vm_host_cpus m1 = [2]" "vm_host_cpus m2 = [3]"
    using ret_make_vm [OF 1] ret_make_vm [OF 2] by (simp_all add: vm_made_def)
  ultimately show ?thesis by blast
qed

lemma SUT_runs:
  "\<exists>s w'. SUT host_env (PBool False) ''sut1'' spec1 world0 = (Inr s, w') \<and> vm_cpus s = [2, 3] \<and> length (get_vms s) = 2
     \<and> cpu_ids (su_cpuinfo s) = [0,1,2,3,4,5] \<and> vs_kind (su_vswitch s) = OvsDpdk params1"
proof -
  obtain w1 where 1: "read_numas host_env node_h1 HUGE_MNT 1048576 world0
     = (Inr ([[0,0,0,0],[1,1,0,0],[2,2,0,0],[3,3,0,0],[4,4,0,0],[5,5,0,0]],
          [\<lparr>nu_id = 0, nu_avail_cpus = [1,2,3,4,5], nu_avail_mem = 8388608, nu_vms = []\<rparr>]), w1)"
    using host_numas by blast
  obtain x2 w2 where 2: "sut_cmd host_env node_h1 (fmt [''rm -rf '', path_join ''/root/TEST_ROOT/'' ''temp'']) w1 = (Inr x2, w2)"
    by (simp add: sut_cmd_def host_env_def fmt_def)
  obtain x3 w3 where 3: "sut_cmd host_env node_h1 (fmt [''mkdir -p '', path_join ''/root/TEST_ROOT/'' ''temp'']) w2 = (Inr x3, w3)"
    by (simp add: sut_cmd_def host_env_def fmt_def)
  obtain tep where tep: "tep_address 1 = Inr tep"
  proof -
    have "tep_address 1 \<noteq> Inl IndexError" by code_simp
    then show thesis using that by (auto simp: tep_address_def hosts_nth_def bindR_def Let_def split: sum.splits if_splits)
  qed
  have spec: "ns_interfaces spec1 = []" "ns_test_root_dir spec1 = Some ''/root/TEST_ROOT/''" "ns_huge_mnt spec1 = None"
    "ns_dp_type spec1 = None" by (simp_all add: spec1_def)
  obtain vs where vs: "VirtualSwitch (OvsDpdk params1) node_h1 [] tep (path_join ''/root/TEST_ROOT/'' (fmt [''bin/'', ''ovs-dpdk'', ''/'']))
      (path_join ''/root/TEST_ROOT/'' ''bin/'') = Inr vs" "vs_kind vs = OvsDpdk params1" "vs_uplinks vs = []"
    by (simp add: VirtualSwitch_def sort_key_def)
  obtain w4 where 4: "run_switch (stop_vswitch host_env) vs w3 = (Inr vs, w4)" using switch_runs(1) [OF vs(2,3), of w3] by blast
  obtain vs5 w5 where 5: "run_switch (start_vswitch host_env (PBool False)) vs w4 = (Inr vs5, w5)"
    using switch_runs(2) [OF vs(2,3), of w4] by blast
  have k: "vs_kind vs5 = OvsDpdk params1" by (rule ret_run_switch [OF 5 keeps_kind_start vs(2)])
  obtain p where p: "make_vm_params spec1 node_h1 1 1048576 HUGE_MNT ''/root/TEST_ROOT/'' (path_join ''/root/TEST_ROOT/'' ''temp'') False = Inr p"
    "vp_node_idx p = 1" "vp_mem_size p = 1048576" "vp_cpu_num p = 1"
    by (simp add: make_vm_params_def int_opt_def get_or_def spec1_def VM_MEM_SIZE_def VM_CPU_NUM_def)
  obtain m1 m2 w6 where 6: "alloc_all host_env p [\<lparr>nu_id = 0, nu_avail_cpus = [2,3,4,5], nu_avail_mem = 7340032, nu_vms = []\<rparr>] 1 1 w5
      = (Inr [\<lparr>nu_id = 0, nu_avail_cpus = [4,5], nu_avail_mem = 5242880, nu_vms = [m1, m2]\<rparr>], w6)"
    "vm_host_cpus m1 = [2]" "vm_host_cpus m2 = [3]"
    using vms_run [OF p(2-4), of w5] by blast
  have g: "get_or None d = d" "get_or (Some d') d = d'" for d d' :: string by (simp_all add: get_or_def)
  have "hugepage_kb spec1 = Inr 1048576" "node_id spec1 = Inr 1"
    by (simp_all add: hugepage_kb_def int_opt_def get_or_def spec1_def HUGEPAGE_SIZE_def node_id_def item_def)
  then have "SUT host_env (PBool False) ''sut1'' spec1 world0 = (Inr \<lparr>su_name = ''sut1'', su_ssh_info = node_h1,
      su_numas = [\<lparr>nu_id = 0, nu_avail_cpus = [4,5], nu_avail_mem = 5242880, nu_vms = [m1, m2]\<rparr>], su_pnic_numa_id = None,
      su_vswitch = vs5, su_vms = [], su_cpuinfo = [[0,0,0,0],[1,1,0,0],[2,2,0,0],[3,3,0,0],[4,4,0,0],[5,5,0,0]]\<rparr>, w6)"
    unfolding SUT_def Let_def
    by (simp only: em_bind em_lift em_then em_ret prod.case sum.case node1 spec g 1 2 3 tep host_share vs(1) 4 5 p(1) 6(1)
      read_pnic_numa.simps find_root_dir_def option.case list.case vs_kind.distinct)
  then show ?thesis using k 6(2,3) by (simp add: get_vms_def)
qed

section \<open>Properties\<close>

text \<open>
  C16 When the host lists each of its processors once, the processors of the machines of a system are all
  different, are processors of the host other than processor 0, and none of them is in the mask of the
  processors that OVS-DPDK polls with.
\<close>

theorem cpus_shared_out:
  assumes "SUT env g name spec w = (Inr s, w')" and "distinct (cpu_ids (su_cpuinfo s))"
  shows "distinct (vm_cpus s) \<and> 0 \<notin> set (vm_cpus s) \<and> set (vm_cpus s) \<subseteq> set (cpu_ids (su_cpuinfo s))
     \<and> (\<forall>ps. vs_kind (su_vswitch s) = OvsDpdk ps \<longrightarrow>
          (\<exists>m. dp_cpu_mask ps = py_hex m \<and> (\<forall>c \<in> set (vm_cpus s). 0 \<le> c \<longrightarrow> \<not> bit m (nat c))))"
proof -
  from assms(1) obtain n h nus0 nus1 p w1 w2 w3 w4 i root where
    1: "read_numas env n (get_or (ns_huge_mnt spec) HUGE_MNT) h w = (Inr (su_cpuinfo s, nus0), w1)"
    and 2: "make_datapath spec (get_or (ns_dp_type spec) ''ovs-dpdk'') (get_or (ns_huge_mnt spec) HUGE_MNT) h
       (su_pnic_numa_id s) nus0 w2 = (Inr (nus1, vs_kind (su_vswitch s)), w3)"
    and 3: "alloc_all env p nus1 1 1 w4 = (Inr (su_numas s), w')"
    by (rule SUT_phases)
  note r = ret_read_numas [OF 1]
  from ret_make_datapath [OF 2] obtain cs where cs: "takes_cpus cs nus0 nus1" "\<forall>c \<in> set cs. 0 \<le> c"
    "\<forall>ps. vs_kind (su_vswitch s) = OvsDpdk ps \<longrightarrow> (\<exists>m. dp_cpu_mask ps = py_hex m \<and> (\<forall>k. bit m k \<longleftrightarrow> k \<in> nat ` set cs))"
    by blast
  from r cs(1) have "\<forall>nu \<in> set nus1. nu_vms nu = []" by (auto simp: takes_cpus_def)
  from fills_takes [OF conjunct1 [OF ret_alloc_all [OF 3 this]]]
  have "mset (vm_cpus s @ all_avail (su_numas s)) = mset (all_avail nus1)" by (simp add: get_vms_def)
  with r cs(1) have all: "mset (vm_cpus s @ all_avail (su_numas s) @ cs @ [0]) = mset (cpu_ids (su_cpuinfo s))"
    by (simp add: takes_cpus_def ac_simps)
  then have d: "distinct (vm_cpus s @ all_avail (su_numas s) @ cs @ [0])"
    using assms(2) mset_eq_imp_distinct_iff by blast
  then have free: "c \<in> set (vm_cpus s) \<Longrightarrow> 0 \<le> c \<Longrightarrow> nat c \<notin> nat ` set cs" for c
    using cs(2) by (intro bit_free [where xs = "vm_cpus s"]) auto
  show ?thesis
  proof (intro conjI allI impI)
    show "distinct (vm_cpus s)" using d by (simp only: distinct_append)
    show "0 \<notin> set (vm_cpus s)" using d by auto
    show "set (vm_cpus s) \<subseteq> set (cpu_ids (su_cpuinfo s))" using mset_eq_setD [OF all] by auto
    fix ps
    assume "vs_kind (su_vswitch s) = OvsDpdk ps"
    with cs(3) obtain m where m: "dp_cpu_mask ps = py_hex m" "\<And>k. bit m k \<longleftrightarrow> k \<in> nat ` set cs" by blast
    with free show "\<exists>m. dp_cpu_mask ps = py_hex m \<and> (\<forall>c \<in> set (vm_cpus s). 0 \<le> c \<longrightarrow> \<not> bit m (nat c))"
      by (intro exI [of _ m]) (simp only: m(2), blast)
  qed
qed

theorem cpus_shared_out_witness:
  "\<exists>s w'. SUT host_env (PBool False) ''sut1'' spec1 world0 = (Inr s, w') \<and> vm_cpus s = [2, 3]
     \<and> 0 \<notin> set (vm_cpus s) \<and> (\<exists>m. ''0x2'' = py_hex m \<and> \<not> bit m 2 \<and> \<not> bit m 3)"
proof -
  obtain s w' where s: "SUT host_env (PBool False) ''sut1'' spec1 world0 = (Inr s, w')" "vm_cpus s = [2, 3]"
    "cpu_ids (su_cpuinfo s) = [0,1,2,3,4,5]" "vs_kind (su_vswitch s) = OvsDpdk params1"
    using SUT_runs by (elim exE conjE) (rule that)
  from s(3) have "distinct (cpu_ids (su_cpuinfo s))" by simp
  note c = cpus_shared_out [OF s(1) this]
  from c s(4) obtain m where "''0x2'' = py_hex m" "\<forall>c \<in> set (vm_cpus s). 0 \<le> c \<longrightarrow> \<not> bit m (nat c)" by auto
  then have "\<exists>m. ''0x2'' = py_hex m \<and> \<not> bit m 2 \<and> \<not> bit m 3" unfolding s(2) by auto
  with c s(1,2) show ?thesis by blast
qed

text \<open>
  C18 A system has at most two machines on a NUMA node, each with the configured number of processors and the larger
  of the configured memory and a huge page, and the memory of the node is never overdrawn.
\<close>

theorem machines_within_bounds:
  assumes "SUT env g name spec w = (Inr s, w')" and "hugepage_kb spec = Inr h" and "0 \<le> h"
    and "int_opt (ns_vm_mem_size spec) VM_MEM_SIZE = Inr mem" and "int_opt (ns_vm_cpu_num spec) VM_CPU_NUM = Inr c"
  shows "\<forall>nu \<in> set (su_numas s). length (nu_vms nu) \<le> MAX_VM_PER_NUMA \<and> 0 \<le> nu_avail_mem nu
     \<and> (\<forall>m \<in> set (nu_vms nu). vm_mem_size m = MemKb (max (mem * 1024) h) \<and> length (vm_host_cpus m) = nat c)"
proof -
  from assms(1) obtain n nus0 nus1 p w1 w2 w3 w4 i root where
    1: "read_numas env n (get_or (ns_huge_mnt spec) HUGE_MNT) h w = (Inr (su_cpuinfo s, nus0), w1)"
    and 2: "make_datapath spec (get_or (ns_dp_type spec) ''ovs-dpdk'') (get_or (ns_huge_mnt spec) HUGE_MNT) h
       (su_pnic_numa_id s) nus0 w2 = (Inr (nus1, vs_kind (su_vswitch s)), w3)"
    and p: "make_vm_params spec n i h (get_or (ns_huge_mnt spec) HUGE_MNT) root (path_join root ''temp'')
       (vs_kind (su_vswitch s) = OvsNative) = Inr p"
    and 3: "alloc_all env p nus1 1 1 w4 = (Inr (su_numas s), w')"
    using assms(2) by (auto elim: SUT_phases)
  note r = ret_read_numas [OF 1]
  from ret_make_datapath [OF 2] obtain cs where "takes_cpus cs nus0 nus1" by blast
  with r assms(3) have n: "\<forall>nu \<in> set nus1. nu_vms nu = []" "\<forall>nu \<in> set nus1. 0 \<le> nu_avail_mem nu"
    by (auto simp: takes_cpus_def)
  have vp: "vp_mem_size p = max (mem * 1024) h" "vp_cpu_num p = c"
    using p assms(4,5) by (auto simp: make_vm_params_def)
  have "length (nu_vms nu) \<le> MAX_VM_PER_NUMA \<and> 0 \<le> nu_avail_mem nu
     \<and> (\<forall>m \<in> set (nu_vms nu). vm_mem_size m = MemKb (max (mem * 1024) h) \<and> length (vm_host_cpus m) = nat c)"
    if "nu \<in> set (su_numas s)" for nu
  proof -
    from that obtain k where k: "k < length (su_numas s)" "nu = su_numas s ! k" by (auto simp: in_set_conv_nth)
    note f = conjunct1 [OF ret_alloc_all [OF 3 n(1)]]
    with k have "k < length nus1" by (simp add: list_all2_lengthD)
    with list_all2_nthD [OF f this] k n(2) vp show ?thesis by (auto simp: fills_def)
  qed
  then show ?thesis by blast
qed

theorem machines_within_bounds_witness:
  "\<exists>s w'. SUT host_env (PBool False) ''sut1'' spec1 world0 = (Inr s, w')
     \<and> (\<forall>nu \<in> set (su_numas s). length (nu_vms nu) \<le> 2 \<and> 0 \<le> nu_avail_mem nu
          \<and> (\<forall>m \<in> set (nu_vms nu). vm_mem_size m = MemKb 1048576 \<and> length (vm_host_cpus m) = 1))"
proof -
  obtain s w' where s: "SUT host_env (PBool False) ''sut1'' spec1 world0 = (Inr s, w')" using SUT_runs by blast
  have "hugepage_kb spec1 = Inr 1048576" "int_opt (ns_vm_mem_size spec1) VM_MEM_SIZE = Inr 1024"
    "int_opt (ns_vm_cpu_num spec1) VM_CPU_NUM = Inr 1" by code_simp+
  from machines_within_bounds [OF s this(1) _ this(2,3)] s show ?thesis by (auto simp: MAX_VM_PER_NUMA_def)
qed

text \<open>
  C20 The machines of a system are numbered from 1 across its NUMA nodes.  Machine \<open>g\<close> holds two new interfaces,
  at positions 0 and 1; interface \<open>i\<close> of it has the OpenFlow port of its number on the host, counted from 1, is
  on no network yet, and has the address that the position, the node and the machine determine.
\<close>

theorem vifs_numbered:
  assumes "SUT env g name spec w = (Inr s, w')" and "node_id spec = Inr node"
  shows "\<exists>base. \<forall>k < length (get_vms s).
     vm_vifs (get_vms s ! k) = [base + 2 * k, Suc (base + 2 * k)]
     \<and> (\<forall>i < 2. let v = w_vifs w' (base + 2 * k + i) in
          vif_idx v = Some (int i) \<and> vif_ofp v = PStr (int_str (OFP_VHOST_BASE + 1 + 2 * int k + int i))
          \<and> vif_vni v = PInt VNI_NONE \<and> map_option Inr (vif_addr v) = Some (vif_address (int i) node (int k + 1)))"
proof -
  from assms obtain p where made: "vms_made p (get_vms s) 1 1 w w'" and node: "vp_node_idx p = node" by (rule SUT_made)
  let ?ok = "\<lambda>k i v. vif_idx v = Some (int i) \<and> vif_ofp v = PStr (int_str (OFP_VHOST_BASE + 1 + 2 * int k + int i))
     \<and> vif_vni v = PInt VNI_NONE \<and> map_option Inr (vif_addr v) = Some (vif_address (int i) node (int k + 1))"
  have ok: "?ok k i v" if "vif_made p (int i) (1 + 2 * int k + int i) (1 + int k) v" for i k v
    using that node by (auto simp: vif_made_def add.assoc add.commute [of 1])
  have "\<forall>k < length (get_vms s). vm_vifs (get_vms s ! k) = [w_next_vif w + 2 * k, Suc (w_next_vif w + 2 * k)]
     \<and> (\<forall>i < 2. ?ok k i (w_vifs w' (w_next_vif w + 2 * k + i)))"
  proof (rule allI, rule impI, rule conjI)
    fix k assume "k < length (get_vms s)"
    with made have k: "vm_vifs (get_vms s ! k) = [w_next_vif w + 2 * k, Suc (w_next_vif w + 2 * k)]"
      "\<And>i. i < 2 \<Longrightarrow> vif_made p (int i) (1 + 2 * int k + int i) (1 + int k) (w_vifs w' (w_next_vif w + 2 * k + i))"
      unfolding vms_made_def by blast+
    show "vm_vifs (get_vms s ! k) = [w_next_vif w + 2 * k, Suc (w_next_vif w + 2 * k)]" by (rule k(1))
    show "\<forall>i < 2. ?ok k i (w_vifs w' (w_next_vif w + 2 * k + i))"
      by (rule allI, rule impI, rule ok, rule k(2))
  qed
  then show ?thesis unfolding Let_def by (rule exI [of _ "w_next_vif w"])
qed

theorem vifs_numbered_witness:
  "\<exists>s w' v. SUT host_env (PBool False) ''sut1'' spec1 world0 = (Inr s, w')
     \<and> vif_idx v = Some 1 \<and> vif_ofp v = PStr ''14''
     \<and> map_option Inr (vif_addr v) = Some (vif_address 1 1 2) \<and> v = w_vifs w' (vm_vifs (get_vms s ! 1) ! 1)"
proof -
  obtain s w' where s: "SUT host_env (PBool False) ''sut1'' spec1 world0 = (Inr s, w')" and l: "length (get_vms s) = 2"
    using SUT_runs by blast
  have n: "node_id spec1 = Inr 1" by code_simp
  have o: "int_str (OFP_VHOST_BASE + 1 + 2 * int 1 + int 1) = ''14''" by code_simp
  from vifs_numbered [OF s n] obtain base where b: "\<forall>k < length (get_vms s).
     vm_vifs (get_vms s ! k) = [base + 2 * k, Suc (base + 2 * k)]
     \<and> (\<forall>i < 2. let v = w_vifs w' (base + 2 * k + i) in
          vif_idx v = Some (int i) \<and> vif_ofp v = PStr (int_str (OFP_VHOST_BASE + 1 + 2 * int k + int i))
          \<and> vif_vni v = PInt VNI_NONE \<and> map_option Inr (vif_addr v) = Some (vif_address (int i) 1 (int k + 1)))"
    by blast
  have k: "1 < length (get_vms s)" "(1::nat) < 2" using l by simp_all
  have 1: "vm_vifs (get_vms s ! 1) = [base + 2 * 1, Suc (base + 2 * 1)]"
    by (rule conjunct1 [OF mp [OF spec [OF b] k(1)]])
  note v = mp [OF spec [OF conjunct2 [OF mp [OF spec [OF b] k(1)]]] k(2)]
  let ?v = "w_vifs w' (base + 2 * 1 + 1)"
  have "vif_idx ?v = Some (int 1) \<and> vif_ofp ?v = PStr (int_str (OFP_VHOST_BASE + 1 + 2 * int 1 + int 1))
     \<and> map_option Inr (vif_addr ?v) = Some (vif_address (int 1) 1 (int 1 + 1))"
    using v unfolding Let_def by blast
  with 1 o s show ?thesis by (intro exI [of _ s] exI [of _ w'] exI [of _ ?v]) simp
qed

end
