(* ===== verification/Testbed_Pairs.thy ===== *)
theory Testbed_Pairs imports Testbed_Props begin

text \<open>
  The testbed as a whole: what is true of every system right after it is set up stays true while the systems
  after it are set up, because these only add interfaces to the store.  The verification topologies of such a
  testbed pair the machines by the position of their interfaces.
\<close>

section \<open>The store only grows\<close>

definition grows :: "world \<Rightarrow> world \<Rightarrow> bool" where
  "grows w w' \<longleftrightarrow> w_next_vif w \<le> w_next_vif w' \<and> (\<forall>r < w_next_vif w. w_vifs w' r = w_vifs w r)"

lemma grows_refl: "grows w w"
  by (simp add: grows_def)

lemma grows_trans: "grows a b \<Longrightarrow> grows b c \<Longrightarrow> grows a c"
  by (simp add: grows_def)

text \<open>
  A system as it is set up: its machines have two interfaces each, at the references from \<open>base\<close> on, with the
  addresses of their position, with consecutive port numbers, and on no network.
\<close>

definition made_at :: "int \<Rightarrow> nat \<Rightarrow> sut \<Rightarrow> world \<Rightarrow> bool" where
  "made_at node base s w \<longleftrightarrow> su_vms s = [] \<and> base + 2 * length (get_vms s) \<le> w_next_vif w
     \<and> (\<forall>g < length (get_vms s). vm_vifs (get_vms s ! g) = [base + 2 * g, Suc (base + 2 * g)]
          \<and> (\<forall>i < 2. vif_vni (w_vifs w (base + 2 * g + i)) = PInt VNI_NONE
               \<and> vif_ofp (w_vifs w (base + 2 * g + i)) = PStr (int_str (OFP_VHOST_BASE + 1 + int (2 * g + i)))
               \<and> (\<exists>a. vif_address (int i) node (int g + 1) = Inr a \<and> vif_addr (w_vifs w (base + 2 * g + i)) = Some a)))"

lemma made_at_grows:
  assumes "made_at node base s w" "grows w w'"
  shows "made_at node base s w'"
proof -
  have "w_vifs w' (base + 2 * g + i) = w_vifs w (base + 2 * g + i)" if "g < length (get_vms s)" "i < 2" for g i
    using assms that by (simp add: made_at_def grows_def)
  with assms show ?thesis by (simp add: made_at_def grows_def)
qed

lemma SUT_made_at:
  assumes "SUT env g name spec w = (Inr s, w')"
  shows "\<exists>node base. made_at node base s w' \<and> grows w w'"
proof -
  from assms obtain node where n: "node_id spec = Inr node" and v: "su_vms s = []" by (rule SUT_phases)
  from SUT_made [OF assms n] obtain p where made: "vms_made p (get_vms s) 1 1 w w'" "vp_node_idx p = node" .
  have f: "vif_vni v = PInt VNI_NONE \<and> vif_ofp v = PStr (int_str (OFP_VHOST_BASE + h))
      \<and> (\<exists>a. vif_address (int i) node (int k + 1) = Inr a \<and> vif_addr v = Some a)"
    if "vif_made p (int i) h (1 + int k) v" for i h k v
    using that made(2) by (simp add: vif_made_def add.commute)
  have "made_at node (w_next_vif w) s w'"
    unfolding made_at_def
  proof (intro conjI allI impI)
    show "su_vms s = []" by (rule v)
    show "w_next_vif w + 2 * length (get_vms s) \<le> w_next_vif w'" using made(1) by (simp add: vms_made_def)
  next
    fix k assume "k < length (get_vms s)"
    with made(1) have k: "vm_vifs (get_vms s ! k) = [w_next_vif w + 2 * k, Suc (w_next_vif w + 2 * k)]"
      "\<And>i. i < 2 \<Longrightarrow> vif_made p (int i) (1 + 2 * int k + int i) (1 + int k) (w_vifs w' (w_next_vif w + 2 * k + i))"
      unfolding vms_made_def by blast+
    show "vm_vifs (get_vms s ! k) = [w_next_vif w + 2 * k, Suc (w_next_vif w + 2 * k)]" by (rule k(1))
    fix i :: nat assume i: "i < 2"
    note r = f [OF k(2) [OF i]]
    show "vif_vni (w_vifs w' (w_next_vif w + 2 * k + i)) = PInt VNI_NONE" by (rule conjunct1 [OF r])
    show "vif_ofp (w_vifs w' (w_next_vif w + 2 * k + i)) = PStr (int_str (OFP_VHOST_BASE + 1 + int (2 * k + i)))"
      using r by (simp add: add.assoc)
    show "\<exists>a. vif_address (int i) node (int k + 1) = Inr a \<and> vif_addr (w_vifs w' (w_next_vif w + 2 * k + i)) = Some a"
      by (rule conjunct2 [OF conjunct2 [OF r]])
  qed
  moreover have "grows w w'" using made(1) by (simp add: grows_def vms_made_def)
  ultimately show ?thesis by blast
qed

definition testbed_made :: "sut list \<Rightarrow> world \<Rightarrow> bool" where
  "testbed_made ss w \<longleftrightarrow> (\<forall>s \<in> set ss. \<exists>node base. made_at node base s w)"

lemma testbed_made_grows: "testbed_made ss w \<Longrightarrow> grows w w' \<Longrightarrow> testbed_made ss w'"
  unfolding testbed_made_def using made_at_grows by blast

lemma load_made:
  assumes "collectE specs (\<lambda>(name, spec).
       bindE (liftE (item ''type'' (ns_type spec))) (\<lambda>type.
       if type = ''SUT'' then bindE (SUT env g name spec) (\<lambda>s. retE [s]) else retE [])) w = (Inr ss, w')"
  shows "testbed_made ss w' \<and> grows w w'"
  using assms
proof (induction specs arbitrary: w ss)
  case Nil
  then show ?case by (simp add: returns testbed_made_def grows_refl)
next
  case (Cons x specs)
  obtain name spec where x: "x = (name, spec)" by (cases x)
  from Cons.prems obtain t us w1 rs where 1: "(if t = ''SUT'' then bindE (SUT env g name spec) (\<lambda>s. retE [s]) else retE []) w = (Inr us, w1)"
    and 2: "collectE specs (\<lambda>(name, spec). bindE (liftE (item ''type'' (ns_type spec))) (\<lambda>type.
       if type = ''SUT'' then bindE (SUT env g name spec) (\<lambda>s. retE [s]) else retE [])) w1 = (Inr rs, w')"
    and s: "ss = us @ rs" by (auto simp: returns x)
  from 1 have "testbed_made us w1 \<and> grows w w1"
    using SUT_made_at [of env g name spec w] grows_refl
    by (cases "t = ''SUT''") (auto simp: returns testbed_made_def)
  with Cons.IH [OF 2] s testbed_made_grows grows_trans show ?case
    by (auto simp: testbed_made_def)
qed

lemma init_made: "init_topology env g path read_yaml w = (Inr ss, w') \<Longrightarrow> testbed_made ss w'"
  unfolding init_topology_def load_topo_from_yaml_def returns_bind using load_made by blast

section \<open>Subnets of positions\<close>

lemma vif_address_net:
  assumes "vif_address (int i) node guest = Inr a" "i < 2"
  shows "ia_ipv4_network a = \<lparr>network_address = IPv4Address ((172 * 256 + 168 + int i) * 65536), prefixlen = 16\<rparr>"
proof -
  from assms obtain r: "0 \<le> node" "node \<le> 255" "0 \<le> guest" "guest \<le> 255"
    and a: "ia_ipv4_network a = net_of (IPv4Address (((172 * 256 + (168 + int i)) * 256 + node) * 256 + guest)) 16"
    by (auto simp: vif_address_def ipv4_of_octets_def bindR_Inr_iff Let_def split: if_splits)
  have "(((172 * 256 + (168 + int i)) * 256 + node) * 256 + guest) div 65536 = 172 * 256 + 168 + int i"
    using r by (intro int_div_pos_eq [of _ _ _ "node * 256 + guest"]) (simp_all add: algebra_simps)
  then show ?thesis by (simp add: a net_of_def)
qed

lemma same_position:
  assumes "vif_address (int i) node guest = Inr a" "vif_address (int j) node' guest' = Inr b" "i < 2" "j < 2"
    and "vif_addr u = Some a" "vif_addr v = Some b"
  shows "has_same_subnet u v = Inr (i = j)"
  using assms(5,6) vif_address_net [OF assms(1,3)] vif_address_net [OF assms(2,4)]
  by (auto simp: has_same_subnet_iff)

text \<open>An endpoint of such a testbed: its position decides its subnet, and it is on no network yet.\<close>

lemma endpoint_made:
  assumes "testbed_made ss w" "d \<in> endpoints ss"
  obtains i node guest a where "i < (2::nat)" "vif_address (int i) node guest = Inr a" "vif_addr (w_vifs w (ep_vif d)) = Some a"
    "vif_vni (w_vifs w (ep_vif d)) = PInt VNI_NONE" "i = 0 \<longleftrightarrow> ep_vif d = hd (vm_vifs (ep_vm ss d))"
proof -
  from assms obtain node base where m: "made_at node base (ss ! ep_host d) w"
    unfolding testbed_made_def endpoints_def using nth_mem by blast
  let ?g = "ep_guest d"
  have g: "?g < length (get_vms (ss ! ep_host d))" using assms(2) by (simp add: endpoints_def)
  then have vm: "vm_vifs (ep_vm ss d) = [base + 2 * ?g, Suc (base + 2 * ?g)]"
    and at: "\<And>i. i < 2 \<Longrightarrow> vif_vni (w_vifs w (base + 2 * ?g + i)) = PInt VNI_NONE
      \<and> (\<exists>a. vif_address (int i) node (int ?g + 1) = Inr a \<and> vif_addr (w_vifs w (base + 2 * ?g + i)) = Some a)"
    using m unfolding made_at_def ep_vm_def by blast+
  define i where "i = ep_vif d - (base + 2 * ?g)"
  have "ep_vif d \<in> set (vm_vifs (ep_vm ss d))" using assms(2) by (simp add: endpoints_def)
  then have i: "i < 2" "ep_vif d = base + 2 * ?g + i" "i = 0 \<longleftrightarrow> ep_vif d = hd (vm_vifs (ep_vm ss d))"
    unfolding vm i_def by auto
  from at [OF i(1)] obtain a where "vif_address (int i) node (int ?g + 1) = Inr a"
    "vif_addr (w_vifs w (ep_vif d)) = Some a" "vif_vni (w_vifs w (ep_vif d)) = PInt VNI_NONE" unfolding i(2) by blast
  with i(1,3) that show thesis by blast
qed

lemma endpoints_subnet:
  assumes "testbed_made ss w" "d \<in> endpoints ss" "e \<in> endpoints ss" "ep_vif e = hd (vm_vifs (ep_vm ss e))"
  shows "has_same_subnet (w_vifs w (ep_vif d)) (w_vifs w (ep_vif e)) = Inr (ep_vif d = hd (vm_vifs (ep_vm ss d)))"
proof -
  from endpoint_made [OF assms(1,2)] obtain i node guest a where d: "i < (2::nat)" "vif_address (int i) node guest = Inr a"
    "vif_addr (w_vifs w (ep_vif d)) = Some a" "i = 0 \<longleftrightarrow> ep_vif d = hd (vm_vifs (ep_vm ss d))" .
  from endpoint_made [OF assms(1,3)] obtain j node' guest' b where e: "j < (2::nat)" "vif_address (int j) node' guest' = Inr b"
    "vif_addr (w_vifs w (ep_vif e)) = Some b" "j = 0 \<longleftrightarrow> ep_vif e = hd (vm_vifs (ep_vm ss e))" .
  have "j = 0" using e(4) assms(4) by simp
  with same_position [OF d(2) e(2) d(1) e(1) d(3) e(3)] d(4) show ?thesis by simp
qed

section \<open>The first pair of a fresh testbed\<close>

definition first_ep :: "sut list \<Rightarrow> endpoint" where
  "first_ep ss = \<lparr>ep_host = 0, ep_guest = 0, ep_vif = hd (vm_vifs (hd (get_vms (hd ss))))\<rparr>"

lemma first_ep_in:
  assumes "testbed_made ss w" "ss \<noteq> []" "get_vms (hd ss) \<noteq> []"
  shows "first_ep ss \<in> endpoints ss" "ep_vif (first_ep ss) = hd (vm_vifs (ep_vm ss (first_ep ss)))"
    "vm_vifs (hd (get_vms (hd ss))) \<noteq> []"
proof -
  from assms obtain node base where "made_at node base (hd ss) w"
    unfolding testbed_made_def using hd_in_set by blast
  with assms(3) have "vm_vifs (get_vms (hd ss) ! 0) = [base + 2 * 0, Suc (base + 2 * 0)]"
    unfolding made_at_def by blast
  with assms(2,3) show "first_ep ss \<in> endpoints ss" "ep_vif (first_ep ss) = hd (vm_vifs (ep_vm ss (first_ep ss)))"
    "vm_vifs (hd (get_vms (hd ss))) \<noteq> []"
    by (simp_all add: first_ep_def endpoints_def ep_vm_def hd_conv_nth)
qed

lemma foldR_total: "(\<And>x y. x \<in> set xs \<Longrightarrow> \<exists>z. f x y = Inr z) \<Longrightarrow> \<exists>z. foldR f xs y = Inr z"
proof (induction xs arbitrary: y)
  case (Cons x xs)
  then obtain z where "f x y = Inr z" by fastforce
  with Cons.IH [of z] Cons.prems show ?case by simp
qed simp

lemma topology_total:
  assumes "testbed_made ss w" "ss \<noteq> []" "get_vms (hd ss) \<noteq> []"
    and "sepc_pnic_loc tc \<notin> {NUMA, XNUMA}" "depc_pnic_loc tc \<notin> {NUMA, XNUMA}"
  shows "\<exists>vt. verify_topology_get ss (w_vifs w) tc = Inr vt"
proof -
  note first = first_ep_in [OF assms(1-3)]
  have vif: "\<exists>z. consider_vif ss (w_vifs w) (first_ep ss) d vt = Inr z" if "d \<in> endpoints ss" for d vt
    using endpoints_subnet [OF assms(1) that first(1,2)] by (simp add: consider_vif_def)
  have vm: "\<exists>z. consider_vm ss (w_vifs w) tc (first_ep ss) h g vt = Inr z"
    if "h < length ss" "g < length (get_vms (ss ! h))" for h g vt
  proof -
    have "\<exists>z. foldR (\<lambda>v. consider_vif ss (w_vifs w) (first_ep ss) \<lparr>ep_host = h, ep_guest = g, ep_vif = v\<rparr>)
        (vm_vifs (get_vms (ss ! h) ! g)) vt = Inr z"
      using that by (intro foldR_total vif) (simp add: endpoints_def ep_vm_def)
    then show ?thesis using assms(5) by (simp add: consider_vm_def Let_def pnic_skip_def ep_vm_def)
  qed
  have "\<exists>z. foldR (consider_sut ss (w_vifs w) tc (first_ep ss)) [0..<length ss] VerifyTopology = Inr z"
  proof (rule foldR_total)
    fix h vt assume "h \<in> set [0..<length ss]"
    then have "\<exists>z. foldR (consider_vm ss (w_vifs w) tc (first_ep ss) h) [0..<length (get_vms (ss ! h))] vt = Inr z"
      by (intro foldR_total vm) simp_all
    then show "\<exists>z. consider_sut ss (w_vifs w) tc (first_ep ss) h vt = Inr z" by (simp add: consider_sut_def)
  qed
  moreover have "source_ep tc 0 (get_vms (ss ! 0)) = Inr (Some (first_ep ss))"
  proof -
    obtain m ms where m: "get_vms (ss ! 0) = m # ms" using assms(2,3) by (cases "get_vms (ss ! 0)") (auto simp: hd_conv_nth)
    then obtain v vs where "vm_vifs m = v # vs" using first(3) assms(2) by (cases "vm_vifs m") (auto simp: hd_conv_nth)
    with m assms(2,4) show ?thesis by (simp add: pnic_skip_def first_ep_def hd_conv_nth)
  qed
  ultimately show ?thesis using assms(2) by (simp add: verify_topology_get_def)
qed

end
