(* ===== verification/Ssh_Terminal.thy ===== *)
theory Ssh_Terminal imports Ssh_Facts "HOL-Library.Sublist" begin

text \<open>
  The interactive terminal of \<open>ssh.py\<close>: opening a shell on a new channel and reading up to its first prompt,
  sending a command and reading up to the next prompt, closing the channel.  The shell behind the channel is a
  parameter, the record \<open>term_env\<close>: what a read or a send gives is a function of the channel, which holds the
  texts sent and the number of reads so far.  A shell that keeps talking and never shows a prompt keeps the
  loop running for ever, so the operations are partial: \<open>None\<close> is a call that does not return.
\<close>

section \<open>The channel\<close>

text \<open>A read gives a text, with whether \<open>exit_status_ready\<close> holds after it, no bytes, or \<open>socket.timeout\<close>.\<close>

datatype term_read = TData string bool | TEof | TTimeout

record tchan =
  tm_client :: nat
  tm_timeout :: int
  tm_sent :: "string list"
  tm_reads :: nat
  tm_closed :: bool

text \<open>\<open>te_setup\<close>: the exception of \<open>get_pty\<close> and \<open>invoke_shell\<close>, if any; \<open>te_send\<close>: that of \<open>sendall\<close>.\<close>

record term_env =
  te_setup :: "ssh_event list \<Rightarrow> nat \<Rightarrow> err option"
  te_send :: "tchan \<Rightarrow> string \<Rightarrow> err option"
  te_recv :: "tchan \<Rightarrow> term_read"

definition ends_with :: "string list \<Rightarrow> string \<Rightarrow> bool" where
  "ends_with ps s = list_ex (\<lambda>p. suffix p s) ps"

text \<open>The loop of both operations; \<open>failed\<close> is the exception raised for a timeout with this text read.\<close>

partial_function (option) recv_until ::
  "term_env \<Rightarrow> string list \<Rightarrow> (string \<Rightarrow> err) \<Rightarrow> string \<Rightarrow> tchan \<Rightarrow> world \<Rightarrow> (string res \<times> tchan \<times> world) option" where
  "recv_until te prompts failed buf ch w =
     (if ends_with prompts buf then Some (Inr buf, ch, w)
      else
        (let ch' = ch\<lparr>tm_reads := Suc (tm_reads ch)\<rparr> in
         case te_recv te ch of
           TEof \<Rightarrow> Some (Inr buf, ch', w)
         | TTimeout \<Rightarrow> Some (Inl (failed buf), ch', w)
         | TData s ready \<Rightarrow>
             if ready then Some (Inr (buf @ s), ch', snd (logE LError ''Channel exit status ready'' w))
             else recv_until te prompts failed (buf @ s) ch' w))"

section \<open>Operations\<close>

definition shell_prompts :: "string list" where
  "shell_prompts = ['':~# '', '':~$ '', ''~]$ '', ''~]# '']"

definition interactive_terminal_open ::
  "ssh_env \<Rightarrow> term_env \<Rightarrow> int \<Rightarrow> ssh_obj \<times> world \<Rightarrow> (tchan res \<times> ssh_obj \<times> world) option" where
  "interactive_terminal_open env te time_out st =
     (case open_session env st of
        (Inl e, st') \<Rightarrow> Some (Inl e, st')
      | (Inr c, (ob, w)) \<Rightarrow>
          (case te_setup te (w_events w) c of
             Some e \<Rightarrow> Some (Inl e, (ob, w))
           | None \<Rightarrow>
               (case recv_until te shell_prompts (\<lambda>buf. OtherError (fmt [''Socket timeout: '', buf])) []
                       \<lparr>tm_client = c, tm_timeout = time_out, tm_sent = [], tm_reads = 0, tm_closed = False\<rparr> w of
                  None \<Rightarrow> None
                | Some (r, ch, w') \<Rightarrow> Some (map_sum id (\<lambda>_. ch) r, (ob, w')))))"

text \<open>\<open>s.replace(p, "")\<close>; an empty \<open>p\<close> leaves the text as it is.\<close>

function remove_all :: "string \<Rightarrow> string \<Rightarrow> string" where
  "remove_all p s =
     (if p = [] \<or> s = [] then s
      else if starts_with p s then remove_all p (drop (length p) s)
      else hd s # remove_all p (tl s))"
  by pat_completeness auto
termination by (relation "measure (length \<circ> snd)") (auto simp: Suc_le_eq)

declare remove_all.simps [simp del]

text \<open>
  The prompt is not taken off: the loop \<open>for item in prompt: tmp.replace(item, "")\<close> drops the texts it makes, so
  it has no effect and is left out here.
\<close>

definition interactive_terminal_exec_command ::
  "term_env \<Rightarrow> tchan \<Rightarrow> string \<Rightarrow> string \<Rightarrow> world \<Rightarrow> (string res \<times> tchan \<times> world) option" where
  "interactive_terminal_exec_command te ch cmd prompt w =
     (case te_send te ch (cmd @ [nl]) of
        Some e \<Rightarrow> Some (Inl e, ch, w)
      | None \<Rightarrow>
          (case recv_until te [prompt]
                  (\<lambda>buf. OtherError (fmt [''Socket timeout during execution of command: '', cmd, [nl],
                                          ''Buffer content:'', [nl], buf]))
                  [] (ch\<lparr>tm_sent := tm_sent ch @ [cmd @ [nl]]\<rparr>) w of
             None \<Rightarrow> None
           | Some (r, ch', w') \<Rightarrow>
               Some (map_sum id (remove_all (filter (\<lambda>c. c \<noteq> nl) cmd)) r, ch', w')))"

definition interactive_terminal_close :: "tchan \<Rightarrow> tchan" where
  "interactive_terminal_close ch = ch\<lparr>tm_closed := True\<rparr>"

section \<open>Running the loop\<close>

abbreviation after_reads :: "tchan \<Rightarrow> nat \<Rightarrow> tchan" where
  "after_reads ch n \<equiv> ch\<lparr>tm_reads := tm_reads ch + n\<rparr>"

fun read_text :: "term_read \<Rightarrow> string" where
  "read_text (TData s ready) = s"
| "read_text TEof = []"
| "read_text TTimeout = []"

text \<open>What the first \<open>n\<close> reads give together, and whether the loop stops after \<open>n\<close> reads.\<close>

definition received :: "term_env \<Rightarrow> tchan \<Rightarrow> nat \<Rightarrow> string" where
  "received te ch n = concat (map (\<lambda>i. read_text (te_recv te (after_reads ch i))) [0..<n])"

definition stops_at :: "term_env \<Rightarrow> string list \<Rightarrow> string \<Rightarrow> tchan \<Rightarrow> nat \<Rightarrow> bool" where
  "stops_at te ps buf ch n \<longleftrightarrow>
     ends_with ps (buf @ received te ch n) \<or> (\<forall>s. te_recv te (after_reads ch n) \<noteq> TData s False)"

lemma received_0 [simp]: "received te ch 0 = []"
  by (simp add: received_def)

lemma received_Suc:
  "received te ch (Suc n) = read_text (te_recv te ch) @ received te (after_reads ch 1) n"
  by (simp add: received_def upt_conv_Cons map_Suc_upt [symmetric] comp_def del: upt_Suc)

lemma stops_at_Suc:
  assumes "te_recv te ch = TData s False"
  shows "stops_at te ps buf ch (Suc n) = stops_at te ps (buf @ s) (after_reads ch 1) n"
  using assms by (simp add: stops_at_def received_Suc)

text \<open>Up to the first stop the loop only collects what it reads.\<close>

lemma recv_until_skips:
  assumes "\<forall>i < n. \<not> stops_at te ps buf ch i"
  shows "recv_until te ps failed buf ch w = recv_until te ps failed (buf @ received te ch n) (after_reads ch n) w"
  using assms
proof (induction n arbitrary: buf ch)
  case (Suc n)
  from Suc.prems have "\<not> stops_at te ps buf ch 0" by blast
  then obtain s where s: "te_recv te ch = TData s False" "\<not> ends_with ps buf" by (auto simp: stops_at_def)
  have "recv_until te ps failed buf ch w = recv_until te ps failed (buf @ s) (after_reads ch 1) w"
    using s by (subst recv_until.simps) simp
  moreover have "\<forall>i < n. \<not> stops_at te ps (buf @ s) (after_reads ch 1) i"
    using Suc.prems stops_at_Suc [OF s(1), of ps buf] by (metis Suc_mono)
  ultimately show ?case using Suc.IH [of "buf @ s" "after_reads ch 1"] s(1) by (simp add: received_Suc)
qed simp

lemma recv_until_stopped:
  assumes "recv_until te ps failed buf ch w = Some y"
  shows "\<exists>n. stops_at te ps buf ch n"
proof (rule recv_until.raw_induct [OF _ assms])
  fix f te ps failed buf ch w y
  assume IH: "\<And>te ps failed buf ch w y. f te ps failed buf ch w = Some y \<Longrightarrow> \<exists>n. stops_at te ps buf ch n"
    and step: "(if ends_with ps buf then Some (Inr buf, ch, w)
      else
        (let ch' = ch\<lparr>tm_reads := Suc (tm_reads ch)\<rparr> in
         case te_recv te ch of
           TData s ready \<Rightarrow>
             if ready then Some (Inr (buf @ s), ch', snd (logE LError ''Channel exit status ready'' w))
             else f te ps failed (buf @ s) ch' w
         | TEof \<Rightarrow> Some (Inr buf, ch', w)
         | TTimeout \<Rightarrow> Some (Inl (failed buf), ch', w))) = Some y"
  show "\<exists>n. stops_at te ps buf ch n"
  proof (cases "stops_at te ps buf ch 0")
    case False
    then obtain s where s: "te_recv te ch = TData s False" "\<not> ends_with ps buf" by (auto simp: stops_at_def)
    with step have "f te ps failed (buf @ s) (after_reads ch 1) w = Some y" by simp
    from IH [OF this] obtain n where "stops_at te ps (buf @ s) (after_reads ch 1) n" by (rule exE)
    then have "stops_at te ps buf ch (Suc n)" by (simp only: stops_at_Suc [OF s(1)])
    then show ?thesis by (rule exI)
  qed (rule exI)
qed

lemma recv_until_returns_iff:
  "recv_until te ps failed buf ch w \<noteq> None \<longleftrightarrow> (\<exists>n. stops_at te ps buf ch n)" (is "?l = ?r")
proof
  show ?r if ?l using that recv_until_stopped by blast
  assume ?r
  define n where "n = (LEAST n. stops_at te ps buf ch n)"
  have stop: "stops_at te ps buf ch n" using \<open>?r\<close> unfolding n_def by (rule LeastI_ex)
  have skips: "\<forall>i < n. \<not> stops_at te ps buf ch i" using not_less_Least unfolding n_def by blast
  have "recv_until te ps failed (buf @ received te ch n) (after_reads ch n) w \<noteq> None"
    using stop by (subst recv_until.simps) (auto simp: stops_at_def Let_def split: term_read.splits)
  with recv_until_skips [OF skips] show ?l by simp
qed

section \<open>The echo of a command\<close>

lemma remove_none: "\<not> str_in p s \<Longrightarrow> remove_all p s = s"
proof (induction s)
  case (Cons c cs)
  then show ?case by (subst remove_all.simps) auto
qed (subst remove_all.simps, simp)

lemma remove_first: "p \<noteq> [] \<Longrightarrow> \<not> str_in p s \<Longrightarrow> remove_all p (p @ s) = s"
  by (subst remove_all.simps) (simp add: remove_none)

lemma no_newline: "nl \<notin> set cmd \<Longrightarrow> filter (\<lambda>c. c \<noteq> nl) cmd = cmd"
  by (induction cmd) auto

section \<open>Properties\<close>

text \<open>The channel with the line of the command sent.\<close>

abbreviation sent :: "tchan \<Rightarrow> string \<Rightarrow> tchan" where
  "sent ch cmd \<equiv> ch\<lparr>tm_sent := tm_sent ch @ [cmd @ [nl]]\<rparr>"

text \<open>
  A command on the terminal returns, with its output or an exception, exactly when sending it fails or the
  shell at some time shows the prompt, ends, or is silent for the timeout.
\<close>

theorem terminal_returns_iff:
  "interactive_terminal_exec_command te ch cmd prompt w \<noteq> None
     \<longleftrightarrow> te_send te ch (cmd @ [nl]) \<noteq> None \<or> (\<exists>n. stops_at te [prompt] [] (sent ch cmd) n)"
proof (cases "te_send te ch (cmd @ [nl])")
  case None
  have "(case x of None \<Rightarrow> None | Some (a, b, c) \<Rightarrow> Some (f a, b, c)) \<noteq> None \<longleftrightarrow> x \<noteq> None"
    for x :: "(string res \<times> tchan \<times> world) option" and f :: "string res \<Rightarrow> string res"
    by (auto split: option.splits)
  then show ?thesis
    by (simp only: interactive_terminal_exec_command_def None option.case recv_until_returns_iff simp_thms)
qed (simp add: interactive_terminal_exec_command_def)

lemma prompt_stops:
  assumes "\<forall>i < n. \<not> stops_at te ps buf ch i" and "ends_with ps (buf @ received te ch n)"
  shows "recv_until te ps failed buf ch w = Some (Inr (buf @ received te ch n), after_reads ch n, w)"
  unfolding recv_until_skips [OF assms(1)] using assms(2) by (subst recv_until.simps) simp

text \<open>
  C39 When the shell echoes a command, gives its output and shows the prompt for the first time, the call returns
  after exactly these reads: with the echo taken off, and with the prompt, which the code means to take off too.
\<close>

theorem terminal_command_output:
  assumes "te_send te ch (cmd @ [nl]) = None" and "cmd \<noteq> []" "nl \<notin> set cmd"
    and "received te (sent ch cmd) n = cmd @ out @ prompt" and "\<not> str_in cmd (out @ prompt)"
    and "\<forall>i < n. \<not> suffix prompt (received te (sent ch cmd) i) \<and> (\<exists>s. te_recv te (after_reads (sent ch cmd) i) = TData s False)"
  shows "interactive_terminal_exec_command te ch cmd prompt w = Some (Inr (out @ prompt), after_reads (sent ch cmd) n, w)"
proof -
  have skips: "\<forall>i < n. \<not> stops_at te [prompt] [] (sent ch cmd) i"
    using assms(6) by (auto simp: stops_at_def ends_with_def)
  have stop: "ends_with [prompt] ([] @ received te (sent ch cmd) n)"
    using suffixI [of "cmd @ out @ prompt" "cmd @ out" prompt] by (simp add: ends_with_def assms(4))
  have "recv_until te [prompt] failed [] (sent ch cmd) w
      = Some (Inr (cmd @ out @ prompt), after_reads (sent ch cmd) n, w)" for failed
    using prompt_stops [OF skips stop] by (simp only: append_Nil assms(4))
  then show ?thesis
    by (simp add: interactive_terminal_exec_command_def assms(1) no_newline [OF assms(3)] remove_first [OF assms(2,5)])
qed

text \<open>A shell that echoes the last line, answers with a text and shows its prompt in a read of its own.\<close>

definition echo_shell :: term_env where
  "echo_shell = \<lparr>te_setup = (\<lambda>_ _. None), te_send = (\<lambda>_ _. None),
     te_recv = (\<lambda>ch. case tm_reads ch of
        0 \<Rightarrow> TData (butlast (last (tm_sent ch))) False
      | Suc 0 \<Rightarrow> TData [CHR 0x0D, nl] False
      | Suc (Suc 0) \<Rightarrow> TData ''root@vm:~# '' False
      | _ \<Rightarrow> TTimeout)\<rparr>"

theorem terminal_command_output_witness:
  "interactive_terminal_exec_command echo_shell
       \<lparr>tm_client = 0, tm_timeout = 45, tm_sent = [], tm_reads = 0, tm_closed = False\<rparr> ''ls'' '':~# '' world0
     = Some (Inr ([CHR 0x0D, nl] @ ''root@vm:~# ''),
         \<lparr>tm_client = 0, tm_timeout = 45, tm_sent = [''ls'' @ [nl]], tm_reads = 3, tm_closed = False\<rparr>, world0)"
  (is "interactive_terminal_exec_command _ ?ch _ _ _ = _")
proof -
  have all: "(\<forall>i < 3. P i) \<longleftrightarrow> P 0 \<and> P 1 \<and> P 2" for P :: "nat \<Rightarrow> bool"
    by (auto simp: less_Suc_eq numeral_eq_Suc)
  have recv: "received echo_shell (sent ?ch ''ls'') 0 = []" "received echo_shell (sent ?ch ''ls'') 1 = ''ls''"
    "received echo_shell (sent ?ch ''ls'') 2 = ''ls'' @ [CHR 0x0D, nl]"
    "received echo_shell (sent ?ch ''ls'') 3 = ''ls'' @ ([CHR 0x0D, nl] @ ''root@vm'') @ '':~# ''"
    by (simp_all add: received_def echo_shell_def numeral_eq_Suc upt_rec)
  have "interactive_terminal_exec_command echo_shell ?ch ''ls'' '':~# '' world0
    = Some (Inr (([CHR 0x0D, nl] @ ''root@vm'') @ '':~# ''), after_reads (sent ?ch ''ls'') 3, world0)"
    by (rule terminal_command_output) (simp_all only: all recv, simp_all add: nl_def echo_shell_def suffix_def)
  then show ?thesis by simp
qed

end
