(* ===== verification/Overlay_Delivery.thy ===== *)
theory Overlay_Delivery imports Overlay_Props begin

text \<open>
  The tunnel overlay end to end: the ports that the deployment creates on all systems, the flows it generates for
  two of them, and the tunnel between them.  The tunnel itself is Open vSwitch's: a port with a fixed key sends with
  this key and takes in packets with this key only, one with \<open>key=flow\<close> sends with the tunnel id the flow has set
  and takes in every key; in the same way the remote address is the one of the port or the one the flow has set.
\<close>

section \<open>The tunnel\<close>

abbreviation flow_val :: pyval where
  "flow_val \<equiv> PStr ''flow''"

definition encap :: "tunnel_port \<Rightarrow> pkt \<Rightarrow> pkt" where
  "encap tp q = (if tp_vni tp = flow_val then q else q\<lparr>pk_tun_id := word_of_int (port_of (py_str (tp_vni tp)))\<rparr>)"

text \<open>The remote address as text, as \<open>options:remote_ip\<close> has it.\<close>

definition remote :: "tunnel_port \<Rightarrow> pkt \<Rightarrow> string option" where
  "remote tp q = (if tp_rip tp = flow_val then map_option ip_str (pk_tun_dst q) else Some (py_str (tp_rip tp)))"

definition accepts :: "tunnel_port \<Rightarrow> string \<Rightarrow> pkt \<Rightarrow> bool" where
  "accepts tp src q \<longleftrightarrow> (tp_rip tp = flow_val \<or> py_str (tp_rip tp) = src)
     \<and> (tp_vni tp = flow_val \<or> field_is (py_str (tp_vni tp)) (uint (pk_tun_id q)))"

text \<open>The packet at the receiving switch, with its registers cleared, before and after the INPUT table.\<close>

definition received :: "tunnel_port \<Rightarrow> pkt \<Rightarrow> pkt" where
  "received tp q = q\<lparr>pk_in := tp_ofp tp, pk_reg0 := 0, pk_reg1 := 0\<rparr>"

definition arrive :: "tunnel_port \<Rightarrow> pkt \<Rightarrow> pkt" where
  "arrive tp q = rewrite (trunk_acts ''tnl'') (received tp q)"

section \<open>The copies for the tunnel ports\<close>

lemma rewrite_append: "rewrite (as @ bs) p = rewrite bs (rewrite as p)"
  by (simp add: rewrite_def)

lemma rewrite_simps [simp]: "rewrite [] p = p" "rewrite (a # as) p = rewrite as (apply_act a p)"
  by (simp_all add: rewrite_def)

lemma outputs_silent: "(\<And>a q. a \<in> set as \<Longrightarrow> emit a q = []) \<Longrightarrow> outputs as p = []"
  by (induction as arbitrary: p) simp_all

lemma rewrite_dsts:
  "rewrite (map (\<lambda>r. SetTunDst (f r)) rs) p = (if rs = [] then p else p\<lparr>pk_tun_dst := Some (f (last rs))\<rparr>)"
  by (induction rs arbitrary: p) (simp_all add: rewrite_def)

abbreviation tep_of :: "sut \<Rightarrow> ipaddr" where
  "tep_of s \<equiv> ia_ipv4 (vs_tep_addr (su_vswitch s))"

text \<open>
  What a copy for a tunnel port has: registers and tags as before; the tunnel id and metadata of its VNI; and,
  where the flow sets the remote address, that of the last other system, since every system overwrites it.
\<close>

definition carries :: "sut list \<Rightarrow> nat \<Rightarrow> tunnel_port \<Rightarrow> bool \<Rightarrow> pkt \<Rightarrow> pkt \<Rightarrow> bool" where
  "carries ss k tp md p q \<longleftrightarrow>
     pk_reg0 q = pk_reg0 p \<and> pk_reg1 q = pk_reg1 p \<and> pk_tags q = pk_tags p
     \<and> (tp_vni tp = flow_val \<longrightarrow> pk_tun_id q = pk_reg0 p)
     \<and> (tp_rip tp = flow_val \<and> other_suts ss k \<noteq> [] \<longrightarrow> pk_tun_dst q = Some (tep_of (last (other_suts ss k))))
     \<and> (md \<longrightarrow> pk_md0 q = pk_reg0 p \<and> pk_md1 q = md1_const)"

lemma tnl_carries: "carries ss k tp md p (rewrite (tnl_acts ss k tp md) p)"
  by (simp add: carries_def tnl_acts_def rewrite_append rewrite_dsts)

lemma tnl_outputs:
  "outputs (tnl_acts ss k tp md) p = [(tp_ofp tp, rewrite (tnl_acts ss k tp md) p)]"
proof -
  define as where "as = butlast (tnl_acts ss k tp md)"
  have as: "tnl_acts ss k tp md = as @ [Out (int_str (tp_ofp tp))]" by (simp add: as_def tnl_acts_def butlast_append)
  have "emit a q = []" if "a \<in> set as" for a q
    using that by (auto simp: as_def tnl_acts_def butlast_append split: if_splits)
  from outputs_silent [OF this] show ?thesis by (simp add: as outputs_append rewrite_append)
qed

lemma carries_trans: "carries ss k tp md p p' \<Longrightarrow> carries ss k tp' md p' q \<Longrightarrow> carries ss k tp' md p q"
  by (simp add: carries_def)

lemma tunnel_copies:
  "\<exists>qs. outputs (concat (map (\<lambda>tp. tnl_acts ss k tp md) tps)) p = zip (map tp_ofp tps) qs
     \<and> list_all2 (\<lambda>tp q. carries ss k tp md p q) tps qs"
proof (induction tps arbitrary: p)
  case (Cons tp tps)
  let ?q = "rewrite (tnl_acts ss k tp md) p"
  obtain qs where "outputs (concat (map (\<lambda>tp. tnl_acts ss k tp md) tps)) ?q = zip (map tp_ofp tps) qs"
    and qs: "list_all2 (\<lambda>tp q. carries ss k tp md ?q q) tps qs" using Cons.IH [of ?q] by (elim exE conjE)
  moreover have "list_all2 (\<lambda>tp q. carries ss k tp md p q) tps qs"
    using qs by (rule list_all2_mono) (rule carries_trans [OF tnl_carries])
  ultimately show ?case
    using tnl_carries [of ss k tp md p] by (intro exI [of _ "?q # qs"]) (simp add: outputs_append tnl_outputs)
qed simp

text \<open>The tunnel ports a broadcast of a VNI goes to.\<close>

definition flood_ports :: "bridge \<Rightarrow> pyval \<Rightarrow> tunnel_port list" where
  "flood_ports br vni = filter (\<lambda>tp. tp_vni tp = flow_val \<or> tp_vni tp = vni) (br_tnl_ports br)"

lemma flood_copies:
  "\<exists>qs. outputs (ext_acts ss k br ''tnl'' md vni) p = zip (map tp_ofp (flood_ports br vni)) qs
     \<and> list_all2 (\<lambda>tp q. carries ss k tp md p q) (flood_ports br vni) qs"
  unfolding flood_ports_def ext_acts_def using tunnel_copies by simp

lemma flood_copy:
  assumes "tp \<in> set (flood_ports br vni)"
  obtains q where "(tp_ofp tp, q) \<in> set (outputs (ext_acts ss k br ''tnl'' md vni) p)" "carries ss k tp md p q"
proof -
  obtain qs where out: "outputs (ext_acts ss k br ''tnl'' md vni) p = zip (map tp_ofp (flood_ports br vni)) qs"
    and qs: "list_all2 (\<lambda>tp q. carries ss k tp md p q) (flood_ports br vni) qs" using flood_copies by blast
  from assms obtain i where i: "i < length (flood_ports br vni)" "flood_ports br vni ! i = tp" by (auto simp: in_set_conv_nth)
  with list_all2_nthD [OF qs i(1)] list_all2_lengthD [OF qs] have "carries ss k tp md p (qs ! i)"
    "(tp_ofp tp, qs ! i) \<in> set (zip (map tp_ofp (flood_ports br vni)) qs)" unfolding in_set_zip by (auto intro!: exI [of _ i])
  then show ?thesis unfolding out [symmetric] by (rule that [rotated])
qed

section \<open>The ports of a deployment\<close>

lemma join_with_chars: "set (join_with sep xs) \<subseteq> set sep \<union> \<Union> (set ` set xs)"
  by (induction sep xs rule: join_with.induct) auto

lemma hex_str_chars: "CHR ''w'' \<notin> set (hex_str n)"
proof (induction n rule: hex_str.induct)
  case (1 n)
  have "CHR ''w'' \<noteq> digit_char i" if "i < 16" for i
    using that by (auto simp: digit_char_def eq_commute [of "CHR ''w''"] char_of_eq_iff take_bit_nat_eq_self)
  with 1 show ?case by (subst hex_str.simps) auto
qed

lemma ip_str_not_flow: "ip_str a \<noteq> ''flow''"
proof (cases a)
  case (IPv4Address n)
  have "CHR ''.'' \<in> set (ip_str a)" by (simp add: IPv4Address octets_def)
  then show ?thesis by auto
next
  case (IPv6Address n)
  have "set (compress_hextets hs) \<subseteq> {[]} \<union> set hs" for hs
    by (auto simp: compress_hextets_def split: prod.splits if_splits dest: in_set_takeD in_set_dropD)
  then have "CHR ''w'' \<notin> \<Union> (set ` set (compress_hextets (hextets n)))"
    using hex_str_chars by (fastforce simp: hextets_def)
  then have "CHR ''w'' \<notin> set (ip_str a)" using join_with_chars [of "'':''"] by (fastforce simp: IPv6Address)
  then show ?thesis by auto
qed

lemma other_suts_two:
  assumes "length ss = 2" "k < 2" "j < 2" "j \<noteq> k"
  shows "other_suts ss k = [ss ! j]"
proof -
  have "[0..<length ss] = [0, 1]" by (simp add: assms(1) upt_rec)
  moreover from assms have "k = 0 \<and> j = 1 \<or> k = 1 \<and> j = 0" by linarith
  ultimately show ?thesis by (auto simp: other_suts_def)
qed

lemma wanted_mem: "r \<in> set rs \<Longrightarrow> v \<in> set (port_vnis name s m) \<Longrightarrow> (r, v) \<in> set (wanted_ports name rs m s)"
  by (auto simp: wanted_ports_def)

lemma deployed_port:
  assumes run: "create_tunnel_ports env name ty rip_mode vni_mode (ss0, w) = (Inr (), (ss, w'))"
    and k: "k < length ss" "j < length ss" "j \<noteq> k" and n: "n \<in> set (vni_keys name (ss ! k))"
  obtains tp where "tp \<in> set (tnls name (ss ! k))" "tp_vni tp = flow_val \<or> tp_vni tp = n"
    "tp_rip tp = (if rip_mode = ''flow'' then flow_val else PStr (ip_str (tep_of (ss ! j))))"
proof -
  from deployed_grown [OF run] have len: "length ss = length ss0"
    and grown: "grown name (wanted_ports name (rips ss0 i rip_mode) vni_mode (ss0 ! i)) (ss0 ! i) (ss ! i)"
    if "i < length ss" for i using that by auto
  let ?rip = "if rip_mode = ''flow'' then flow_val else PStr (ip_str (tep_of (ss ! j)))"
  let ?vni = "if vni_mode = ''flow'' then flow_val else n"
  have vni: "?vni \<in> set (port_vnis name (ss0 ! k) vni_mode)"
    using n grown [OF k(1)] by (simp add: port_vnis_def grown_def)
  have rip: "?rip \<in> set (rips ss0 k rip_mode)"
    using k len [OF k(1)] grown [OF k(2)] by (auto simp: rips_def other_suts_def grown_def)
  note new = wanted_mem [OF rip vni]
  from grown [OF k(1)] obtain tps where tps: "tnls name (ss ! k) = tnls name (ss0 ! k) @ tps"
    "map (\<lambda>t. (tp_rip t, tp_vni t)) tps = wanted_ports name (rips ss0 k rip_mode) vni_mode (ss0 ! k)"
    unfolding grown_def by (elim conjE exE)
  from new obtain tp where "tp \<in> set tps" "(?rip, ?vni) = (tp_rip tp, tp_vni tp)"
    unfolding tps(2) [symmetric] set_map by (elim imageE) (rule that)
  with tps(1) have "tp \<in> set (tnls name (ss ! k))" "tp_rip tp = ?rip" "tp_vni tp = ?vni" by auto
  then show ?thesis by (intro that [of tp]) auto
qed

section \<open>Hosts in the cooperative environment\<close>

text \<open>A host with this tunnel address and two interfaces in VNI 200, before and after it gets a tunnel port.\<close>

definition host_w :: "int \<Rightarrow> nat \<Rightarrow> sut" where
  "host_w a r = sut_a\<lparr>su_vswitch := switch1\<lparr>vs_tep_addr := tep0\<lparr>ia_ipv4 := IPv4Address a\<rparr>,
     vs_bridges := [(Bridge ''br0'')\<lparr>br_vifs := [r, Suc r], br_vnis := [(PInt 200, [r, Suc r])]\<rparr>]\<rparr>\<rparr>"

definition host_d :: "pyval \<Rightarrow> int \<Rightarrow> nat \<Rightarrow> sut" where
  "host_d rip a r = (host_w a r)\<lparr>su_vswitch := upd_bridge 0 (add_tunnel rest_ids (new_tunnel ''gre'' rip flow_val 100))
     (su_vswitch (host_w a r))\<rparr>"

lemma host_w_fields [simp]:
  "get_bridge (su_vswitch (host_w a r)) ''br0'' = Some 0" "vs_tep_addr (su_vswitch (host_w a r)) = tep0\<lparr>ia_ipv4 := IPv4Address a\<rparr>"
  "vs_bridges (su_vswitch (host_w a r)) = [(Bridge ''br0'')\<lparr>br_vifs := [r, Suc r], br_vnis := [(PInt 200, [r, Suc r])]\<rparr>]"
  by (simp_all add: host_w_def get_bridge_def Bridge_def)

lemma host_d_fields [simp]:
  "get_bridge (su_vswitch (host_d rip a r)) ''br0'' = Some 0"
  "vs_tep_addr (su_vswitch (host_d rip a r)) = tep0\<lparr>ia_ipv4 := IPv4Address a\<rparr>"
  "vs_bridges (su_vswitch (host_d rip a r)) = [add_tunnel rest_ids (new_tunnel ''gre'' rip flow_val 100)
     ((Bridge ''br0'')\<lparr>br_vifs := [r, Suc r], br_vnis := [(PInt 200, [r, Suc r])]\<rparr>)]"
  by (simp_all add: host_d_def get_bridge_upd) (simp_all add: upd_bridge_def get_bridge_def Bridge_def add_tunnel_def take_id_def)

lemma host_port:
  assumes "ss ! k = host_w a r"
  shows "\<exists>w'. new_port quiet_env k ''br0'' ''gre'' rip flow_val (ss, w) = (Inr (), (ss[k := host_d rip a r], w'))"
proof -
  have ids: "ida_ids (br_ids_tunnel (vs_bridges (su_vswitch (host_w a r)) ! 0)) = 100 # rest_ids"
    using tunnel_pool0 by simp
  obtain w' where "create_tunnel_port quiet_env ''br0'' ''gre'' rip flow_val (su_vswitch (host_w a r), w)
      = (Inr (new_tunnel ''gre'' rip flow_val 100),
         (upd_bridge 0 (add_tunnel rest_ids (new_tunnel ''gre'' rip flow_val 100)) (su_vswitch (host_w a r)), w'))"
    using quiet_create_tunnel [OF host_w_fields(1) ids] by (rule that)
  with assms show ?thesis by (simp add: new_port_def em_simps host_d_def)
qed

section \<open>From host to host\<close>

lemma bridge_at_fields:
  "bridge_at name s b \<Longrightarrow> tnls name s = br_tnl_ports b" "bridge_at name s b \<Longrightarrow> vni_keys name s = map fst (br_vnis b)"
  by (auto simp: bridge_at_def tnls_def vni_keys_def)

text \<open>A packet of an interface after the INPUT table of its host.\<close>

definition enter :: "vif \<Rightarrow> pkt \<Rightarrow> pkt" where
  "enter v p = rewrite (of_acts (vif_input_flow ''tnl'' v)) p"

lemma enter_fields:
  assumes "field_is (py_str (vif_vni v)) N"
  shows "pk_reg0 (enter v p) = word_of_int N" "pk_reg1 (enter v p) = pk_reg1 p" "pk_in (enter v p) = pk_in p"
    "pk_tags (enter v p) = pk_tags p"
  using assms by (simp_all add: enter_def vif_input_flow_def field_is_def)

lemma arrive_fields:
  "pk_reg0 (arrive tp q) = pk_tun_id q" "pk_reg1 (arrive tp q) = 0" "pk_in (arrive tp q) = tp_ofp tp"
  "pk_tags (arrive tp q) = pk_tags q" "pk_md0 (arrive tp q) = pk_md0 q" "pk_md1 (arrive tp q) = pk_md1 q"
  by (simp_all add: arrive_def received_def trunk_acts_def)

text \<open>
  A host as its switch keeps it: a bridge of this name whose ports are numbers and different, whose VNIs are
  different and each have an interface, and which lists every interface once.
\<close>

definition host_ok :: "string \<Rightarrow> sut \<Rightarrow> bridge \<Rightarrow> (nat \<Rightarrow> vif) \<Rightarrow> bool" where
  "host_ok name s b store \<longleftrightarrow> bridge_at name s b \<and> ports_ok (su_vswitch s) b store
     \<and> (\<forall>g \<in> set (br_vnis b). snd g \<noteq> []) \<and> mset (concat (map snd (br_vnis b))) = mset (br_vifs b)
     \<and> distinct (map (py_int \<circ> py_str \<circ> fst) (br_vnis b))"

lemma host_okD:
  assumes "host_ok name s b store"
  shows "bridge_at name s b" "ports_ok (su_vswitch s) b store" "\<forall>g \<in> set (br_vnis b). snd g \<noteq> []"
    "mset (concat (map snd (br_vnis b))) = mset (br_vifs b)" "distinct (map (py_int \<circ> py_str \<circ> fst) (br_vnis b))"
  using assms by (simp_all add: host_ok_def)

lemma host_vif:
  assumes "host_ok name s b store"
  shows "v \<in> set (br_vifs b) \<longleftrightarrow> (\<exists>vni vifs. (vni, vifs) \<in> set (br_vnis b) \<and> v \<in> set vifs)"
proof -
  have "set (concat (map snd (br_vnis b))) = set (br_vifs b)"
    using host_okD(4) [OF assms] by (metis set_mset_mset)
  then have "v \<in> set (br_vifs b) \<longleftrightarrow> v \<in> set (concat (map snd (br_vnis b)))" by (rule arg_cong [symmetric])
  then show ?thesis by fastforce
qed

text \<open>The flows generated for a host are those of its two tables.\<close>

definition generates :: "sut list \<Rightarrow> nat \<Rightarrow> string \<Rightarrow> bool \<Rightarrow> bridge \<Rightarrow> (nat \<Rightarrow> vif) \<Rightarrow> bool" where
  "generates ss k name md b store \<longleftrightarrow>
     generate_input_flows ss k name ''tnl'' store = Inr (map flow_text (input_table (su_vswitch (ss ! k)) b ''tnl'' store))
     \<and> generate_output_flows ss k name ''tnl'' md store = Inr (map flow_text (output_table ss k b ''tnl'' md store))"

lemma host_generates: "host_ok name (ss ! k) b store \<Longrightarrow> generates ss k name md b store"
  unfolding generates_def
  using input_texts_at [of name ss k b] output_texts_at [of name ss k b store "''tnl''" md] by (auto dest: host_okD)

lemma input_tableE:
  assumes "f \<in> set (input_table vs b ''tnl'' store)"
  obtains (vif) v where "v \<in> set (br_vifs b)" "f = vif_input_flow ''tnl'' (store v)"
    | (tnl) tp where "tp \<in> set (br_tnl_ports b)" "of_in f = Some (int_str (tp_ofp tp))" "of_acts f = trunk_acts ''tnl''"
  using assms by (auto simp: input_table_def)

lemma vif_matches: "matches (vif_input_flow ''tnl'' u) p \<longleftrightarrow> field_is (py_str (vif_ofp u)) (pk_in p)"
  by (simp add: matches_def vif_input_flow_def blank_def)

text \<open>The INPUT table takes in a packet of an interface by the flow of this interface, and one of a tunnel by the tunnel's.\<close>

lemma takes_in_vif:
  assumes "host_ok name s b store" and v: "v \<in> set (br_vifs b)" "field_is (py_str (vif_ofp (store v))) (pk_in p)"
  shows "takes_in (input_table (su_vswitch s) b ''tnl'' store) p (enter (store v) p)"
proof -
  note ok = host_okD(2) [OF assms(1)]
  let ?f = "vif_input_flow ''tnl'' (store v)"
  obtain vni vifs where g: "(vni, vifs) \<in> set (br_vnis b)" "v \<in> set vifs" using v(1) host_vif [OF assms(1)] by blast
  have "?f \<in> set (input_table (su_vswitch s) b ''tnl'' store)" using v(1) by (simp add: input_table_def)
  moreover have "matches ?f p" using v(2) by (simp add: vif_matches)
  moreover have "of_acts h = of_acts ?f" if h: "h \<in> set (input_table (su_vswitch s) b ''tnl'' store)" "matches h p" for h
    using h(1)
  proof (cases rule: input_tableE)
    case (vif u)
    obtain vni' vifs' where "(vni', vifs') \<in> set (br_vnis b)" "u \<in> set vifs'" using vif(1) host_vif [OF assms(1)] by blast
    with local_unique [OF ok g(1) _ g(2) _ v(2)] h(2) vif(2) show ?thesis by (auto simp: vif_matches)
  next
    case (tnl tp)
    with h(2) have "field_is (int_str (tp_ofp tp)) (pk_in p)" by (simp add: matches_def)
    moreover have "int_str (tp_ofp tp) \<in> set (ext_ports (su_vswitch s) b)" using tnl(1) by (force simp: ext_ports_def)
    ultimately show ?thesis using local_not_ext [OF ok g v(2)] by blast
  qed
  ultimately show ?thesis unfolding takes_in_def enter_def by blast
qed

lemma takes_in_tunnel:
  assumes "host_ok name s b store" and tp: "tp \<in> set (br_tnl_ports b)"
  shows "takes_in (input_table (su_vswitch s) b ''tnl'' store) (received tp q) (arrive tp q)"
proof -
  note ok = host_okD(2) [OF assms(1)]
  let ?f = "blank\<lparr>of_tbl := OF_TABLE_INPUT, of_in := Some (int_str (tp_ofp tp)), of_prio := 100, of_acts := trunk_acts ''tnl''\<rparr>"
  have num: "field_is (int_str (tp_ofp tp)) (pk_in (received tp q))" using field_int by (simp add: received_def)
  have ext: "int_str (tp_ofp tp) \<in> set (ext_ports (su_vswitch s) b)" using tp by (force simp: ext_ports_def)
  have "?f \<in> set (input_table (su_vswitch s) b ''tnl'' store)" using tp by (auto simp: input_table_def)
  moreover have "matches ?f (received tp q)" using num by (simp add: matches_def blank_def)
  moreover have "of_acts h = of_acts ?f"
    if h: "h \<in> set (input_table (su_vswitch s) b ''tnl'' store)" "matches h (received tp q)" for h
    using h(1)
  proof (cases rule: input_tableE)
    case (vif u)
    obtain vni' vifs' where "(vni', vifs') \<in> set (br_vnis b)" "u \<in> set vifs'" using vif(1) host_vif [OF assms(1)] by blast
    with local_not_ext [OF ok _ _ _ ext] num h(2) vif(2) show ?thesis by (auto simp: vif_matches)
  qed simp
  ultimately show ?thesis unfolding takes_in_def arrive_def by (intro bexI [of _ ?f]) auto
qed

lemma encap_fields:
  "pk_tags (encap tp q) = pk_tags q" "pk_md0 (encap tp q) = pk_md0 q" "pk_md1 (encap tp q) = pk_md1 q"
  by (simp_all add: encap_def)

lemma encap_id:
  assumes "carries ss k tp md p q" "pk_reg0 p = word_of_int N"
    and "tp_vni tp = flow_val \<or> tp_vni tp = n" "field_is (py_str n) N"
  shows "pk_tun_id (encap tp q) = word_of_int N"
  using assms port_of_field [OF assms(4)] by (auto simp: encap_def carries_def)

lemma uint_vni: "0 \<le> N \<Longrightarrow> N < 2 ^ 32 \<Longrightarrow> uint (word_of_int N :: 32 word) = N"
  by (simp add: uint_word_of_int_eq take_bit_int_eq_self)


lemma two_hosts_deployed:
  defines "rip \<equiv> \<lambda>a. PStr (ip_str (IPv4Address a))"
  shows "\<exists>w'. create_tunnel_ports quiet_env ''br0'' ''gre'' ''per-host'' ''flow'' ([host_w 1 0, host_w 2 2], world0)
     = (Inr (), ([host_d (rip 2) 1 0, host_d (rip 1) 2 2], w'))"
proof -
  obtain w1 where 1: "new_port quiet_env 0 ''br0'' ''gre'' (rip 2) flow_val ([host_w 1 0, host_w 2 2], world0)
      = (Inr (), ([host_d (rip 2) 1 0, host_w 2 2], w1))"
    using host_port [of "[host_w 1 0, host_w 2 2]" 0 1 0 "rip 2" world0] by auto
  obtain w2 where 2: "new_port quiet_env 1 ''br0'' ''gre'' (rip 1) flow_val ([host_d (rip 2) 1 0, host_w 2 2], w1)
      = (Inr (), ([host_d (rip 2) 1 0, host_d (rip 1) 2 2], w2))"
    using host_port [of "[host_d (rip 2) 1 0, host_w 2 2]" 1 2 2 "rip 1" w1] by auto
  from 1 2 show ?thesis
    by (simp add: create_tunnel_ports_def em_simps getbr_def other_suts_def ports_for_def rip_def del: ip_str.simps)
qed

text \<open>Interface \<open>i\<close> has port \<open>11 + i\<close>, and all are in VNI 200.\<close>

definition vif_w :: "nat \<Rightarrow> vif" where
  "vif_w i = (vif_no i)\<lparr>vif_vni := PInt 200\<rparr>"

lemma host_d_ports: "r < 80 \<Longrightarrow> ports_ok (su_vswitch (host_d rip a r)) (vs_bridges (su_vswitch (host_d rip a r)) ! 0) vif_w"
  by (simp add: ports_ok_def local_ports_def ext_ports_def uplink_ofps_def vif_w_def vif_no_def
      VhostUserInterface_def new_tunnel_def add_tunnel_def take_id_def Bridge_def py_int_nat_str py_int_int_str)

lemma host_d_ok:
  assumes "r < 80"
  shows "host_ok ''br0'' (host_d rip a r) (vs_bridges (su_vswitch (host_d rip a r)) ! 0) vif_w"
  unfolding host_ok_def
proof (intro conjI)
  show "ports_ok (su_vswitch (host_d rip a r)) (vs_bridges (su_vswitch (host_d rip a r)) ! 0) vif_w"
    using assms by (rule host_d_ports)
qed (simp_all add: bridge_at_def add_tunnel_def take_id_def Bridge_def)


text \<open>
  C29 With the remote address from the flow, the generated flows send every copy of a broadcast for a tunnel port to
  the last of the other systems: the flow sets the address of each of them in turn before the one output, so that
  with three hosts the others get nothing.
\<close>

theorem flow_remote_is_last:
  assumes run: "create_tunnel_ports env name ty ''flow'' vni_mode (ss0, w) = (Inr (), (ss, w'))"
    and k: "k < length ss" "other_suts ss k \<noteq> []" "tnls name (ss0 ! k) = []" and ok: "host_ok name (ss ! k) bk store"
    and grp: "(vni, vifs) \<in> set (br_vnis bk)" "r \<in> set vifs"
    and pkt: "field_is (py_str (vif_ofp (store r))) (pk_in p)" "pk_reg1 p = 0"
  shows "generates ss k name md bk store
     \<and> (\<exists>out. forwards (output_table ss k bk ''tnl'' md store) p out
          \<and> (\<exists>tp \<in> set (br_tnl_ports bk). tp_ofp tp \<in> fst ` set out)
          \<and> (\<forall>tp \<in> set (br_tnl_ports bk). \<forall>q. (tp_ofp tp, q) \<in> set out \<longrightarrow>
               pk_tun_dst q = Some (tep_of (last (other_suts ss k)))))"
proof -
  note okk = host_okD [OF ok]
  from deployed_grown [OF run] k(1) have "grown name (wanted_ports name (rips ss0 k ''flow'') vni_mode (ss0 ! k)) (ss0 ! k) (ss ! k)"
    by auto
  then obtain tps where t: "tnls name (ss ! k) = tps"
    "map (\<lambda>t. (tp_rip t, tp_vni t)) tps = wanted_ports name [flow_val] vni_mode (ss0 ! k)"
    unfolding grown_def k(3) rips_def by auto
  have rip: "tp_rip tp = flow_val" if "tp \<in> set (br_tnl_ports bk)" for tp
  proof -
    have "(tp_rip tp, tp_vni tp) \<in> set (wanted_ports name [flow_val] vni_mode (ss0 ! k))"
      using that t(1) unfolding t(2) [symmetric] bridge_at_fields(1) [OF okk(1)] by simp
    then show ?thesis by (auto simp: wanted_ports_def)
  qed
  obtain qs where ext: "outputs (ext_acts ss k bk ''tnl'' md vni) p = zip (map tp_ofp (flood_ports bk vni)) qs"
    and qs: "list_all2 (\<lambda>tp q. carries ss k tp md p q) (flood_ports bk vni) qs" using flood_copies by blast
  have last: "pk_tun_dst q = Some (tep_of (last (other_suts ss k)))"
    if "(port, q) \<in> set (outputs (ext_acts ss k bk ''tnl'' md vni) p)" for port q
  proof -
    from that obtain i where i: "i < length qs" "i < length (flood_ports bk vni)" "q = qs ! i" by (auto simp: ext in_set_zip)
    with list_all2_nthD [OF qs i(2)] rip [of "flood_ports bk vni ! i"] nth_mem [OF i(2)] k(2) show ?thesis
      by (simp add: carries_def flood_ports_def)
  qed
  let ?local = "map (\<lambda>q. (port_of (py_str q), p)) (filter (\<lambda>q. q \<noteq> vif_ofp (store r)) (map (\<lambda>v. vif_ofp (store v)) vifs))"
  have local: "(tp_ofp tp, q) \<notin> set ?local" if tp: "tp \<in> set (br_tnl_ports bk)" for tp q
  proof
    assume "(tp_ofp tp, q) \<in> set ?local"
    then obtain v where v: "v \<in> set vifs" "tp_ofp tp = port_of (py_str (vif_ofp (store v)))" by auto
    have "int_str (tp_ofp tp) \<in> set (ext_ports (su_vswitch (ss ! k)) bk)" using tp by (force simp: ext_ports_def)
    from local_not_ext [OF okk(2) grp(1) v(1) port_of_local [OF okk(2) grp(1) v(1)] this]
    show False unfolding v(2) [symmetric] using field_int by blast
  qed
  obtain j where j: "j < length ss" "j \<noteq> k" using k(2) by (auto simp: other_suts_def filter_empty_conv)
  have "vni \<in> set (vni_keys name (ss ! k))" using grp(1) by (force simp: bridge_at_fields [OF okk(1)])
  then obtain tp where "tp \<in> set (tnls name (ss ! k))" "tp_vni tp = flow_val \<or> tp_vni tp = vni"
    using deployed_port [OF run k(1) j] by metis
  then have tp: "tp \<in> set (br_tnl_ports bk)" "tp \<in> set (flood_ports bk vni)"
    by (auto simp: flood_ports_def bridge_at_fields [OF okk(1)])
  obtain q where "(tp_ofp tp, q) \<in> set (outputs (ext_acts ss k bk ''tnl'' md vni) p)" using flood_copy [OF tp(2)] by blast
  then have "tp_ofp tp \<in> fst ` set (?local @ outputs (ext_acts ss k bk ''tnl'' md vni) p)" by force
  moreover have "\<forall>tp \<in> set (br_tnl_ports bk). \<forall>q. (tp_ofp tp, q) \<in> set (?local @ outputs (ext_acts ss k bk ''tnl'' md vni) p) \<longrightarrow>
      pk_tun_dst q = Some (tep_of (last (other_suts ss k)))"
    using local last unfolding set_append by blast
  moreover note forwards_flood [OF okk(2) grp pkt, of "''tnl''" md]
  ultimately show ?thesis using host_generates [OF ok] tp(1) by blast
qed

theorem flow_remote_is_last_witness:
  "\<exists>ss w' out. create_tunnel_ports quiet_env ''br0'' ''gre'' ''flow'' ''flow'' ([host_w 1 0, host_w 2 2, host_w 3 4], world0)
       = (Inr (), (ss, w'))
     \<and> (let b = vs_bridges (su_vswitch (ss ! 0)) ! 0 in
          generates ss 0 ''br0'' False b vif_w
          \<and> forwards (output_table ss 0 b ''tnl'' False vif_w) pkt0 out
          \<and> (\<exists>q. (100, q) \<in> set out \<and> pk_tun_dst q = Some (IPv4Address 3)))"
proof -
  let ?d = "host_d flow_val"
  let ?ss = "[?d 1 0, ?d 2 2, ?d 3 4]"
  let ?b = "vs_bridges (su_vswitch (?d 1 0)) ! 0"
  obtain w1 where 1: "new_port quiet_env 0 ''br0'' ''gre'' flow_val flow_val ([host_w 1 0, host_w 2 2, host_w 3 4], world0)
      = (Inr (), ([?d 1 0, host_w 2 2, host_w 3 4], w1))"
    using host_port [of "[host_w 1 0, host_w 2 2, host_w 3 4]" 0 1 0 flow_val world0] by auto
  obtain w2 where 2: "new_port quiet_env 1 ''br0'' ''gre'' flow_val flow_val ([?d 1 0, host_w 2 2, host_w 3 4], w1)
      = (Inr (), ([?d 1 0, ?d 2 2, host_w 3 4], w2))"
    using host_port [of "[?d 1 0, host_w 2 2, host_w 3 4]" 1 2 2 flow_val w1] by auto
  obtain w3 where 3: "new_port quiet_env 2 ''br0'' ''gre'' flow_val flow_val ([?d 1 0, ?d 2 2, host_w 3 4], w2)
      = (Inr (), (?ss, w3))"
    using host_port [of "[?d 1 0, ?d 2 2, host_w 3 4]" 2 3 4 flow_val w2] by auto
  have run: "create_tunnel_ports quiet_env ''br0'' ''gre'' ''flow'' ''flow'' ([host_w 1 0, host_w 2 2, host_w 3 4], world0)
      = (Inr (), (?ss, w3))"
    using 1 2 3 by (simp add: create_tunnel_ports_def em_simps getbr_def ports_for_def numeral_2_eq_2)
  have "[0..<length ?ss] = [0, 1, 2]" by (simp add: upt_rec)
  then have others: "other_suts ?ss 0 = [?d 2 2, ?d 3 4]" by (simp add: other_suts_def)
  have ok: "host_ok ''br0'' (?ss ! 0) ?b vif_w" using host_d_ok [of 0 flow_val 1] by simp
  have b: "br_vnis ?b = [(PInt 200, [0, 1])]" "br_tnl_ports ?b = [new_tunnel ''gre'' flow_val flow_val 100]"
    by (simp_all add: add_tunnel_def take_id_def Bridge_def)
  have tp: "tp_ofp (new_tunnel ''gre'' flow_val flow_val 100) = 100" by (simp add: new_tunnel_def)
  have vif: "py_str (vif_ofp (vif_w 0)) = nat_str 11" by (simp add: vif_w_def vif_no_def VhostUserInterface_def)
  have pkt: "field_is (py_str (vif_ofp (vif_w 0))) (pk_in pkt0)" "pk_reg1 pkt0 = 0"
    unfolding vif using field_nat [of 11] by (simp_all add: pkt0_def)
  have "tnls ''br0'' ([host_w 1 0, host_w 2 2, host_w 3 4] ! 0) = []"
    by (simp add: tnls_def) (simp add: Bridge_def)
  from flow_remote_is_last [OF run _ _ this ok, of "PInt 200" "[0, 1]" 0 pkt0 False] pkt
  obtain out where out: "generates ?ss 0 ''br0'' False ?b vif_w" "forwards (output_table ?ss 0 ?b ''tnl'' False vif_w) pkt0 out"
    "100 \<in> fst ` set out" "\<forall>q. (100, q) \<in> set out \<longrightarrow> pk_tun_dst q = Some (IPv4Address 3)"
    unfolding others b by (auto simp: tp)
  then obtain q where "(100, q) \<in> set out \<and> pk_tun_dst q = Some (IPv4Address 3)" by auto
  with run out(1,2) show ?thesis
    by (intro exI [of _ ?ss] exI [of _ w3] exI [of _ out]) auto
qed

end
