(* ===== verification/Overlay_Learning.thy ===== *)
theory Overlay_Learning imports Overlay_Delivery begin

text \<open>
  The tables between INPUT and OUTPUT that the default pipeline installs, as a specification: what their flows
  do to a packet and to the FIB table, into which the CORE table learns the port of each source address.  With
  them, a reply to a broadcast goes back over the tunnel to the one interface that sent it.
\<close>

section \<open>The default pipeline as a table\<close>

datatype core_act = DropPkt | GotoTable int | LearnMac | Resubmit int

record core_flow =
  cf_tbl :: int
  cf_prio :: "nat option"
  cf_word :: string
  cf_acts :: "core_act list"

fun core_act_text :: "core_act \<Rightarrow> string" where
  "core_act_text DropPkt = ''drop''"
| "core_act_text (GotoTable t) = fmt [''goto_table:'', int_str t]"
| "core_act_text LearnMac =
     fmt [''learn'', lpar, tbl OF_TABLE_FIB, '',NXM_NX_REG0[0..31],'', ''NXM_OF_ETH_DST[]=NXM_OF_ETH_SRC[],'',
          ''load:NXM_OF_IN_PORT[]'', arrow, ''NXM_NX_REG1[0..15]'', rpar]"
| "core_act_text (Resubmit t) = fmt [''resubmit'', lpar, '','', int_str t, rpar]"

definition core_text :: "core_flow \<Rightarrow> string" where
  "core_text f = fmt [tbl (cf_tbl f), opt_field ''priority'' (map_option nat_str (cf_prio f)), '','', cf_word f, ''='',
     join_with '','' (map core_act_text (cf_acts f))]"

definition core_table :: "core_flow list" where
  "core_table =
     [\<lparr>cf_tbl = OF_TABLE_ACL, cf_prio = Some 1, cf_word = ''action'', cf_acts = [DropPkt]\<rparr>,
      \<lparr>cf_tbl = OF_TABLE_ACL, cf_prio = Some 100, cf_word = ''action'', cf_acts = [GotoTable OF_TABLE_CORE]\<rparr>,
      \<lparr>cf_tbl = OF_TABLE_CORE, cf_prio = None, cf_word = ''actions'', cf_acts = [LearnMac, GotoTable OF_TABLE_NAT]\<rparr>,
      \<lparr>cf_tbl = OF_TABLE_NAT, cf_prio = None, cf_word = ''action'', cf_acts = [GotoTable OF_TABLE_L2_MATCH]\<rparr>,
      \<lparr>cf_tbl = OF_TABLE_L2_MATCH, cf_prio = None, cf_word = ''actions'',
        cf_acts = [Resubmit OF_TABLE_FIB, Resubmit OF_TABLE_OUTPUT]\<rparr>]"

section \<open>What a switch does with a packet in it\<close>

text \<open>The learned flows: VNI and destination address to a port.  A flow without a priority has 32768.\<close>

type_synonym fib = "32 word \<times> string \<Rightarrow> int option"

definition prio_of :: "core_flow \<Rightarrow> nat" where
  "prio_of f = (case cf_prio f of None \<Rightarrow> 32768 | Some n \<Rightarrow> n)"

definition best_flow :: "int \<Rightarrow> core_flow option" where
  "best_flow t = (case filter (\<lambda>f. cf_tbl f = t) core_table of
     [] \<Rightarrow> None | f # fs \<Rightarrow> Some (fold (\<lambda>g f. if prio_of f < prio_of g then g else f) fs f))"

definition fib_load :: "int option \<Rightarrow> pkt \<Rightarrow> pkt" where
  "fib_load port p = (case port of None \<Rightarrow> p
     | Some n \<Rightarrow> p\<lparr>pk_reg1 := pk_reg1 p div 65536 * 65536 + n mod 65536\<rparr>)"

text \<open>
  The tables from a given one on; the OUTPUT table is the end.  \<open>None\<close> is a packet that is dropped.
  The first argument bounds the number of tables passed.
\<close>

fun run_table :: "nat \<Rightarrow> string \<Rightarrow> string \<Rightarrow> int \<Rightarrow> fib \<times> pkt \<Rightarrow> (fib \<times> pkt) option"
  and run_acts :: "nat \<Rightarrow> string \<Rightarrow> string \<Rightarrow> core_act list \<Rightarrow> fib \<times> pkt \<Rightarrow> (fib \<times> pkt) option" where
  "run_table 0 src dst t s = None"
| "run_table (Suc n) src dst t s =
     (if t = OF_TABLE_FIB then Some (fst s, fib_load (fst s (pk_reg0 (snd s), dst)) (snd s))
      else if t = OF_TABLE_OUTPUT then Some s
      else case best_flow t of None \<Rightarrow> None | Some f \<Rightarrow> run_acts n src dst (cf_acts f) s)"
| "run_acts n src dst [] s = Some s"
| "run_acts n src dst (DropPkt # as) s = None"
| "run_acts n src dst (GotoTable t # as) s = run_table n src dst t s"
| "run_acts n src dst (LearnMac # as) s =
     run_acts n src dst as ((fst s)((pk_reg0 (snd s), src) \<mapsto> pk_in (snd s)), snd s)"
| "run_acts n src dst (Resubmit t # as) s =
     (case run_table n src dst t s of None \<Rightarrow> None | Some s' \<Rightarrow> run_acts n src dst as s')"

text \<open>The way passes five tables one after the other and the OUTPUT table.\<close>

definition core_run :: "fib \<Rightarrow> string \<Rightarrow> string \<Rightarrow> pkt \<Rightarrow> (fib \<times> pkt) option" where
  "core_run fib src dst p = run_table 6 src dst OF_TABLE_ACL (fib, p)"

lemma core_texts: "core_flows = map core_text core_table"
  by (simp add: core_flows_def core_table_def core_text_def opt_field_def fmt_def nat_str_small)

lemma best_flows:
  "best_flow OF_TABLE_ACL = Some \<lparr>cf_tbl = OF_TABLE_ACL, cf_prio = Some 100, cf_word = ''action'', cf_acts = [GotoTable OF_TABLE_CORE]\<rparr>"
  "best_flow OF_TABLE_CORE = Some \<lparr>cf_tbl = OF_TABLE_CORE, cf_prio = None, cf_word = ''actions'', cf_acts = [LearnMac, GotoTable OF_TABLE_NAT]\<rparr>"
  "best_flow OF_TABLE_NAT = Some \<lparr>cf_tbl = OF_TABLE_NAT, cf_prio = None, cf_word = ''action'', cf_acts = [GotoTable OF_TABLE_L2_MATCH]\<rparr>"
  "best_flow OF_TABLE_L2_MATCH = Some \<lparr>cf_tbl = OF_TABLE_L2_MATCH, cf_prio = None, cf_word = ''actions'',
        cf_acts = [Resubmit OF_TABLE_FIB, Resubmit OF_TABLE_OUTPUT]\<rparr>"
  by (simp_all add: best_flow_def core_table_def const_defs prio_of_def)

lemma core_run_eq:
  "core_run fib src dst p = (let fib' = fib((pk_reg0 p, src) \<mapsto> pk_in p) in Some (fib', fib_load (fib' (pk_reg0 p, dst)) p))"
proof -
  have "OF_TABLE_ACL \<noteq> OF_TABLE_FIB" "OF_TABLE_ACL \<noteq> OF_TABLE_OUTPUT" "OF_TABLE_CORE \<noteq> OF_TABLE_FIB" "OF_TABLE_CORE \<noteq> OF_TABLE_OUTPUT"
    "OF_TABLE_NAT \<noteq> OF_TABLE_FIB" "OF_TABLE_NAT \<noteq> OF_TABLE_OUTPUT" "OF_TABLE_L2_MATCH \<noteq> OF_TABLE_FIB"
    "OF_TABLE_L2_MATCH \<noteq> OF_TABLE_OUTPUT" "OF_TABLE_OUTPUT \<noteq> OF_TABLE_FIB" by (simp_all add: const_defs)
  then show ?thesis unfolding core_run_def by (simp add: best_flows numeral_eq_Suc Let_def)
qed

section \<open>Unicast to a tunnel\<close>

text \<open>The flows to external ports of a tunnel deployment.\<close>

lemma unicast_tnlE:
  assumes "f \<in> set (unicast_table ss k br ''tnl'' md store)"
  obtains (tnl) tp where "tp \<in> set (br_tnl_ports br)" "of_reg1 f = Some (int_str (tp_ofp tp))"
        "of_acts f = tnl_acts ss k tp md"
    | (low) "of_prio f < 20"
proof -
  have "(\<exists>tp \<in> set (br_tnl_ports br). of_reg1 f = Some (int_str (tp_ofp tp)) \<and> of_acts f = tnl_acts ss k tp md)
    \<or> of_prio f < 20"
    using assms unfolding unicast_table_def blank_def by (auto split: if_splits)
  then show thesis using tnl low by blast
qed

lemma tunnel_unique:
  assumes "ports_ok vs br store" "tp \<in> set (br_tnl_ports br)" "tp' \<in> set (br_tnl_ports br)" "tp_ofp tp = tp_ofp tp'"
  shows "tp = tp'"
proof -
  have "distinct (map (\<lambda>tp. py_int (int_str (tp_ofp tp))) (br_tnl_ports br))"
    using assms(1) by (simp add: ports_ok_def ext_ports_def comp_def)
  then have "inj_on (\<lambda>tp. py_int (int_str (tp_ofp tp))) (set (br_tnl_ports br))" by (simp add: distinct_map)
  from inj_onD [OF this _ assms(2,3)] assms(4) show ?thesis by simp
qed

lemma forwards_to_tunnel:
  assumes ok: "ports_ok (su_vswitch (ss ! k)) br store" and tp: "tp \<in> set (br_tnl_ports br)"
    and pkt: "pk_reg1 p = tp_ofp tp" "tp_ofp tp \<noteq> 0"
  shows "forwards (output_table ss k br ''tnl'' md store) p [(tp_ofp tp, rewrite (tnl_acts ss k tp md) p)]"
proof -
  let ?f = "blank\<lparr>of_reg1 := Some (int_str (tp_ofp tp)), of_prio := 20, of_acts := tnl_acts ss k tp md\<rparr>"
  have "?f \<in> set (output_table ss k br ''tnl'' md store)"
    using tp by (auto simp: output_table_def unicast_table_def)
  moreover have "matches ?f p" using field_int [of "tp_ofp tp"] pkt(1) by (simp add: matches_def blank_def)
  moreover have "of_prio g < of_prio ?f \<or> of_acts g = of_acts ?f"
    if g: "g \<in> set (output_table ss k br ''tnl'' md store)" "matches g p" for g
    using g(1)
  proof (cases rule: output_tableE)
    case (flood vni' vifs')
    from flood_reg1 [OF flood(2)] g(2) have "field_is ''0'' (pk_reg1 p)" by (simp add: matches_def)
    with field_zero pkt show ?thesis by (simp add: field_is_def)
  next
    case unicast
    then show ?thesis
    proof (cases rule: unicast_tnlE)
      case (tnl u)
      with g(2) have "field_is (int_str (tp_ofp u)) (pk_reg1 p)" by (simp add: matches_def)
      with field_int [of "tp_ofp u"] pkt(1) have "tp_ofp u = tp_ofp tp" by (simp add: field_is_def)
      with tunnel_unique [OF ok tnl(1) tp] tnl(3) show ?thesis by simp
    qed simp
  qed
  ultimately show ?thesis
    using tnl_outputs [of ss k tp md p] unfolding forwards_def by (intro bexI [of _ ?f]) auto
qed

section \<open>A reply comes back\<close>

lemma fib_load_fresh:
  "pk_reg1 p = 0 \<Longrightarrow> 0 \<le> n \<Longrightarrow> n < 65536 \<Longrightarrow> fib_load (Some n) p = p\<lparr>pk_reg1 := n\<rparr>"
  by (simp add: fib_load_def)

text \<open>The FIB and the packet after the tables from ACL to OUTPUT, none of which drops it.\<close>

definition learned :: "fib \<Rightarrow> string \<Rightarrow> string \<Rightarrow> pkt \<Rightarrow> fib" where
  "learned fib src dst p = fst (the (core_run fib src dst p))"

definition looked_up :: "fib \<Rightarrow> string \<Rightarrow> string \<Rightarrow> pkt \<Rightarrow> pkt" where
  "looked_up fib src dst p = snd (the (core_run fib src dst p))"

lemma learned_eq: "learned fib src dst p = fib((pk_reg0 p, src) \<mapsto> pk_in p)"
  by (simp add: learned_def core_run_eq Let_def)

lemma looked_up_eq: "looked_up fib src dst p = fib_load ((fib((pk_reg0 p, src) \<mapsto> pk_in p)) (pk_reg0 p, dst)) p"
  by (simp add: looked_up_def core_run_eq Let_def)

text \<open>
  C34 The default pipeline is the specified table of learning, and no packet that gets to it is dropped: the port of
  the source address is learned for the VNI, and a destination that is known in the VNI sets the output port.
\<close>

theorem pipeline_learns:
  "core_flows = map core_text core_table
   \<and> core_run fib src dst p = Some (fib((pk_reg0 p, src) \<mapsto> pk_in p),
       case (fib((pk_reg0 p, src) \<mapsto> pk_in p)) (pk_reg0 p, dst) of None \<Rightarrow> p
       | Some n \<Rightarrow> p\<lparr>pk_reg1 := pk_reg1 p div 65536 * 65536 + n mod 65536\<rparr>)"
  by (simp only: core_texts core_run_eq fib_load_def Let_def simp_thms)

text \<open>
  C7 By the generated flows a reply to a broadcast comes back over the tunnel to the one interface that sent it.  When
  host \<open>k\<close> has learned the sender from its port and host \<open>j\<close> from a tunnel port that accepts packets of \<open>k\<close>, a packet
  to the sender's address from an interface of the VNI on \<open>j\<close> leaves on this tunnel port only, addressed to \<open>k\<close>, and
  whichever tunnel port of \<open>k\<close> takes it in, it leaves there on the sender's port only, with its tags.
\<close>

theorem reply_reaches_sender:
  assumes sys: "k < length ss" "j < length ss" "j \<noteq> k"
    and ok: "host_ok name (ss ! k) bk store" "host_ok name (ss ! j) bj store"
    and sender: "r \<in> set (br_vifs bk)" "field_is (py_str (vif_vni (store r))) N"
      "field_is (py_str (vif_ofp (store r))) (pk_in p)" "0 < pk_in p" "pk_in p < 65536"
    and tunnel: "tp \<in> set (br_tnl_ports bj)" "accepts tp (ip_str (tep_of (ss ! k))) x" "0 < tp_ofp tp" "tp_ofp tp < 65536"
      "tp_rip tp = flow_val \<longrightarrow> length ss = 2" "pk_tun_id x = word_of_int N"
    and reply: "v \<in> set (br_vifs bj)" "field_is (py_str (vif_vni (store v))) N"
      "field_is (py_str (vif_ofp (store v))) (pk_in p')" "pk_reg1 p' = 0" "b \<noteq> a" "0 \<le> N" "N < 2 ^ 32"
  shows "generates ss k name md bk store \<and> generates ss j name md bj store \<and> core_flows = map core_text core_table
     \<and> takes_in (input_table (su_vswitch (ss ! k)) bk ''tnl'' store) p (enter (store r) p)
     \<and> takes_in (input_table (su_vswitch (ss ! j)) bj ''tnl'' store) (received tp x) (arrive tp x)
     \<and> takes_in (input_table (su_vswitch (ss ! j)) bj ''tnl'' store) p' (enter (store v) p')
     \<and> (let fk = learned fibk a dst (enter (store r) p); fj = learned fibj a dst (arrive tp x);
             out = looked_up fj b a (enter (store v) p')
         in \<exists>q. forwards (output_table ss j bj ''tnl'' md store) out [(tp_ofp tp, q)]
            \<and> remote tp q = Some (ip_str (tep_of (ss ! k)))
            \<and> (\<forall>u \<in> set (br_tnl_ports bk). let got = looked_up fk b a (arrive u (encap tp q)) in
                 takes_in (input_table (su_vswitch (ss ! k)) bk ''tnl'' store) (received u (encap tp q)) (arrive u (encap tp q))
                 \<and> forwards (output_table ss k bk ''tnl'' md store) got [(pk_in p, got)] \<and> pk_tags got = pk_tags p'))"
proof -
  note ent = enter_fields [OF sender(2), of p] enter_fields [OF reply(2), of p']
  let ?out = "(enter (store v) p')\<lparr>pk_reg1 := tp_ofp tp\<rparr>"
  let ?q = "rewrite (tnl_acts ss j tp md) ?out"
  have out: "looked_up (learned fibj a dst (arrive tp x)) b a (enter (store v) p') = ?out"
    using reply(4,5) tunnel(3,4,6) by (simp add: looked_up_eq learned_eq arrive_fields ent fib_load_fresh)
  have q: "carries ss j tp md ?out ?q" by (rule tnl_carries)
  have id: "pk_tun_id (encap tp ?q) = word_of_int N"
  proof (cases "tp_vni tp = flow_val")
    case True
    with q ent(5) show ?thesis by (simp add: encap_def carries_def)
  next
    case False
    with tunnel(2,6) have "field_is (py_str (tp_vni tp)) N" by (simp add: accepts_def uint_vni [OF reply(6,7)])
    with False show ?thesis using port_of_field by (simp add: encap_def)
  qed
  have "remote tp ?q = Some (ip_str (tep_of (ss ! k)))"
  proof (cases "tp_rip tp = flow_val")
    case True
    with tunnel(5) sys have "other_suts ss j = [ss ! k]" by (intro other_suts_two) auto
    with q True show ?thesis by (simp add: remote_def carries_def)
  next
    case False
    with tunnel(2) show ?thesis by (simp add: remote_def accepts_def)
  qed
  moreover have "forwards (output_table ss j bj ''tnl'' md store) ?out [(tp_ofp tp, ?q)]"
    using tunnel(1,3) by (intro forwards_to_tunnel [OF host_okD(2) [OF ok(2)]]) auto
  moreover have "let got = looked_up (learned fibk a dst (enter (store r) p)) b a (arrive u (encap tp ?q)) in
      takes_in (input_table (su_vswitch (ss ! k)) bk ''tnl'' store) (received u (encap tp ?q)) (arrive u (encap tp ?q))
      \<and> forwards (output_table ss k bk ''tnl'' md store) got [(pk_in p, got)] \<and> pk_tags got = pk_tags p'"
    if u: "u \<in> set (br_tnl_ports bk)" for u
  proof -
    let ?got = "(arrive u (encap tp ?q))\<lparr>pk_reg1 := pk_in p\<rparr>"
    have "looked_up (learned fibk a dst (enter (store r) p)) b a (arrive u (encap tp ?q)) = ?got"
      using reply(5) sender(4,5) by (simp add: looked_up_eq learned_eq arrive_fields id ent fib_load_fresh)
    moreover have "forwards (output_table ss k bk ''tnl'' md store) ?got [(pk_in p, ?got)]"
      using forwards_unicast [OF host_okD(2,4) [OF ok(1)] sender(1), of ?got "''tnl''" md] sender(3,4) by simp
    moreover have "pk_tags ?got = pk_tags p'"
      using q by (simp add: arrive_fields encap_fields carries_def ent)
    ultimately show ?thesis using takes_in_tunnel [OF ok(1) u] by (simp add: Let_def)
  qed
  ultimately show ?thesis
    using host_generates [OF ok(1)] host_generates [OF ok(2)] core_texts takes_in_vif [OF ok(1) sender(1,3)]
      takes_in_tunnel [OF ok(2) tunnel(1)] takes_in_vif [OF ok(2) reply(1,3)]
    unfolding Let_def out by (intro conjI exI [of _ ?q]) blast+
qed

theorem reply_reaches_sender_witness:
  "\<exists>q got. let ss = [host_d (PStr (ip_str (IPv4Address 2))) 1 0, host_d (PStr (ip_str (IPv4Address 1))) 2 2];
       bk = vs_bridges (su_vswitch (ss ! 0)) ! 0; bj = vs_bridges (su_vswitch (ss ! 1)) ! 0;
       fj = learned Map.empty ''a'' ''*'' (arrive (br_tnl_ports bj ! 0) (pkt0\<lparr>pk_tun_id := 200\<rparr>))
     in generates ss 0 ''br0'' True bk vif_w \<and> generates ss 1 ''br0'' True bj vif_w
        \<and> forwards (output_table ss 1 bj ''tnl'' True vif_w) (looked_up fj ''b'' ''a'' (enter (vif_w 2) (pkt0\<lparr>pk_in := 13\<rparr>))) [(100, q)]
        \<and> forwards (output_table ss 0 bk ''tnl'' True vif_w) got [(11, got)]"
proof -
  define d where "d b a r = host_d (PStr (ip_str (IPv4Address b))) a r" for b a r
  let ?ss = "[d 2 1 0, d 1 2 2]" and ?b = "\<lambda>b a r. vs_bridges (su_vswitch (d b a r)) ! 0"
  let ?tp = "\<lambda>b. new_tunnel ''gre'' (PStr (ip_str (IPv4Address b))) flow_val 100" and ?p = "pkt0\<lparr>pk_in := 13\<rparr>"
  have br: "br_vifs (?b b a r) = [r, Suc r]" "br_tnl_ports (?b b a r) = [?tp b]" "tep_of (d b a r) = IPv4Address a" for b a r
    by (simp_all add: d_def add_tunnel_def take_id_def Bridge_def)
  have ok: "host_ok ''br0'' (d b a r) (?b b a r) vif_w" if "r < 80" for b a r
    unfolding d_def using that by (rule host_d_ok)
  have vif: "py_str (vif_vni (vif_w i)) = int_str 200" "py_str (vif_ofp (vif_w i)) = nat_str (11 + i)" for i
    by (simp_all add: vif_w_def vif_no_def VhostUserInterface_def)
  have num: "field_is (py_str (vif_vni (vif_w i))) 200" "field_is (py_str (vif_ofp (vif_w 0))) 11"
    "field_is (py_str (vif_ofp (vif_w 2))) 13" for i
    using field_int [of 200] field_nat [of 11] field_nat [of 13] by (simp_all only: vif) simp_all
  have tp: "?tp 1 \<in> set (br_tnl_ports (?b 1 2 2))" "tp_rip (?tp 1) \<noteq> flow_val" "tp_ofp (?tp 1) = 100"
    "accepts (?tp 1) (ip_str (tep_of (d 2 1 0))) x" for x
    using ip_str_not_flow [of "IPv4Address 1"]
    by (simp_all only: br) (simp_all add: new_tunnel_def accepts_def del: ip_str.simps)
  have pkt: "pk_in pkt0 = 11" "pk_in ?p = 13" "pk_reg1 ?p = 0" "pk_tun_id (pkt0\<lparr>pk_tun_id := 200\<rparr>) = 200" by (simp_all add: pkt0_def)
  let ?fj = "learned Map.empty ''a'' ''*'' (arrive (?tp 1) (pkt0\<lparr>pk_tun_id := 200\<rparr>))"
  let ?fk = "learned Map.empty ''a'' ''*'' (enter (vif_w 0) pkt0)"
  have "generates ?ss 0 ''br0'' True (?b 2 1 0) vif_w \<and> generates ?ss 1 ''br0'' True (?b 1 2 2) vif_w
    \<and> core_flows = map core_text core_table
    \<and> takes_in (input_table (su_vswitch (?ss ! 0)) (?b 2 1 0) ''tnl'' vif_w) pkt0 (enter (vif_w 0) pkt0)
    \<and> takes_in (input_table (su_vswitch (?ss ! 1)) (?b 1 2 2) ''tnl'' vif_w)
        (received (?tp 1) (pkt0\<lparr>pk_tun_id := 200\<rparr>)) (arrive (?tp 1) (pkt0\<lparr>pk_tun_id := 200\<rparr>))
    \<and> takes_in (input_table (su_vswitch (?ss ! 1)) (?b 1 2 2) ''tnl'' vif_w) ?p (enter (vif_w 2) ?p)
    \<and> (let out = looked_up ?fj ''b'' ''a'' (enter (vif_w 2) ?p)
    in \<exists>q. forwards (output_table ?ss 1 (?b 1 2 2) ''tnl'' True vif_w) out [(tp_ofp (?tp 1), q)]
      \<and> remote (?tp 1) q = Some (ip_str (tep_of (?ss ! 0)))
      \<and> (\<forall>u \<in> set (br_tnl_ports (?b 2 1 0)). let got = looked_up ?fk ''b'' ''a'' (arrive u (encap (?tp 1) q)) in
           takes_in (input_table (su_vswitch (?ss ! 0)) (?b 2 1 0) ''tnl'' vif_w) (received u (encap (?tp 1) q)) (arrive u (encap (?tp 1) q))
           \<and> forwards (output_table ?ss 0 (?b 2 1 0) ''tnl'' True vif_w) got [(pk_in pkt0, got)] \<and> pk_tags got = pk_tags ?p))"
    unfolding Let_def
    by (rule reply_reaches_sender [where N = 200 and r = 0 and v = 2, unfolded Let_def])
      (use ok num tp in \<open>simp_all add: br(1) pkt del: ip_str.simps\<close>)
  then obtain q where "generates ?ss 0 ''br0'' True (?b 2 1 0) vif_w" "generates ?ss 1 ''br0'' True (?b 1 2 2) vif_w"
    "forwards (output_table ?ss 1 (?b 1 2 2) ''tnl'' True vif_w) (looked_up ?fj ''b'' ''a'' (enter (vif_w 2) ?p)) [(100, q)]"
    "\<exists>got. forwards (output_table ?ss 0 (?b 2 1 0) ''tnl'' True vif_w) got [(11, got)]"
    unfolding Let_def tp(3) pkt(1) br(2)
    by (elim exE conjE) (rule that, assumption, assumption, assumption, simp del: ip_str.simps, elim conjE, rule exI)
  then show ?thesis
    unfolding d_def [symmetric] Let_def using br(2) [of 1 2 2] by (elim exE) (auto simp del: ip_str.simps)
qed

end
