(* ===== verification/Vswitch_Ports.thy ===== *)
theory Vswitch_Ports imports Vswitch_Props begin

text \<open>
  The numbers of the uplinks of a reachable switch.  Bridges refer to the uplinks of the switch, which bridges
  share, by their positions from the first on, or have one bond.  An uplink has no number until a bridge takes it and
  again after a bridge that had it is gone; else its position determines the number: 1 or 2 for the first, and two
  more than its position for each other.
\<close>

section \<open>The invariant\<close>

definition uplink_nums :: "nat \<Rightarrow> pyval set" where
  "uplink_nums k = {PNone, PInt (OFP_UPLINK_BASE + 1 + int k)} \<union> (if k = 0 then {PInt OFP_UPLINK_BASE} else {})"

definition refs_ok :: "nat \<Rightarrow> uplink_ref list \<Rightarrow> bool" where
  "refs_ok n us \<longleftrightarrow> (\<exists>m \<le> n. us = map Phys [0..<m]) \<or> (\<exists>u. us = [Bond u] \<and> up_ofp u \<in> {PNone, PInt OFP_UPLINK_BASE})"

definition uplinks_ok :: "vswitch \<Rightarrow> bool" where
  "uplinks_ok vs \<longleftrightarrow> (\<forall>k < length (vs_uplinks vs). up_ofp (vs_uplinks vs ! k) \<in> uplink_nums k)
     \<and> (\<forall>b \<in> set (vs_bridges vs). refs_ok (length (vs_uplinks vs)) (br_uplinks b))"

lemma refs_none [simp]: "refs_ok n []"
  by (auto simp: refs_ok_def intro!: exI [of _ 0])

lemma uplinks_ok_upd:
  assumes "uplinks_ok vs"
    and "i < length (vs_bridges vs) \<Longrightarrow> refs_ok (length (vs_uplinks vs)) (br_uplinks (f (vs_bridges vs ! i)))"
  shows "uplinks_ok (upd_bridge i f vs)"
proof (cases "i < length (vs_bridges vs)")
  case True
  have "set (vs_bridges (upd_bridge i f vs)) \<subseteq> insert (f (vs_bridges vs ! i)) (set (vs_bridges vs))"
    by (simp add: upd_bridge_def set_update_subset_insert)
  then show ?thesis using assms(1) assms(2) [OF True] by (auto simp: uplinks_ok_def)
next
  case False
  then show ?thesis using assms(1) by (simp add: upd_bridge_def list_update_beyond)
qed

lemma uplinks_ok_same:
  assumes "uplinks_ok vs" "\<And>b. br_uplinks (f b) = br_uplinks b"
  shows "uplinks_ok (upd_bridge i f vs)"
  using assms by (intro uplinks_ok_upd) (simp_all add: uplinks_ok_def)

lemma uplinks_ok_num:
  assumes "uplinks_ok vs" "k < length (vs_uplinks vs) \<Longrightarrow> up_ofp (f (vs_uplinks vs ! k)) \<in> uplink_nums k"
  shows "uplinks_ok (upd_uplink k f vs)"
  using assms
  by (cases "k < length (vs_uplinks vs)") (auto simp: uplinks_ok_def upd_uplink_def nth_list_update list_update_beyond)

lemma uplinks_ok_fields:
  assumes "vs_uplinks vs' = vs_uplinks vs" "map br_uplinks (vs_bridges vs') = map br_uplinks (vs_bridges vs)" "uplinks_ok vs"
  shows "uplinks_ok vs'"
proof -
  have "br_uplinks ` set (vs_bridges vs') = br_uplinks ` set (vs_bridges vs)" using assms(2) by (metis set_map)
  then have "\<exists>b' \<in> set (vs_bridges vs). br_uplinks b = br_uplinks b'" if "b \<in> set (vs_bridges vs')" for b
    using that by (metis imageE imageI)
  with assms(1,3) show ?thesis unfolding uplinks_ok_def by metis
qed

section \<open>Methods that leave the uplinks alone\<close>

abbreviation keepsU :: "(vswitch \<times> world, 'a) em \<Rightarrow> bool" where
  "keepsU \<equiv> keepsE (\<lambda>s. uplinks_ok (fst s))"

lemma keepsU_modify: "(\<And>b. br_uplinks (f b) = br_uplinks b) \<Longrightarrow> keepsU (modify_bridge i f)"
  by (auto simp: modify_bridge_def keepsE_def em_simps uplinks_ok_same)

lemma keepsU_num:
  "(\<And>u. up_ofp u \<in> uplink_nums k \<Longrightarrow> up_ofp (f u) \<in> uplink_nums k) \<Longrightarrow> keepsU (on_fst (modifyE (upd_uplink k f)))"
proof -
  assume f: "\<And>u. up_ofp u \<in> uplink_nums k \<Longrightarrow> up_ofp (f u) \<in> uplink_nums k"
  have "uplinks_ok (upd_uplink k f vs)" if "uplinks_ok vs" for vs
    using that by (rule uplinks_ok_num) (use that in \<open>auto simp: uplinks_ok_def intro: f\<close>)
  then show "keepsU (on_fst (modifyE (upd_uplink k f)))" by (auto simp: keepsE_def em_simps)
qed

lemma keepsU_add_vif [keeps]: "keepsU (add_vif_to i v)"
  by (auto simp: add_vif_to_def keepsE_def em_simps bridge_add_vif_def bridge_add_vni_def intro!: uplinks_ok_same)

lemma keepsU_refresh [keeps]: "keepsU refresh_bridge_vnis"
  by (auto simp: refresh_bridge_vnis_def keepsE_def em_simps refresh_vnis_eq comp_def intro: uplinks_ok_fields [rotated -1])

lemma keepsU_vhost [keeps]: "keepsU (create_vhost_user_interface env br r)"
  unfolding create_vhost_user_interface_def create_vhost_impl_def
  by (intro keeps) (auto split: vs_kind.splits intro!: keeps)

lemma keepsU_create_tunnel [keeps]: "keepsU (create_tunnel_port env name ty rip vni)"
proof -
  have "keepsU (take_tunnel_id i)" for i
    by (auto simp: take_tunnel_id_def keepsE_def split: sum.splits intro!: uplinks_ok_same)
  then show ?thesis
    unfolding create_tunnel_port_def Let_def by (intro keeps keepsU_modify) (simp_all add: keeps)
qed

lemma keepsU_delete_tunnel [keeps]: "keepsU (delete_tunnel_port env name tp)"
  unfolding delete_tunnel_port_def delete_interface_def by (intro keeps keepsU_modify) simp_all

lemma keepsU_delete_bridge [keeps]: "keepsU (delete_bridge env name)"
proof -
  have "keepsU (on_fst (modifyE (\<lambda>vs. vs\<lparr>vs_bridges := take i (vs_bridges vs) @ drop (Suc i) (vs_bridges vs)\<rparr>)))" for i
    by (auto simp: keepsE_def em_simps uplinks_ok_def dest: in_set_takeD in_set_dropD)
  then show ?thesis
    unfolding delete_bridge_def by (intro keeps) (auto split: option.splits intro!: keeps)
qed

lemma keepsU_small [keeps]:
  "keepsU (delete_interface env br c)" "keepsU (set_port_vlan env c p)" "keepsU (set_vlan_limit env n)"
  "keepsU (set_uplink_mtu env n)" "keepsU (stop_vswitch env)"
  unfolding delete_interface_def set_port_vlan_def set_vlan_limit_def set_uplink_mtu_def stop_vswitch_def
  by (intro keeps)+

lemma keepsU_bond_member [keeps]: "keepsU (set_bond_member_up env name i up)"
  unfolding set_bond_member_up_def Let_def
  by (intro keeps) (auto split: vs_kind.splits intro!: keeps)

lemma keepsU_name [keeps]: "keepsU (on_fst (modifyE (upd_uplink k (\<lambda>u. u\<lparr>up_name := x\<rparr>))))"
  by (rule keepsU_num) simp

lemma keepsU_start [keeps]: "keepsU (start_vswitch env g)"
  unfolding start_vswitch_def start_vswitch_dpdk_def start_vswitch_native_def devbind_status_def Let_def
  by (intro keeps; auto split: vs_kind.splits option.splits intro!: keeps)

section \<open>Taking uplinks off a bridge\<close>

lemma keepsU_clear [keeps]: "keepsU (on_fst (modifyE (clear_ofp i j)))"
proof -
  have "uplinks_ok (clear_ofp i j vs)" if ok: "uplinks_ok vs" for vs
  proof (cases "br_uplinks (vs_bridges vs ! i) ! j")
    case (Phys k)
    then show ?thesis using ok by (simp add: clear_ofp_def uplinks_ok_num uplink_nums_def)
  next
    case (Bond u)
    have "refs_ok (length (vs_uplinks vs)) ((br_uplinks (vs_bridges vs ! i))[j := Bond (u\<lparr>up_ofp := PNone\<rparr>)])"
      if i: "i < length (vs_bridges vs)"
    proof (cases "j < length (br_uplinks (vs_bridges vs ! i))")
      case True
      have "refs_ok (length (vs_uplinks vs)) (br_uplinks (vs_bridges vs ! i))"
        using ok nth_mem [OF i] by (simp add: uplinks_ok_def)
      with True Bond show ?thesis by (auto simp: refs_ok_def)
    next
      case False
      with ok nth_mem [OF i] show ?thesis by (simp add: uplinks_ok_def list_update_beyond)
    qed
    then show ?thesis using ok Bond by (simp add: clear_ofp_def uplinks_ok_upd)
  qed
  then show ?thesis by (auto simp: keepsE_def em_simps)
qed

lemma keepsU_uplink_impls [keeps]:
  "keepsE (\<lambda>s. Q (fst s)) (ethtool env u a b n)"
  "keepsE (\<lambda>s. Q (fst s)) (create_uplink_interface_impl env br u)"
  "keepsE (\<lambda>s. Q (fst s)) (delete_uplink_impl env u)"
proof -
  show 1: "keepsE (\<lambda>s. Q (fst s)) (ethtool env u a b n)" for a b n
    unfolding ethtool_def Let_def by (intro keeps) (auto split: option.splits intro!: keeps)
  show "keepsE (\<lambda>s. Q (fst s)) (create_uplink_interface_impl env br u)"
    unfolding create_uplink_interface_impl_def by (intro keeps; auto split: vs_kind.splits intro!: keeps 1)
  show "keepsE (\<lambda>s. Q (fst s)) (delete_uplink_impl env u)"
    unfolding delete_uplink_impl_def by (intro keeps; auto split: vs_kind.splits intro!: keeps)
qed

lemma keepsU_delete_uplink [keeps]: "keepsU (delete_uplink_bridge env name)"
  unfolding delete_uplink_bridge_def by (auto intro!: keeps)

section \<open>Putting uplinks on a bridge\<close>

text \<open>
  A bridge gets its uplinks one by one, so what is on it so far has to be known: from a switch where \<open>P\<close> holds
  \<open>m\<close> leaves the invariant, whatever it does, and \<open>Q\<close> when it returns.
\<close>

definition ensures :: "(vswitch \<Rightarrow> bool) \<Rightarrow> (vswitch \<times> world, 'a) em \<Rightarrow> ('a \<Rightarrow> vswitch \<Rightarrow> bool) \<Rightarrow> bool" where
  "ensures P m Q \<longleftrightarrow> (\<forall>vs w. P vs \<longrightarrow> (case m (vs, w) of (r, (vs', w')) \<Rightarrow>
     uplinks_ok vs' \<and> (\<forall>x. r = Inr x \<longrightarrow> Q x vs')))"

lemma ens_bind: "ensures P m Q \<Longrightarrow> (\<And>x. ensures (Q x) (f x) R) \<Longrightarrow> ensures P (bindE m f) R"
  by (fastforce simp: ensures_def bindE_def split: prod.splits sum.splits)

lemma ens_then: "ensures P m Q \<Longrightarrow> (\<And>x. ensures (Q x) n R) \<Longrightarrow> ensures P (thenE m n) R"
  unfolding thenE_def by (rule ens_bind)

lemma ens_frame:
  assumes "\<And>Q. keepsE (\<lambda>s. Q (fst s)) m" "\<And>vs. P vs \<Longrightarrow> uplinks_ok vs"
  shows "ensures P m (\<lambda>_. P)"
  using assms(1) [of P] assms(2) by (simp add: ensures_def keepsE_def split_beta)

lemma ens_get: "(\<And>v. P v \<Longrightarrow> ensures (\<lambda>vs. vs = v) (g v) R) \<Longrightarrow> ensures P (bindE (getE fst) g) R"
  by (simp add: ensures_def em_simps)

lemma ens_update:
  "(\<And>vs. P vs \<Longrightarrow> uplinks_ok (f vs) \<and> Q (f vs)) \<Longrightarrow> ensures P (on_fst (modifyE f)) (\<lambda>_. Q)"
  by (simp add: ensures_def em_simps)

lemma ens_ret: "(\<And>vs. P vs \<Longrightarrow> uplinks_ok vs \<and> Q x vs) \<Longrightarrow> ensures P (retE x) Q"
  by (simp add: ensures_def em_simps)

lemma ens_raise: "(\<And>vs. P vs \<Longrightarrow> uplinks_ok vs) \<Longrightarrow> ensures P (raiseE e) Q"
  by (simp add: ensures_def em_simps)

lemma ens_weaken: "ensures P m Q \<Longrightarrow> (\<And>vs. P' vs \<Longrightarrow> P vs) \<Longrightarrow> (\<And>x vs. Q x vs \<Longrightarrow> Q' x vs) \<Longrightarrow> ensures P' m Q'"
  by (fastforce simp: ensures_def split: prod.splits)

lemma ens_for:
  assumes "\<And>k. k < n \<Longrightarrow> ensures (I k) (f k) (\<lambda>_. I (Suc k))" "\<And>vs k. I k vs \<Longrightarrow> uplinks_ok vs"
  shows "ensures (I 0) (forE [0..<n] f) (\<lambda>_. I n)"
proof -
  have "ensures (I (n - m)) (forE [n - m..<n] f) (\<lambda>_. I n)" if "m \<le> n" for m
    using that
  proof (induction m)
    case 0
    then show ?case using assms(2) by (auto intro!: ens_ret)
  next
    case (Suc m)
    then have "[n - Suc m..<n] = (n - Suc m) # [n - m..<n]" "Suc (n - Suc m) = n - m"
      by (simp_all add: upt_conv_Cons Suc_diff_Suc)
    with Suc assms(1) [of "n - Suc m"] show ?case by (auto intro!: ens_then)
  qed
  from this [of n] show ?thesis by simp
qed

text \<open>The bridge at position \<open>i\<close> has the first \<open>m\<close> uplinks.\<close>

definition has_first :: "nat \<Rightarrow> nat \<Rightarrow> vswitch \<Rightarrow> bool" where
  "has_first i m vs \<longleftrightarrow> uplinks_ok vs \<and> i < length (vs_bridges vs) \<and> br_uplinks (vs_bridges vs ! i) = map Phys [0..<m]"

lemma has_first_ok: "has_first i m vs \<Longrightarrow> uplinks_ok vs"
  by (simp add: has_first_def)

lemma ens_number:
  "PInt n \<in> uplink_nums k \<Longrightarrow>
   ensures (\<lambda>vs. has_first i m vs \<and> length (vs_uplinks vs) = l) (on_fst (modifyE (upd_uplink k (\<lambda>u. u\<lparr>up_ofp := PInt n\<rparr>))))
     (\<lambda>_ vs. has_first i m vs \<and> length (vs_uplinks vs) = l)"
proof (rule ens_update)
  fix vs assume n: "PInt n \<in> uplink_nums k" and vs: "has_first i m vs \<and> length (vs_uplinks vs) = l"
  have "uplinks_ok (upd_uplink k (\<lambda>u. u\<lparr>up_ofp := PInt n\<rparr>) vs)"
    by (rule uplinks_ok_num) (use n vs in \<open>simp_all add: has_first_def\<close>)
  with vs show "uplinks_ok (upd_uplink k (\<lambda>u. u\<lparr>up_ofp := PInt n\<rparr>) vs)
      \<and> has_first i m (upd_uplink k (\<lambda>u. u\<lparr>up_ofp := PInt n\<rparr>) vs)
      \<and> length (vs_uplinks (upd_uplink k (\<lambda>u. u\<lparr>up_ofp := PInt n\<rparr>) vs)) = l"
    by (simp add: has_first_def upd_uplink_def)
qed

lemma ens_append:
  "m < l \<Longrightarrow> ensures (\<lambda>vs. has_first i m vs \<and> length (vs_uplinks vs) = l) (append_uplink i (Phys m))
     (\<lambda>_ vs. has_first i (Suc m) vs \<and> length (vs_uplinks vs) = l)"
  unfolding append_uplink_def modify_bridge_def
  by (rule ens_update) (auto simp: has_first_def upd_bridge_nth refs_ok_def intro!: uplinks_ok_upd exI [of _ "Suc m"])

lemma ens_bond: "ensures (has_first i 0) (append_uplink i (Bond bond_uplink)) (\<lambda>_. uplinks_ok)"
  unfolding append_uplink_def modify_bridge_def
  by (rule ens_update) (auto simp: has_first_def refs_ok_def bond_uplink_def intro!: uplinks_ok_upd)

lemma ens_create_bridge: "ensures uplinks_ok (create_bridge env name) (\<lambda>i. has_first i 0)"
proof -
  have add: "ensures (\<lambda>vs. uplinks_ok vs \<and> length (vs_bridges vs) = i)
      (on_fst (modifyE (\<lambda>vs. vs\<lparr>vs_bridges := vs_bridges vs @ [Bridge name]\<rparr>))) (\<lambda>_. has_first i 0)" for i
    by (rule ens_update) (auto simp: has_first_def uplinks_ok_def Bridge_def)
  have vif: "ensures (has_first i 0) (add_vif_to i v) (\<lambda>_. has_first i 0)" for i v
  proof -
    have "has_first i 0 (upd_bridge i (bridge_add_vif store v) vs)" if "has_first i 0 vs" for vs store
      using that by (auto simp: has_first_def upd_bridge_nth bridge_add_vif_def bridge_add_vni_def intro!: uplinks_ok_same)
    then show ?thesis by (auto simp: ensures_def add_vif_to_def em_simps dest: has_first_ok)
  qed
  have count: "ensures uplinks_ok (bindE (getE (\<lambda>(vs, w). length (vs_bridges vs))) g) R"
    if "\<And>i. ensures (\<lambda>vs. uplinks_ok vs \<and> length (vs_bridges vs) = i) (g i) R"
    for g :: "nat \<Rightarrow> (vswitch \<times> world, nat) em" and R
    using that by (simp add: ensures_def em_simps)
  have impl: "keepsE (\<lambda>s. Q (fst s)) (create_bridge_impl env name)" for Q
    unfolding create_bridge_impl_def by (intro keeps; auto split: vs_kind.splits intro!: keeps)
  show ?thesis
    unfolding create_bridge_def
    by (intro ens_then [OF ens_frame] ens_bind [OF ens_frame] count ens_then [OF add] ens_then [OF vif] ens_ret keeps impl)
      (simp_all add: has_first_ok)
qed

lemma ens_bond_impl:
  "ensures (has_first i 0) (create_uplink_bond_impl env i) (\<lambda>_. uplinks_ok)"
proof -
  have loop: "ensures (\<lambda>vs. has_first i 0 vs \<and> length (vs_uplinks vs) = n)
      (forE [0..<n] (\<lambda>k. thenE (on_fst (modifyE (upd_uplink k (\<lambda>u. u\<lparr>up_ofp := PInt (OFP_UPLINK_BASE + 1 + int k)\<rparr>))))
         (append_uplink i (Phys k)))) (\<lambda>_ vs. has_first i n vs \<and> length (vs_uplinks vs) = n)" for n
    by (rule ens_for [where I = "\<lambda>m vs. has_first i m vs \<and> length (vs_uplinks vs) = n"])
      (auto intro: ens_then [OF ens_number ens_append] has_first_ok simp: uplink_nums_def)
  show ?thesis
    unfolding create_uplink_bond_impl_def Let_def
  proof (rule ens_get, goal_cases)
    case (1 vs0)
    show ?case
    proof (cases "vs_kind vs0")
      case OvsNative
      have "ensures (has_first i 0) m (\<lambda>_. has_first i 0)" if "\<And>Q. keepsE (\<lambda>s. Q (fst s)) m"
        for m :: "(vswitch \<times> world, 'a) em"
        using that has_first_ok by (rule ens_frame)
      show ?thesis
        unfolding OvsNative vs_kind.case
        by (rule ens_weaken [where P = "has_first i 0" and Q = "\<lambda>_. uplinks_ok"],
            rule ens_then [OF ens_frame], (auto intro: keeps has_first_ok)[2],
            rule ens_then [OF ens_frame], (auto intro: keeps has_first_ok)[2], rule ens_bond)
          (simp_all add: 1)
    next
      case (OvsDpdk ps)
      show ?thesis
        unfolding OvsDpdk vs_kind.case
        by (rule ens_then [OF ens_weaken [OF loop]], use 1 in simp, assumption)
          (rule ens_weaken [OF ens_frame], auto intro: keeps has_first_ok)
    qed
  qed
qed

lemma keepsU_create_bridge [keeps]: "keepsU (create_bridge env name)"
  using ens_create_bridge [of env name] by (auto simp: ensures_def keepsE_def split_beta)

lemma keepsU_create_uplink [keeps]: "keepsU (create_uplink_bridge env name bond)"
proof -
  have get: "ensures P (bindE (getE f) g) R" if "\<And>v. ensures P (g v) R"
    for P R and f :: "vswitch \<times> world \<Rightarrow> uplink" and g :: "uplink \<Rightarrow> (vswitch \<times> world, unit) em"
    using that by (simp add: ensures_def em_simps)
  have one: "ensures (\<lambda>vs. has_first i 0 vs \<and> length (vs_uplinks vs) = l)
      (thenE (on_fst (modifyE (upd_uplink 0 (\<lambda>u. u\<lparr>up_ofp := PInt OFP_UPLINK_BASE\<rparr>))))
         (bindE (getE (\<lambda>(vs, w). vs_uplinks vs ! 0)) (\<lambda>u.
          thenE (create_uplink_interface_impl env name u) (append_uplink i (Phys 0))))) (\<lambda>_. uplinks_ok)"
    if "0 < l" for i l
    by (rule ens_then [OF ens_number], simp add: uplink_nums_def, rule get, rule ens_then [OF ens_frame],
        (auto intro: keeps has_first_ok)[2], rule ens_weaken [OF ens_append [OF that]])
      (auto intro: has_first_ok)
  have all: "ensures (\<lambda>vs. vs = v)
      (if \<not> bond then
         (if vs_uplinks v = [] then raiseE IndexError
          else thenE (on_fst (modifyE (upd_uplink 0 (\<lambda>u. u\<lparr>up_ofp := PInt OFP_UPLINK_BASE\<rparr>))))
           (bindE (getE (\<lambda>(vs, w). vs_uplinks vs ! 0)) (\<lambda>u.
            thenE (create_uplink_interface_impl env name u) (append_uplink i (Phys 0)))))
       else create_uplink_bond_impl env i) (\<lambda>_. uplinks_ok)"
    if v: "has_first i 0 v" for i v
  proof (cases bond)
    case True
    have "ensures (\<lambda>vs. vs = v) (create_uplink_bond_impl env i) (\<lambda>_. uplinks_ok)"
      by (rule ens_weaken [OF ens_bond_impl]) (use v in simp_all)
    with True show ?thesis by simp
  next
    case False
    have "ensures (\<lambda>vs. vs = v) (thenE (on_fst (modifyE (upd_uplink 0 (\<lambda>u. u\<lparr>up_ofp := PInt OFP_UPLINK_BASE\<rparr>))))
         (bindE (getE (\<lambda>(vs, w). vs_uplinks vs ! 0)) (\<lambda>u.
          thenE (create_uplink_interface_impl env name u) (append_uplink i (Phys 0))))) (\<lambda>_. uplinks_ok)"
      if "vs_uplinks v \<noteq> []"
      by (rule ens_weaken [OF one [of "length (vs_uplinks v)" i]]) (use v that in simp_all)
    moreover have "ensures (\<lambda>vs. vs = v) (raiseE IndexError :: (vswitch \<times> world, unit) em) (\<lambda>_. uplinks_ok)"
      by (rule ens_raise) (simp add: has_first_ok [OF v])
    ultimately show ?thesis using False by simp
  qed
  have "ensures uplinks_ok (create_uplink_bridge env name bond) (\<lambda>_. uplinks_ok)"
    unfolding create_uplink_bridge_def
    by (rule ens_bind [OF ens_create_bridge], rule ens_get, rule ens_then [OF ens_frame], intro keeps,
        simp add: has_first_ok, rule all)
  then show ?thesis by (auto simp: ensures_def keepsE_def split_beta)
qed

section \<open>Reachable switches\<close>

lemma vs_step_uplinks: "vs_step env s s' \<Longrightarrow> uplinks_ok (fst s) \<Longrightarrow> uplinks_ok (fst s')"
  by (induction rule: vs_step.induct)
    (auto dest: keepsE_D [rotated -1] intro: keeps keepsE_D [where P = "\<lambda>s. uplinks_ok (fst s)"])

lemma collect_uplinks: "collectR (\<lambda>(k, spec). bindR (uplink_of_spec spec) (\<lambda>u. Inr [u])) xs = Inr ups \<Longrightarrow>
   \<forall>u \<in> set ups. up_ofp u = PNone"
  by (induction xs arbitrary: ups) (auto simp: bindR_Inr_iff uplink_of_spec_def Uplink_def Let_def split: option.splits)

lemma vs_reach_uplinks: "vs_reach env s \<Longrightarrow> uplinks_ok (fst s)"
proof (induction rule: vs_reach.induct)
  case (vs_start kind ssh spec tep bin dev vs w)
  then obtain ups where "collectR (\<lambda>(k, spec). bindR (uplink_of_spec spec) (\<lambda>u. Inr [u])) (sort_key fst spec) = Inr ups"
    "vs_uplinks vs = ups" "vs_bridges vs = []"
    by (auto simp: VirtualSwitch_def bindR_Inr_iff)
  with collect_uplinks [OF this(1)] show ?case by (simp add: uplinks_ok_def uplink_nums_def)
next
  case (vs_more s s')
  then show ?case using vs_step_uplinks by blast
qed simp

text \<open>The numbers of the uplinks of a bridge that all have one.\<close>

lemma uplink_numbers:
  assumes "uplinks_ok vs" "b \<in> set (vs_bridges vs)" "\<forall>u \<in> set (br_uplinks b). up_ofp (deref vs u) \<noteq> PNone"
  obtains ns where "map (\<lambda>u. up_ofp (deref vs u)) (br_uplinks b) = map PInt ns" "distinct ns"
    "set ns \<subseteq> {1..max 1 (int (length (vs_uplinks vs)) + 1)}"
proof -
  have base: "OFP_UPLINK_BASE = 1" by (simp add: const_defs)
  from assms(1,2) have "refs_ok (length (vs_uplinks vs)) (br_uplinks b)" by (simp add: uplinks_ok_def)
  then consider (phys) m where "m \<le> length (vs_uplinks vs)" "br_uplinks b = map Phys [0..<m]"
    | (bond) u where "br_uplinks b = [Bond u]" "up_ofp u \<in> {PNone, PInt OFP_UPLINK_BASE}"
    by (auto simp: refs_ok_def)
  then show thesis
  proof cases
    case phys
    have "\<exists>n. up_ofp (vs_uplinks vs ! k) = PInt n \<and> (n = 2 + int k \<or> k = 0 \<and> n = 1)" if "k < m" for k
    proof -
      have "up_ofp (vs_uplinks vs ! k) \<in> uplink_nums k" using assms(1) phys(1) that by (simp add: uplinks_ok_def)
      moreover have "up_ofp (vs_uplinks vs ! k) \<noteq> PNone" using assms(3) phys(2) that by (auto simp: deref_def)
      ultimately show ?thesis by (auto simp: uplink_nums_def base split: if_splits)
    qed
    then obtain f where f: "\<And>k. k < m \<Longrightarrow> up_ofp (vs_uplinks vs ! k) = PInt (f k) \<and> (f k = 2 + int k \<or> k = 0 \<and> f k = 1)"
      by metis
    show ?thesis
    proof (rule that [of "map f [0..<m]"])
      show "map (\<lambda>u. up_ofp (deref vs u)) (br_uplinks b) = map PInt (map f [0..<m])"
        using f by (simp add: phys(2) deref_def)
      have "inj_on f {..<m}" 
      proof (rule inj_onI)
        fix x y assume "x \<in> {..<m}" "y \<in> {..<m}" "f x = f y"
        with f [of x] f [of y] show "x = y" by auto
      qed
      then show "distinct (map f [0..<m])" by (simp add: distinct_map atLeast0LessThan)
      show "set (map f [0..<m]) \<subseteq> {1..max 1 (int (length (vs_uplinks vs)) + 1)}"
        using f phys(1) by fastforce
    qed
  next
    case bond
    then show ?thesis using assms(3) by (intro that [of "[1]"]) (auto simp: deref_def base)
  qed
qed

section \<open>A switch with an uplink, a tunnel port and an interface\<close>

definition switch_u :: vswitch where
  "switch_u = switch0\<lparr>vs_uplinks := [Uplink (PStr ''0000:00:08.0'')]\<rparr>"

definition switch_v :: vswitch where
  "switch_v = switch0\<lparr>vs_uplinks := [(Uplink (PStr ''0000:00:08.0''))\<lparr>up_ofp := PInt 1\<rparr>],
     vs_bridges := [(Bridge ''br0'')\<lparr>br_vifs := [0], br_vnis := [(PInt 0, [0])], br_uplinks := [Phys 0]\<rparr>]\<rparr>"

lemma switch_u_init:
  "VirtualSwitch OvsNative node_h1
     [(''eth1'', \<lparr>if_pci_address = Some (PStr ''0000:00:08.0''), if_n_queue_pair = PNone, if_n_rxq_desc = PNone, if_n_txq_desc = PNone\<rparr>)]
     tep0 ''bin'' ''bin'' = Inr switch_u"
  by (simp add: VirtualSwitch_def switch_u_def switch0_def path_join_def uplink_of_spec_def Let_def)

lemma switch_v_made:
  "\<exists>w. create_uplink_bridge quiet_env ''br0'' False (switch_u, world0) = (Inr (), (switch_v, w))"
  by (simp add: create_uplink_bridge_def create_bridge_def create_bridge_impl_def create_uplink_interface_impl_def
      ethtool_def append_uplink_def modify_bridge_def em_simps switch_u_def switch_v_def switch0_def new_vif_def
      add_vif_to_def upd_bridge_def upd_uplink_def bridge_add_vif_def bridge_add_vni_def Bridge_def const_defs
      TapInterface_def world0_def tep_cmds_def Uplink_def)

definition switch_w :: vswitch where
  "switch_w = upd_bridge 0 (add_tunnel rest_ids tunnel0) switch_v"

lemma switch_w_bridge: "get_bridge switch_w ''br0'' = Some 0" "vs_kind switch_w = OvsNative"
  "vs_bridges switch_w = [add_tunnel rest_ids tunnel0
     ((Bridge ''br0'')\<lparr>br_vifs := [0], br_vnis := [(PInt 0, [0])], br_uplinks := [Phys 0]\<rparr>)]"
  "vs_uplinks switch_w = [(Uplink (PStr ''0000:00:08.0''))\<lparr>up_ofp := PInt 1\<rparr>]"
proof -
  show "get_bridge switch_w ''br0'' = Some 0"
    unfolding switch_w_def by (subst get_bridge_upd) (simp_all add: switch_v_def get_bridge_def add_tunnel_def take_id_def, simp add: Bridge_def)
qed (simp_all add: switch_w_def switch_v_def upd_bridge_def switch0_def)

lemma switch_w_reach: "vs_reach quiet_env (switch_w, w)"
proof -
  obtain w1 where 1: "create_uplink_bridge quiet_env ''br0'' False (switch_u, world0) = (Inr (), (switch_v, w1))"
    using switch_v_made by blast
  have b: "get_bridge switch_v ''br0'' = Some 0" "ida_ids (br_ids_tunnel (vs_bridges switch_v ! 0)) = 100 # rest_ids"
    using tunnel_pool0 [of "''br0''"] by (simp_all add: switch_v_def get_bridge_def Bridge_def)
  note run = quiet_create_tunnel [OF b, of "''vxlan''" "PStr ''flow''" "PStr ''flow''" w1, folded tunnel0_def switch_w_def]
  have "vs_reach quiet_env (switch_v, w1)" using vs_more [OF vs_start [OF switch_u_init] step_create_uplink [OF 1]] .
  from vs_elsewhere [OF vs_more [OF this step_create_tunnel [OF run]]] show ?thesis .
qed

text \<open>It takes a vhost user interface.\<close>

lemma vhost_added:
  "\<exists>w2. create_vhost_user_interface quiet_env ''br0'' r (switch_w, w)
     = (Inr (), (upd_bridge 0 (bridge_add_vif (w_vifs w2) r) switch_w, w2))"
  using switch_w_bridge(1,2)
  by (simp add: create_vhost_user_interface_def create_vhost_impl_def ifup_script_def ifdown_script_def em_simps
      bridgeE_def attr_of_def add_vif_to_def)

end
