(* ===== verification/Spec2Isabelle.thy ===== *)
theory Spec2Isabelle imports Testbed_Pairs Ssh_Terminal Overlay_Learning Vswitch_Ports begin

text \<open>
  A model of \<open>cne-ovs-sit\<close>, the Python library behind Robot Framework tests of Open vSwitch: it reads the
  resources of the hosts, starts the switches and the virtual machines, generates OpenFlow flows, and checks
  connectivity, throughput, access control and NAT between the machines.  All paths below are relative to
  \<open>src/resources/libraries/python\<close>.

  How the program is modelled.  Every method that acts is a computation of type \<open>('s, 'a) em\<close>: from a state
  to an exception or a result, and the next state.  The state of a guest or host command is the \<open>world\<close>
  (\<open>Ovs_Objects\<close>): the cache of SSH connections, the events on the network, the log, a clock in tenths of a
  second, and the store of virtual interfaces, which machines, bridges and topologies share by reference.  A
  switch method acts on the switch and the world, a keyword on all systems acts on the list of systems (the
  global \<open>suts\<close>) and the world.  The machines behind SSH are the parameter \<open>ssh_env\<close>, a record of what opening a
  connection, asking for a session and running a command gives, as a function of everything that happened so
  far; nothing is assumed about it unless a theorem says so.  Exceptions are the values of \<open>err\<close>.

  Parts, in the order the program has them:

  \<^item> \<open>Ovs_Prelude\<close>: exceptions, computations, loops, rule collections (\<open>em_simps\<close>, \<open>returns\<close>, \<open>keeps\<close>, \<open>frame\<close>), and
    the locales \<open>cmd_runner\<close> and \<open>strict_runner\<close> for the many methods that send a list of commands in order.
    \<open>Py_Text\<close>, \<open>Net_Addr\<close> and \<open>Py_Json\<close>: what is used of Python's strings, \<open>int\<close>, \<open>re\<close>, \<open>os.path\<close>, \<open>ipaddress\<close> and \<open>json\<close>.
  \<^item> \<open>Ovs_Objects\<close>: \<open>constants.py\<close>, \<open>vif.py\<close> and the fields of all classes as records.
  \<^item> \<open>Ssh\<close> (\<open>ssh.py\<close>): connection cache, reconnection, the polling loop of a command with its timeout, \<open>exec_cmd\<close>,
    \<open>kill_process\<close>, \<open>scp_node\<close>.  \<open>Ssh_Facts\<close>: at most one transmission of a command, the invariant of the connections as
    a step relation with reachability, output and timeout of a command; the locale \<open>ssh_stable\<close> carries every
    property of the world that network events leave alone.  \<open>Ssh_Terminal\<close>: the interactive terminal, when a call on it
    returns, and with what output.
  \<^item> \<open>Vswitch\<close>, \<open>Vswitch_Uplinks\<close> (\<open>vswitch.py\<close>): allocators, bridges, ports, uplinks and bonds, start and stop of both
    kinds of switch.  \<open>Vswitch_Facts\<close>, \<open>Vswitch_Inv\<close>, \<open>Vswitch_Props\<close>: commands and their order, the invariant of port
    numbers and VNI maps over all methods (\<open>vs_reach\<close>), with the locale \<open>id_pool\<close> for the allocator.  \<open>Vswitch_Ports\<close>: the
    invariant of the numbers of uplinks and bonds, and which of them a bridge has.
  \<^item> \<open>Flows\<close> (\<open>flowutils.py\<close>); \<open>Flow_Spec\<close> is the abstract specification, tables with matches, priorities and actions on
    packets; \<open>Flow_Facts\<close> and \<open>Flow_Props\<close>: the generated texts are those of the tables, and what the tables do.  Every
    property of a packet states both, the equation between the texts of the code and a table and what the table does.
  \<^item> \<open>Overlay\<close>, \<open>Overlay_Props\<close> (\<open>overlay.py\<close>): VNIs, tunnel ports on all systems, deployment and undeployment.
    \<open>Overlay_Delivery\<close>: the ports of a deployment, the flows of two systems and the tunnel between them together, a broadcast
    from host to host.  \<open>Overlay_Learning\<close>: the tables of the default pipeline and what they learn, and the way of the
    reply back to the sender.  Open vSwitch's part, the meaning of actions, of learning and of tunnel ports, is defined there
    and in \<open>Flow_Spec\<close> as its documentation has it.
  \<^item> \<open>Verify_Topology\<close>, \<open>Topology_Pairs\<close> (\<open>pal.py\<close>, first part): the pairs of endpoints a test covers, and that they are
    exactly those of the criterion.  \<open>Pal\<close>, \<open>Pal_Props\<close> (second part): keywords on all systems and the tests.
  \<^item> \<open>Conntrack\<close>, \<open>Acl_Spec\<close>, \<open>Acl_Props\<close> (\<open>conntrack.py\<close>): the ACL flows, the table they mean, and what connections
    it lets come about.
  \<^item> \<open>Guest_Results\<close>, \<open>Guest\<close>, \<open>Guest_Props\<close> (\<open>guest.py\<close>): readers of the output of the tools, commands in a machine.
  \<^item> \<open>Vm\<close>, \<open>Vm_Props\<close> (\<open>vm.py\<close>): QEMU options, machine protocol, boot, pinning of processors.
  \<^item> \<open>Nat_Dump\<close>, \<open>Nat_Roundtrip\<close> (\<open>nat.py\<close>): the reader of connection dumps and the format it reads back.  \<open>Nat_Config\<close>,
    \<open>Nat_Verify\<close>, \<open>Nat_Props\<close>: addresses of the endpoints and their restoration, NAT flows, the four NAT keywords and the check
    of the connections.
  \<^item> \<open>Topology\<close>, \<open>Testbed\<close>, \<open>Testbed_Facts\<close>, \<open>Testbed_Frames\<close>, \<open>Testbed_Props\<close> (\<open>topology.py\<close>, \<open>init.py\<close>): reading the
    host, the share of OVS-DPDK, the machines of each NUMA node, the constructor of a system, loading the testbed;
    processors are shared out without overlap, machines stay within their node, interfaces are numbered and addressed.
  \<^item> \<open>Testbed_Pairs\<close> and this theory: the testbed together with the keywords, that is which pairs of machines a test of a
    freshly loaded testbed covers, what the VNI keywords do to it, and that its ports never collide on a bridge.

  Bounds.  The polling loop of a command recurses on the time left before its timeout; without a timeout the
  code does not enter it and reads the output to its end.  The wait for a boot needs no bound: it is a total function,
  since every round moves the clock on towards the timeout.  Deleting tunnel ports loops over a list that shrinks
  meanwhile; the loop is bounded by the length at the start.  \<open>parse_kv\<close> recurses on the text left; a guard that its termination proof needs is never met
  (\<open>parse_kv_shorter\<close>).  The loop of the interactive terminal may run for ever and is a partial function;
  \<open>terminal_returns_iff\<close> says exactly when it returns.

  Not modelled: \<open>qemu_set_huge_allocate\<close>, whose flag nothing
  reads; the code behind the first line of a guest agent or clean-up method, which always raises.  The YAML reader,
  the variables of Robot Framework and the machines are parameters.  The outcome of \<open>iperf3\<close> is modelled for an expected
  rate of 0, the only one that is passed.  Texts are lists of characters below 256.
\<close>

section \<open>A fresh testbed\<close>

lemma fresh_host:
  "\<exists>s w'. init_topology host_env (PBool False) (Inr path) (\<lambda>_. Inr [(''sut1'', spec1)]) world0 = (Inr [s], w')
     \<and> length (get_vms s) = 2"
proof -
  obtain s w' where 1: "SUT host_env (PBool False) ''sut1'' spec1 world0 = (Inr s, w')" "length (get_vms s) = 2"
    using SUT_runs by (elim exE conjE) (rule that)
  have "item ''type'' (ns_type spec1) = Inr ''SUT''" by (simp add: item_def spec1_def)
  with 1 show ?thesis
    by (intro exI [of _ s] exI [of _ w']) (simp add: init_topology_def load_topo_from_yaml_def em_simps)
qed

lemma sole_elem: "a \<in> A \<Longrightarrow> (\<And>d. d \<in> A \<Longrightarrow> d = a) \<Longrightarrow> A = {a}"
  by blast

lemma sole_pair:
  assumes "testbed_made [s] w" "length (get_vms s) = 2"
  shows "{d \<in> candidates [s] TopologyCriteria (first_ep [s]). d \<noteq> first_ep [s] \<and> ep_vif d = hd (vm_vifs (ep_vm [s] d))}
     = {\<lparr>ep_host = 0, ep_guest = 1, ep_vif = hd (vm_vifs (get_vms s ! 1))\<rparr>}" (is "?A = {?d}")
proof -
  from assms obtain node base where "made_at node base s w" by (auto simp: testbed_made_def)
  with assms(2) have "vm_vifs (get_vms s ! 1) = [base + 2 * 1, Suc (base + 2 * 1)]" unfolding made_at_def by simp
  then have d: "?d \<in> ?A"
    by (simp add: candidates_def endpoints_def TopologyCriteria_def ep_vm_def first_ep_def assms(2))
  show ?thesis
  proof (rule sole_elem [OF d])
    fix d assume that: "d \<in> ?A"
    have "ep_host d = 0" "ep_guest d < 2" "d \<noteq> first_ep [s]" "ep_vif d = hd (vm_vifs (get_vms s ! ep_guest d))"
      using that assms(2) by (auto simp: candidates_def endpoints_def ep_vm_def)
    moreover have "hd (get_vms s) = get_vms s ! 0" using assms(2) by (cases "get_vms s") auto
    ultimately have "ep_guest d = 1" by (cases d) (auto simp: first_ep_def less_2_cases_iff)
    with \<open>ep_host d = 0\<close> \<open>ep_vif d = _\<close> show "d = ?d" by (cases d) simp
  qed
qed

text \<open>The interfaces of the machines of a system, and their ports.\<close>

definition machine_vifs :: "sut \<Rightarrow> nat set" where
  "machine_vifs s = (\<Union>m \<in> set (get_vms s). set (vm_vifs m))"

lemma machine_port:
  assumes "made_at node base s w" "v \<in> machine_vifs s"
  shows "\<exists>n < 2 * length (get_vms s). v = base + n \<and> vif_ofp (w_vifs w v) = PStr (int_str (OFP_VHOST_BASE + 1 + int n))"
proof -
  from assms(2) obtain g where g: "g < length (get_vms s)" "v \<in> set (vm_vifs (get_vms s ! g))"
    unfolding machine_vifs_def UN_iff by (metis in_set_conv_nth)
  with assms(1) have "vm_vifs (get_vms s ! g) = [base + 2 * g, Suc (base + 2 * g)]"
    and at: "\<forall>i < 2. vif_ofp (w_vifs w (base + 2 * g + i)) = PStr (int_str (OFP_VHOST_BASE + 1 + int (2 * g + i)))"
    unfolding made_at_def by blast+
  with g(2) obtain i where i: "i < 2" "v = base + 2 * g + i" by (auto intro: that [of 0] that [of 1])
  with at g(1) show ?thesis by (intro exI [of _ "2 * g + i"]) (simp add: add.assoc)
qed

lemma distinct_by_range:
  assumes "distinct xs" "distinct ys" "set xs \<subseteq> A" "set ys \<subseteq> B" "A \<inter> B = {}"
  shows "distinct (xs @ ys)"
  using assms by auto

section \<open>Properties\<close>

text \<open>
  C11 Right after the testbed is set up, a verification topology is found for every criterion that does not ask
  for the locality of a NIC: its source is the first interface of the first machine, it denies nothing, and it
  allows exactly the first interfaces of the other machines that meet the criterion on the locality.
\<close>

theorem fresh_testbed_pairs:
  assumes "init_topology env g path read_yaml w = (Inr ss, w')" and "ss \<noteq> []" "get_vms (hd ss) \<noteq> []"
    and "sepc_pnic_loc tc \<notin> {NUMA, XNUMA}" "depc_pnic_loc tc \<notin> {NUMA, XNUMA}"
  shows "\<exists>vt. verify_topology_get ss (w_vifs w') tc = Inr vt \<and> pairs (vt_deny vt) = {}
     \<and> pairs (vt_allow vt) = (\<lambda>d. (first_ep ss, loc_of ss (first_ep ss) d, d)) `
         {d \<in> candidates ss tc (first_ep ss). d \<noteq> first_ep ss \<and> ep_vif d = hd (vm_vifs (ep_vm ss d))}"
proof -
  have made: "testbed_made ss w'" by (rule init_made [OF assms(1)])
  note first = first_ep_in [OF made assms(2,3)]
  obtain vt where vt: "verify_topology_get ss (w_vifs w') tc = Inr vt" using topology_total [OF made assms(2-5)] by blast
  have pair: "same_subnet (w_vifs w') d (first_ep ss) \<longleftrightarrow> ep_vif d = hd (vm_vifs (ep_vm ss d))"
    "same_vni (w_vifs w') d (first_ep ss)" if "d \<in> candidates ss tc (first_ep ss)" for d
  proof -
    have d: "d \<in> endpoints ss" using that by (simp add: candidates_def)
    show "same_subnet (w_vifs w') d (first_ep ss) \<longleftrightarrow> ep_vif d = hd (vm_vifs (ep_vm ss d))"
      using endpoints_subnet [OF made d first(1,2)] by (simp add: same_subnet_def)
    show "same_vni (w_vifs w') d (first_ep ss)"
      using endpoint_made [OF made d] endpoint_made [OF made first(1)] unfolding same_vni_def by metis
  qed
  have "pairs (vt_allow vt) = hits ss (w_vifs w') (first_ep ss) True (candidates ss tc (first_ep ss))"
    "pairs (vt_deny vt) = hits ss (w_vifs w') (first_ep ss) False (candidates ss tc (first_ep ss))"
    using topology_pairs [OF vt] unfolding first_ep_def by auto
  then show ?thesis using vt pair unfolding hits_def by (intro exI [of _ vt]) auto
qed

theorem fresh_testbed_pairs_witness:
  "\<exists>s w' vt d. init_topology host_env (PBool False) (Inr ''topo.yaml'') (\<lambda>_. Inr [(''sut1'', spec1)]) world0 = (Inr [s], w')
     \<and> verify_topology_get [s] (w_vifs w') TopologyCriteria = Inr vt \<and> ep_guest d = 1
     \<and> pairs (vt_allow vt) = {(first_ep [s], loc_of [s] (first_ep [s]) d, d)} \<and> pairs (vt_deny vt) = {}"
proof -
  obtain s w' where 1: "init_topology host_env (PBool False) (Inr ''topo.yaml'') (\<lambda>_. Inr [(''sut1'', spec1)]) world0 = (Inr [s], w')"
    and n: "length (get_vms s) = 2" using fresh_host by blast
  have c: "get_vms (hd [s]) \<noteq> []" "sepc_pnic_loc TopologyCriteria \<notin> {NUMA, XNUMA}" "depc_pnic_loc TopologyCriteria \<notin> {NUMA, XNUMA}"
    using n by (auto simp: TopologyCriteria_def)
  from fresh_testbed_pairs [OF 1 _ c] 1 show ?thesis unfolding sole_pair [OF init_made [OF 1] n] by fastforce
qed

text \<open>
  C32 On the testbed as it is set up, the keywords that assign VNIs change nothing: every interface keeps the
  VNI it had, because the list of machines they go through stays empty.
\<close>

theorem fresh_testbed_no_vnis:
  assumes "init_topology env g path read_yaml w = (Inr ss, w')"
  shows "snd (snd (set_vif_vni_by_idx_on_vm (ss, v))) = v \<and> snd (snd (set_vif_vni_by_idx_on_host (ss, v))) = v"
proof -
  have none: "\<forall>s \<in> set ss. su_vms s = []"
    using init_made [OF assms] by (auto simp: testbed_made_def made_at_def)
  then have "concat (map vm_numbers ss) = []" "concat (map host_numbers ss) = []"
    by (simp_all add: vm_numbers_def host_numbers_def all_vifs_def)
  with set_on_vm_eq [of ss v] set_on_host_eq [of ss v] show ?thesis by (auto simp: assign_def)
qed

theorem fresh_testbed_no_vnis_witness:
  "\<exists>s w'. init_topology host_env (PBool False) (Inr ''topo.yaml'') (\<lambda>_. Inr [(''sut1'', spec1)]) world0 = (Inr [s], w')
     \<and> snd (snd (set_vif_vni_by_idx_on_vm ([s], w'))) = w'"
proof -
  obtain s w' where 1: "init_topology host_env (PBool False) (Inr ''topo.yaml'') (\<lambda>_. Inr [(''sut1'', spec1)]) world0 = (Inr [s], w')"
    using fresh_host by blast
  from fresh_testbed_no_vnis [OF 1] 1 show ?thesis by blast
qed

text \<open>
  C14 The ports of a bridge never collide: on a bridge of a reachable switch that has its own port and interfaces of
  the machines of a system as it was set up, each once, all port numbers are different, which is what the flow tables
  need.  The numbers of uplinks, bonds and tunnel ports are those the switch has given them.  This is for a system of
  up to 44 machines and a switch of up to 9 uplinks, none of which has lost its number because a bridge that shared it
  was deleted.
\<close>

theorem bridge_ports_apart:
  assumes init: "init_topology env g path read_yaml w0 = (Inr ss, w)" "s \<in> set ss" "length (get_vms s) \<le> 44"
    and reach: "vs_reach env' (vs, w2)" "b \<in> set (vs_bridges vs)"
    and vifs: "mset (br_vifs b) = mset (t # rs)" "distinct rs" "set rs \<subseteq> machine_vifs s"
      "\<forall>r \<in> set rs. vif_ofp (store r) = vif_ofp (w_vifs w r)" "vif_ofp (store t) = PInt OFP_LOCAL"
    and ups: "length (vs_uplinks vs) \<le> 9" "\<forall>u \<in> set (br_uplinks b). up_ofp (deref vs u) \<noteq> PNone"
  shows "ports_ok vs b store"
proof -
  obtain ns where ns: "map (\<lambda>u. up_ofp (deref vs u)) (br_uplinks b) = map PInt ns" "distinct ns"
    and ns_set: "set ns \<subseteq> {1..max 1 (int (length (vs_uplinks vs)) + 1)}"
    using uplink_numbers [OF _ reach(2) ups(2)] vs_reach_uplinks [OF reach(1)] by auto
  have ns_range: "set ns \<subseteq> {1..10}" using ns_set ups(1) by auto
  have "bridge_ok b" using vs_reach_ok [OF reach(1)] reach(2) by (simp add: vs_ok_def)
  note b = this [unfolded bridge_ok_def] bridge_ok_ports [OF this]
  from init_made [OF init(1)] init(2) obtain node base where made: "made_at node base s w" by (auto simp: testbed_made_def)
  define port where "port r = py_int (py_str (vif_ofp (store r)))" for r
  have t: "port t = Inr 0" using vifs(5) by (simp add: port_def OFP_LOCAL_def py_int_int_str)
  have r: "base \<le> r \<and> r < base + 88 \<and> port r = Inr (11 + int (r - base))" if "r \<in> set rs" for r
    using machine_port [OF made, of r] vifs(3,4) that init(3) by (fastforce simp: port_def py_int_int_str OFP_VHOST_BASE_def)
  have "inj_on port (set rs)" using r by (auto simp: inj_on_def)
  moreover have "port t \<noteq> port r" if "r \<in> set rs" for r using t r [OF that] by auto
  ultimately have "distinct (map port (t # rs))" using vifs(2) by (auto simp: distinct_map)
  moreover have "set (map port (t # rs)) \<subseteq> Inr ` ({0} \<union> {11..98})" using t r by fastforce
  moreover have "map py_int (local_ports b store) = map port (concat (map snd (br_vnis b)))"
    by (simp add: local_ports_def port_def [abs_def] map_concat comp_def)
  moreover have "mset (map port (concat (map snd (br_vnis b)))) = mset (map port (t # rs))" using b(1) vifs(1) by simp
  ultimately have loc: "distinct (map py_int (local_ports b store))" "set (map py_int (local_ports b store)) \<subseteq> Inr ` ({0} \<union> {11..98})"
    using mset_eq_imp_distinct_iff mset_eq_setD by metis+
  have "map py_int (ext_ports vs b) = map Inr (map tp_ofp (br_tnl_ports b) @ ns)"
    using arg_cong [OF ns(1), of "map (py_int \<circ> py_str)"] by (simp add: ext_ports_def uplink_ofps_def comp_def py_int_int_str)
  note eq = this
  have "distinct (map tp_ofp (br_tnl_ports b) @ ns)"
    using b(2) ns(2) ns_range by (intro distinct_by_range [of _ _ "{100..200}" "{1..10}"]) auto
  then have ext: "distinct (map py_int (ext_ports vs b))" unfolding eq by (intro distinct_map [THEN iffD2] conjI) (auto intro: inj_onI)
  have ext_set: "set (map py_int (ext_ports vs b)) \<subseteq> Inr ` ({100..200} \<union> {1..10})"
    unfolding eq using b(2) ns_range by auto
  have "distinct (map py_int (local_ports b store) @ map py_int (ext_ports vs b))"
    using loc(1) ext loc(2) ext_set by (rule distinct_by_range) auto
  with loc(2) ext_set show ?thesis by (auto simp: ports_ok_def image_subset_iff)
qed

theorem bridge_ports_apart_witness:
  "\<exists>s w vs w2 store. init_topology host_env (PBool False) (Inr ''topo.yaml'') (\<lambda>_. Inr [(''sut1'', spec1)]) world0 = (Inr [s], w)
     \<and> vs_reach quiet_env (vs, w2) \<and> br_vifs (vs_bridges vs ! 0) = [0, hd (vm_vifs (get_vms s ! 1))]
     \<and> br_uplinks (vs_bridges vs ! 0) = [Phys 0] \<and> br_tnl_ports (vs_bridges vs ! 0) = [tunnel0]
     \<and> ports_ok vs (vs_bridges vs ! 0) store"
proof -
  obtain s w where 1: "init_topology host_env (PBool False) (Inr ''topo.yaml'') (\<lambda>_. Inr [(''sut1'', spec1)]) world0 = (Inr [s], w)"
    and n: "length (get_vms s) = 2" using fresh_host by blast
  define r where "r = hd (vm_vifs (get_vms s ! 1))"
  obtain w2 where add: "create_vhost_user_interface quiet_env ''br0'' r (switch_w, w)
     = (Inr (), (upd_bridge 0 (bridge_add_vif (w_vifs w2) r) switch_w, w2))" using vhost_added by blast
  let ?vs = "upd_bridge 0 (bridge_add_vif (w_vifs w2) r) switch_w"
  have reach: "vs_reach quiet_env (?vs, w2)"
    using vs_more [OF switch_w_reach step_vhost [OF add]] .
  have b: "vs_bridges ?vs ! 0 \<in> set (vs_bridges ?vs)" "br_vifs (vs_bridges ?vs ! 0) = [0, r]"
    "br_uplinks (vs_bridges ?vs ! 0) = [Phys 0]" "br_tnl_ports (vs_bridges ?vs ! 0) = [tunnel0]"
    "length (vs_uplinks ?vs) = 1" "up_ofp (deref ?vs (Phys 0)) = PInt 1"
    by (simp_all add: upd_bridge_def switch_w_bridge(3,4) bridge_add_vif_def bridge_add_vni_def add_tunnel_def take_id_def
        Bridge_def deref_def)
  from init_made [OF 1] obtain node base where "made_at node base s w" by (auto simp: testbed_made_def)
  with n have "vm_vifs (get_vms s ! 1) = [base + 2 * 1, Suc (base + 2 * 1)]" unfolding made_at_def by simp
  then have r: "r \<in> machine_vifs s" "r \<noteq> 0" using n by (auto simp: machine_vifs_def r_def intro!: bexI [of _ "get_vms s ! 1"])
  have "ports_ok ?vs (vs_bridges ?vs ! 0) ((w_vifs w)(0 := TapInterface ''br0'' (PInt OFP_LOCAL)))"
    by (rule bridge_ports_apart [OF 1 _ _ reach b(1), where t = 0 and rs = "[r]"])
      (use n r b(5) in \<open>simp_all add: b(2,3,6) switch_w_bridge(4) TapInterface_def\<close>)
  with 1 reach b(2-4) show ?thesis unfolding r_def by blast
qed

end
